theory Spec2Isabelle
  imports Main "HOL-Library.Word"
begin

section \<open>The bootstrap of the overlay node: \<open>main.go\<close>\<close>

text \<open>
  \<open>main.go\<close> holds two functions, \<open>Main\<close> and \<open>shutdownBlock\<close>. Both are glue: they
  read options from a \<open>Config\<close>, call the constructors of the other subsystems and the Go
  standard library, and decide what happens when one of those calls fails. The
  embedding keeps that control flow exactly and takes what lies outside the file as
  parameters:
  \<^item> the configuration object is a record of its getter methods (\<open>Config\<close>);
  \<^item> every other function that \<open>main.go\<close> calls but does not define is a field of the
    record \<open>World\<close>, with the result type of its Go signature (\<open>(x, err)\<close> is
    \<open>string + x\<close>, the error on the left; a lone \<open>error\<close> is \<open>string option\<close>);
  \<^item> \<open>NewHostMap\<close>, \<open>NewLightHouse\<close> and \<open>NewHandshakeManager\<close>, which cannot fail, are
    constructors of datatypes: the object is known by the arguments it was made from;
  \<^item> every call with an effect is recorded, in program order, as an \<open>event\<close>;
  \<^item> a \<open>go\<close> statement is recorded as an event too; the two goroutines whose code is in
    \<open>main.go\<close>, the command loop and \<open>shutdownBlock\<close>, are run beside \<open>Main\<close>, each with
    a record of its own, and meet on the unbuffered channel \<open>killChan\<close>;
  \<^item> \<open>return\<close>, \<open>os.Exit\<close> (also through logrus' \<open>Fatal\<close>), a run-time panic and
    blocking for ever are the four \<open>outcome\<close>s.
\<close>

subsection \<open>Data\<close>

type_synonym IP = "8 word list"
  \<comment> \<open>\<open>net.IP\<close>, a byte slice; \<open>nil\<close> is the empty list\<close>

datatype IPNet = IPNet (netIP: IP) (netMask: "8 word list")

datatype udpAddr = NewUDPAddr (addrIP: "32 word") (addrPort: "16 word")

datatype ByteOrder = BigEndian | LittleEndian

type_synonym chan = nat

record CommandRequest =
  Command :: string
  Callback :: "chan option"

datatype CAPool = CAPool "string list"

datatype NebulaCertificate = NebulaCertificate (Ips: "IPNet list")

datatype CertState = CertState (certificate: NebulaCertificate)

datatype Firewall = NewFirewall string

datatype route = Route IPNet

datatype SSHServer = SSHServer nat

datatype Tun = Tun nat

datatype udpConn = UdpConn nat

datatype AllowList = AllowList "(IPNet \<times> bool) list"

record Punchy =
  Punch :: bool
  Respond :: bool
  Delay :: int

datatype HostMap = NewHostMap string IPNet "IPNet list"

datatype LightHouse =
  NewLightHouse (lhAmLighthouse: bool) (lhMyIp: "32 word") (lhHosts: "32 word list")
    (lhInterval: int) (lhPort: int) (lhConn: "udpConn option") (lhPunchBack: bool)
    (lhPunchDelay: int)

record HandshakeConfig =
  tryInterval :: int
  retries :: int
  waitRotation :: int

datatype HandshakeManager =
  NewHandshakeManager IPNet "IPNet list" HostMap LightHouse "udpConn option" HandshakeConfig

record InterfaceConfig =
  HostMap :: HostMap
  Inside :: "Tun option"
  Outside :: "udpConn option"
  certState :: CertState
  Cipher :: string
  Firewall :: Firewall
  ServeDns :: bool
  HandshakeManager :: HandshakeManager
  lightHouse :: LightHouse
  checkInterval :: int
  pendingDeletionInterval :: int
  DropLocalBroadcast :: bool
  DropMulticast :: bool
  UDPBatchSize :: int

datatype Interface = Interface nat

text \<open>
  Modelled from the spec: \<open>HostInfo\<close> and \<open>ConnectionState\<close> are declared outside
  \<open>main.go\<close>. The data model gives a host its VPN address, its current remote and an
  optional connection state with a ready flag; these are the fields that
  \<open>shutdownBlock\<close> reads.
\<close>

record ConnectionState =
  ready :: bool

record HostInfo =
  hostId :: "32 word"
  remote :: "udpAddr option"
  ConnectionState :: "ConnectionState option"

text \<open>
  A value of \<open>static_host_map\<close>: a YAML sequence (\<open>[]interface{}\<close>) or anything else. The
  strings are what \<open>fmt.Sprintf("%v", \<dots>)\<close> makes of the elements.
\<close>

datatype static_value = Sequence "string list" | Scalar string

type_synonym settings = "(string \<times> string) list"

record Config =
  Settings :: settings
  GetString :: "string \<Rightarrow> string \<Rightarrow> string"
  GetInt :: "string \<Rightarrow> int \<Rightarrow> int"
  GetBool :: "string \<Rightarrow> bool \<Rightarrow> bool"
  GetDuration :: "string \<Rightarrow> int \<Rightarrow> int"
  GetStringSlice :: "string \<Rightarrow> string list \<Rightarrow> string list"
  GetMap :: "string \<Rightarrow> (string \<times> static_value) list \<Rightarrow> (string \<times> static_value) list"
  GetAllowList :: "string \<Rightarrow> bool \<Rightarrow> string + AllowList"

text \<open>What \<open>select\<close> in \<open>shutdownBlock\<close> receives: a signal, or a command from \<open>killChan\<close>.\<close>

datatype received = FromSigChan string | FromKillChan CommandRequest

subsection \<open>What \<open>main.go\<close> calls and does not define\<close>

record World =
  OpenFile :: "string \<Rightarrow> string option"
  yamlMarshal :: "settings \<Rightarrow> string + string"
  configLogger :: "Config \<Rightarrow> string option"
  loadCAFromConfig :: "Config \<Rightarrow> string + CAPool"
  NewCertStateFromConfig :: "Config \<Rightarrow> string + CertState"
  NewFirewallFromConfig :: "NebulaCertificate \<Rightarrow> Config \<Rightarrow> string + Firewall"
  parseRoutes :: "Config \<Rightarrow> IPNet \<Rightarrow> string + route list"
  parseUnsafeRoutes :: "Config \<Rightarrow> IPNet \<Rightarrow> string + route list"
  NewSSHServer :: SSHServer
  configSSH :: "SSHServer \<Rightarrow> Config \<Rightarrow> string option"
  newTunFromFd :: "int \<Rightarrow> IPNet \<Rightarrow> int \<Rightarrow> route list \<Rightarrow> route list \<Rightarrow> int \<Rightarrow> string + Tun"
  newTun :: "string \<Rightarrow> IPNet \<Rightarrow> int \<Rightarrow> route list \<Rightarrow> route list \<Rightarrow> int \<Rightarrow> string + Tun"
  NewListener :: "string \<Rightarrow> int \<Rightarrow> bool \<Rightarrow> string + udpConn"
  LocalAddr :: "udpConn \<Rightarrow> string + udpAddr"
  ParseCIDR :: "string \<Rightarrow> string + IPNet"
  String :: "IPNet \<Rightarrow> string"
  ParseIP :: "string \<Rightarrow> IP"
  Contains :: "IPNet \<Rightarrow> IP \<Rightarrow> bool"
  ip2int :: "IP \<Rightarrow> 32 word"
  NewPunchyFromConfig :: "Config \<Rightarrow> Punchy"
  ResolveIPAddr :: "string \<Rightarrow> string + IP"
  Atoi :: "string \<Rightarrow> int \<times> string option"
  ValidateLHStaticEntries :: "LightHouse \<Rightarrow> string option"
  NewInterface :: "InterfaceConfig \<Rightarrow> string + Interface"
  startStats :: "Config \<Rightarrow> bool \<Rightarrow> string option"
  DEFAULT_MTU :: int
  DefaultHandshakeTryInterval :: int
  DefaultHandshakeRetries :: int
  DefaultHandshakeWaitRotation :: int
  signal :: "string option"
  Hosts :: "Interface \<Rightarrow> (32 word \<times> HostInfo) list"

text \<open>
  \<open>signal\<close> is the signal that the \<open>select\<close> statement of \<open>shutdownBlock\<close> receives from
  \<open>sigChan\<close>; it is \<open>None\<close> when \<open>select\<close> takes no signal, because none arrives or because
  the runtime takes a command that waits on \<open>killChan\<close> instead. \<open>Hosts\<close> is
  \<open>ifce.hostMap.Hosts\<close> at that moment, in the order in which
  the \<open>range\<close> loop visits it (Go leaves the order of a map open, so theorems hold for
  every order). \<open>Atoi\<close> returns both results of \<open>strconv.Atoi\<close>, since \<open>Main\<close> uses the
  number also when the error is set. \<open>NewSSHServer\<close> is the server of
  \<open>sshd.NewSSHServer\<close>; \<open>Main\<close> drops the error that comes with it.
\<close>

subsection \<open>Effects\<close>

datatype level = Debug | Info | Warn | Error | Fatal

text \<open>A goroutine started with \<open>go\<close>.\<close>

datatype goroutine =
    CommandLoop "udpConn option" "CommandRequest list"
  | HostMapPunchy HostMap "udpConn option"
  | HandshakeManagerRun HandshakeManager Interface
  | LhUpdateWorker LightHouse Interface
  | EmitStats Interface int
  | DnsMain HostMap
  | ShutdownBlock Interface

datatype event =
    EvOpenFile string
  | EvSetOutput string
  | Println string
  | Log level string
  | RegisterReloadCallback
  | EvNewSSHServer
  | WireSSHReload SSHServer
  | EvConfigSSH SSHServer
  | EvNewTunFromFd int IPNet int "route list" "route list" int
  | EvNewTun string IPNet int "route list" "route list" int
  | EvNewListener string int bool
  | UdpReloadConfig udpConn
  | Go goroutine
  | EvNewHostMap HostMap
  | SetDefaultRoute HostMap "32 word"
  | AddUnsafeRoutes HostMap "route list"
  | EvLocalAddr udpConn
  | EvNewLightHouse LightHouse
  | SetRemoteAllowList LightHouse AllowList
  | SetLocalAllowList LightHouse AllowList
  | AddRemote LightHouse "32 word" udpAddr bool
  | EvValidateLHStaticEntries LightHouse
  | EvNewHandshakeManager HandshakeManager
  | EvNewInterface InterfaceConfig
  | RegisterConfigChangeCallbacks Interface
  | EvStartStats bool
  | AttachCommands SSHServer HostMap HandshakeManager LightHouse Interface
  | InterfaceRun Interface int int string
  | SignalNotify string
  | HostMapLock
  | HostMapUnlock
  | SendCloseTunnel HostInfo
  | CallbackSend chan
  | Rebind "udpConn option"
  | KillChanSend CommandRequest

text \<open>
  \<open>Log\<close> carries the level and the message; the structured fields of a log line are
  left out. \<open>noiseEndianness\<close> and \<open>trustedCAs\<close> are the two package-level variables that
  \<open>Main\<close> assigns.
\<close>

datatype outcome = Returned "string option" | Exited int | Panicked | Blocked

record state =
  noiseEndianness :: ByteOrder
  trustedCAs :: "CAPool option"
  events :: "event list"

type_synonym 'a M = "state \<Rightarrow> (outcome + 'a) \<times> state"

definition ret :: "'a \<Rightarrow> 'a M" where
  "ret x s = (Inr x, s)"

definition stop :: "outcome \<Rightarrow> 'a M" where
  "stop out s = (Inl out, s)"

definition emit :: "event \<Rightarrow> unit M" where
  "emit e s = (Inr (), s\<lparr>events := events s @ [e]\<rparr>)"

definition bind :: "'a M \<Rightarrow> ('a \<Rightarrow> 'b M) \<Rightarrow> 'b M" where
  "bind m f s = (case m s of (Inl out, s') \<Rightarrow> (Inl out, s') | (Inr x, s') \<Rightarrow> f x s')"

definition seq :: "unit M \<Rightarrow> 'b M \<Rightarrow> 'b M" where
  "seq m k = bind m (\<lambda>_. k)"

definition whenever :: "bool \<Rightarrow> unit M \<Rightarrow> unit M" where
  "whenever b m = (if b then m else ret ())"

text \<open>\<open>return fmt.Errorf(prefix + "%s", err)\<close>.\<close>

definition returnErrorf :: "string \<Rightarrow> string \<Rightarrow> 'a M" where
  "returnErrorf prefix err = stop (Returned (Some (prefix @ err)))"

text \<open>logrus' \<open>Fatal\<close> and \<open>Fatalf\<close>: the line is logged, then the process exits with 1.\<close>

definition fatal :: "string \<Rightarrow> 'a M" where
  "fatal msg = bind (emit (Log Fatal msg)) (\<lambda>_. stop (Exited 1))"

text \<open>\<open>x, err := f(\<dots>); if err != nil { return fmt.Errorf(prefix + "%s", err) }\<close>.\<close>

definition orReturn :: "string \<Rightarrow> string + 'a \<Rightarrow> 'a M" where
  "orReturn prefix r = (case r of Inl err \<Rightarrow> returnErrorf prefix err | Inr x \<Rightarrow> ret x)"

definition setTrustedCAs :: "CAPool option \<Rightarrow> unit M" where
  "setTrustedCAs v s = (Inr (), s\<lparr>trustedCAs := v\<rparr>)"

definition setNoiseEndianness :: "ByteOrder \<Rightarrow> unit M" where
  "setNoiseEndianness e s = (Inr (), s\<lparr>noiseEndianness := e\<rparr>)"

subsection \<open>\<open>shutdownBlock\<close> (lines 401 to 435)\<close>

text \<open>
  The loop over \<open>ifce.hostMap.Hosts\<close>. \<open>h.ConnectionState\<close> is a pointer, optional in the
  data model: reading \<open>ready\<close> through \<open>nil\<close> panics. \<open>ifce.send\<close> is best effort and
  returns nothing; the call is recorded with the host it is for.

  \<open>shutdownBlock\<close> takes what it reads of its arguments: \<open>hosts\<close> is
  \<open>ifce.hostMap.Hosts\<close> in the order of the loop, \<open>received\<close> what the \<open>select\<close> on
  \<open>sigChan\<close> and \<open>killChan\<close> receives, \<open>None\<close> when nothing ever arrives. After a
  signal \<open>cmd\<close> is the zero \<open>CommandRequest\<close>, whose callback is \<open>nil\<close>.
\<close>

fun closeTunnels :: "(32 word \<times> HostInfo) list \<Rightarrow> unit M" where
  "closeTunnels [] = ret ()"
| "closeTunnels ((k, h) # rest) =
     (case ConnectionState h of
        None \<Rightarrow> stop Panicked
      | Some cs \<Rightarrow>
          seq (whenever (ready cs)
                 (seq (emit (SendCloseTunnel h))
                      (emit (Log Debug ''Sending close tunnel message''))))
              (closeTunnels rest))"

definition shutdownBlock :: "(32 word \<times> HostInfo) list \<Rightarrow> received option \<Rightarrow> unit M" where
  "shutdownBlock hosts received =
     seq (emit (SignalNotify ''SIGTERM''))
    (seq (emit (SignalNotify ''SIGINT''))
    (case received of
       None \<Rightarrow> stop Blocked
     | Some rcv \<Rightarrow>
         (let cmd = (case rcv of
                       FromSigChan rawSig \<Rightarrow> \<lparr>Command = [], Callback = None\<rparr>
                     | FromKillChan c \<Rightarrow> c)
          in seq (emit (Log Info ''Caught signal, shutting down''))
            (seq (emit HostMapLock)
            (seq (closeTunnels hosts)
            (seq (emit HostMapUnlock)
            (seq (emit (Log Info ''Goodbye''))
                 (case Callback cmd of
                    Some cb \<Rightarrow> emit (CallbackSend cb)
                  | None \<Rightarrow> ret ()))))))))"

subsection \<open>The command goroutine (lines 153 to 164)\<close>



text \<open>
  What the \<open>select\<close> of lines 408 to 413 receives in a call of \<open>Main\<close> with the command
  channel \<open>commandChan\<close>: the signal, if it takes one; else the command that the goroutine
  above is sending on \<open>killChan\<close>, which is the first \<open>exit\<close> command to arrive (the
  commands before it are handled and the loop goes on); else nothing, for ever.
\<close>

definition selectReceives :: "World \<Rightarrow> CommandRequest list option \<Rightarrow> received option" where
  "selectReceives w commandChan =
     (case signal w of
        Some sig \<Rightarrow> Some (FromSigChan sig)
      | None \<Rightarrow>
          (case commandChan of
             None \<Rightarrow> None
           | Some cmds \<Rightarrow>
               (case find (\<lambda>cmd. Command cmd = ''exit'') cmds of
                  None \<Rightarrow> None
                | Some cmd \<Rightarrow> Some (FromKillChan cmd))))"

subsection \<open>\<open>Main\<close>, section by section\<close>

text \<open>Lines 28 to 63: the log file, the printed configuration, the logger.\<close>

definition setupLogger :: "World \<Rightarrow> Config \<Rightarrow> bool \<Rightarrow> string \<Rightarrow> unit M" where
  "setupLogger w config configTest logFile =
     seq (if logFile = [] then emit (EvSetOutput [])
          else seq (emit (EvOpenFile logFile))
                   (case OpenFile w logFile of
                      Some err \<Rightarrow> stop (Returned (Some err))
                    | None \<Rightarrow> emit (EvSetOutput logFile)))
    (seq (whenever configTest
            (case yamlMarshal w (Settings config) of
               Inl err \<Rightarrow> stop (Returned (Some err))
             | Inr b \<Rightarrow> emit (Println b)))
         (case configLogger w config of
            Some err \<Rightarrow> returnErrorf ''failed to configure the logger: '' err
          | None \<Rightarrow> emit RegisterReloadCallback))"

text \<open>
  Lines 65 to 104: trusted CAs, certificate, firewall, routes, sshd. \<open>Ips[0]\<close> of a
  certificate without addresses panics.
\<close>

definition loadCerts ::
  "World \<Rightarrow> Config \<Rightarrow> (CertState \<times> Firewall \<times> IPNet \<times> route list \<times> route list \<times> SSHServer) M" where
  "loadCerts w config =
     bind (case loadCAFromConfig w config of
             Inl err \<Rightarrow> seq (setTrustedCAs None)
                            (returnErrorf ''failed to load ca from config: '' err)
           | Inr cas \<Rightarrow> seq (setTrustedCAs (Some cas))
                            (emit (Log Debug ''Trusted CA fingerprints''))) (\<lambda>_.
     bind (orReturn ''failed to load certificate from config: ''
             (NewCertStateFromConfig w config)) (\<lambda>cs.
     seq (emit (Log Debug ''Client nebula certificate''))
    (bind (orReturn ''error while loading firewall rules: ''
             (NewFirewallFromConfig w (certificate cs) config)) (\<lambda>fw.
     seq (emit (Log Info ''Firewall started''))
    (case Ips (certificate cs) of
       [] \<Rightarrow> stop Panicked
     | tunCidr # _ \<Rightarrow>
         bind (orReturn ''could not parse tun.routes: '' (parseRoutes w config tunCidr)) (\<lambda>routes.
         bind (orReturn ''could not parse tun.unsafe_routes: ''
                 (parseUnsafeRoutes w config tunCidr)) (\<lambda>unsafeRoutes.
         (let ssh = NewSSHServer w in
          seq (emit EvNewSSHServer)
         (seq (emit (WireSSHReload ssh))
         (seq (whenever (GetBool config ''sshd.enabled'' False)
                 (seq (emit (EvConfigSSH ssh))
                      (case configSSH w ssh config of
                         Some err \<Rightarrow> returnErrorf ''error while configuring the sshd: '' err
                       | None \<Rightarrow> ret ())))
              (ret (cs, fw, tunCidr, routes, unsafeRoutes, ssh))))))))))))"

text \<open>Lines 111 to 148: the TUN device and the UDP listener, neither in a config test.\<close>

definition openDevices ::
  "World \<Rightarrow> Config \<Rightarrow> bool \<Rightarrow> int option \<Rightarrow> IPNet \<Rightarrow> route list \<Rightarrow> route list
     \<Rightarrow> (Tun option \<times> int \<times> udpConn option) M" where
  "openDevices w config configTest tunFd tunCidr routes unsafeRoutes =
     bind (if \<not> configTest then
             bind (case tunFd of
                     Some fd \<Rightarrow>
                       seq (emit (EvNewTunFromFd fd tunCidr
                                    (GetInt config ''tun.mtu'' (DEFAULT_MTU w)) routes unsafeRoutes
                                    (GetInt config ''tun.tx_queue'' 500)))
                           (orReturn ''failed to get a tun/tap device: ''
                              (newTunFromFd w fd tunCidr
                                 (GetInt config ''tun.mtu'' (DEFAULT_MTU w)) routes unsafeRoutes
                                 (GetInt config ''tun.tx_queue'' 500)))
                   | None \<Rightarrow>
                       seq (emit (EvNewTun (GetString config ''tun.dev'' []) tunCidr
                                    (GetInt config ''tun.mtu'' (DEFAULT_MTU w)) routes unsafeRoutes
                                    (GetInt config ''tun.tx_queue'' 500)))
                           (orReturn ''failed to get a tun/tap device: ''
                              (newTun w (GetString config ''tun.dev'' []) tunCidr
                                 (GetInt config ''tun.mtu'' (DEFAULT_MTU w)) routes unsafeRoutes
                                 (GetInt config ''tun.tx_queue'' 500))))
                  (\<lambda>t. ret (Some t))
           else ret None) (\<lambda>tun.
     (let udpQueues = GetInt config ''listen.routines'' 1 in
      bind (if \<not> configTest then
              seq (emit (EvNewListener (GetString config ''listen.host'' ''0.0.0.0'')
                           (GetInt config ''listen.port'' 0) (udpQueues > 1)))
             (bind (orReturn ''failed to open udp listener: ''
                      (NewListener w (GetString config ''listen.host'' ''0.0.0.0'')
                         (GetInt config ''listen.port'' 0) (udpQueues > 1))) (\<lambda>u.
              seq (emit (UdpReloadConfig u)) (ret (Some u))))
            else ret None) (\<lambda>udpServer.
      ret (tun, udpQueues, udpServer))))"

text \<open>Lines 150 to 165: the goroutine that serves the command channel, if there is one.\<close>

definition startCommandLoop :: "CommandRequest list option \<Rightarrow> udpConn option \<Rightarrow> unit M" where
  "startCommandLoop commandChan udpServer =
     (case commandChan of
        Some cmds \<Rightarrow> emit (Go (CommandLoop udpServer cmds))
      | None \<Rightarrow> ret ())"

text \<open>Lines 168 to 203: \<open>preferred_ranges\<close>, and \<open>local_range\<close> merged into it.\<close>

fun parseRanges :: "World \<Rightarrow> string list \<Rightarrow> IPNet list \<Rightarrow> IPNet list M" where
  "parseRanges w [] preferredRanges = ret preferredRanges"
| "parseRanges w (rawPreferredRange # rest) preferredRanges =
     (case ParseCIDR w rawPreferredRange of
        Inl err \<Rightarrow> returnErrorf ''failed to parse preferred_ranges: '' err
      | Inr preferredRange \<Rightarrow> parseRanges w rest (preferredRanges @ [preferredRange]))"

fun found :: "World \<Rightarrow> IPNet \<Rightarrow> IPNet list \<Rightarrow> bool" where
  "found w localRange [] = False"
| "found w localRange (r # rs) =
     (if String w r = String w localRange then True else found w localRange rs)"

definition parsePreferredRanges :: "World \<Rightarrow> Config \<Rightarrow> IPNet list M" where
  "parsePreferredRanges w config =
     bind (let rawPreferredRanges = GetStringSlice config ''preferred_ranges'' [] in
           if length rawPreferredRanges > 0 then parseRanges w rawPreferredRanges []
           else ret []) (\<lambda>preferredRanges.
     (let rawLocalRange = GetString config ''local_range'' [] in
      if rawLocalRange \<noteq> [] then
        (case ParseCIDR w rawLocalRange of
           Inl err \<Rightarrow> returnErrorf ''failed to parse local_range: '' err
         | Inr localRange \<Rightarrow>
             if \<not> found w localRange preferredRanges
             then ret (preferredRanges @ [localRange])
             else ret preferredRanges)
      else ret preferredRanges))"

text \<open>Lines 205 to 220: the main host map and hole punching.\<close>

definition newMainHostMap ::
  "World \<Rightarrow> Config \<Rightarrow> bool \<Rightarrow> IPNet \<Rightarrow> IPNet list \<Rightarrow> route list \<Rightarrow> udpConn option
     \<Rightarrow> (HostMap \<times> Punchy) M" where
  "newMainHostMap w config configTest tunCidr preferredRanges unsafeRoutes udpServer =
     (let hostMap = NewHostMap ''main'' tunCidr preferredRanges in
      seq (emit (EvNewHostMap hostMap))
     (seq (emit (SetDefaultRoute hostMap
                   (ip2int w (ParseIP w (GetString config ''default_route'' ''0.0.0.0'')))))
     (seq (emit (AddUnsafeRoutes hostMap unsafeRoutes))
     (seq (emit (Log Info ''Main HostMap created''))
     (let punchy = NewPunchyFromConfig w config in
      seq (whenever (Punch punchy \<and> \<not> configTest)
             (seq (emit (Log Info ''UDP hole punching enabled''))
                  (emit (Go (HostMapPunchy hostMap udpServer)))))
          (ret (hostMap, punchy)))))))"

text \<open>
  Lines 222 to 230: the port. Outside a config test \<open>udpServer\<close> is the listener opened
  above; \<open>LocalAddr\<close> on a \<open>nil\<close> listener would dereference it.
\<close>

definition discoverPort :: "World \<Rightarrow> Config \<Rightarrow> bool \<Rightarrow> udpConn option \<Rightarrow> int M" where
  "discoverPort w config configTest udpServer =
     (let port = GetInt config ''listen.port'' 0 in
      if port = 0 \<and> \<not> configTest then
        (case udpServer of
           None \<Rightarrow> stop Panicked
         | Some u \<Rightarrow>
             seq (emit (EvLocalAddr u))
            (bind (orReturn ''failed to get listening port: '' (LocalAddr w u)) (\<lambda>uPort.
             ret (uint (addrPort uPort)))))
      else ret port)"

text \<open>Lines 232 to 250: the lighthouse role and the upstream lighthouses.\<close>

fun lighthouseHostsLoop :: "World \<Rightarrow> IPNet \<Rightarrow> string list \<Rightarrow> 32 word list M" where
  "lighthouseHostsLoop w tunCidr [] = ret []"
| "lighthouseHostsLoop w tunCidr (host # rest) =
     (let ip = ParseIP w host in
      seq (whenever (ip = [])
             (emit (Log Error ''Unable to parse lighthouse host entry'')))
          (if \<not> Contains w tunCidr ip
           then fatal ''lighthouse host is not in our subnet, invalid''
           else bind (lighthouseHostsLoop w tunCidr rest) (\<lambda>hs. ret (ip2int w ip # hs))))"

definition parseLighthouseHosts :: "World \<Rightarrow> Config \<Rightarrow> IPNet \<Rightarrow> (bool \<times> 32 word list) M" where
  "parseLighthouseHosts w config tunCidr =
     (let amLighthouse = GetBool config ''lighthouse.am_lighthouse'' False;
          rawLighthouseHosts = GetStringSlice config ''lighthouse.hosts'' [] in
      seq (whenever (amLighthouse \<and> length rawLighthouseHosts \<noteq> 0)
             (emit (Log Warn
                ''lighthouse.am_lighthouse enabled on node but upstream lighthouses exist in config'')))
          (bind (lighthouseHostsLoop w tunCidr rawLighthouseHosts) (\<lambda>lighthouseHosts.
           ret (amLighthouse, lighthouseHosts))))"

text \<open>Lines 252 to 274: the lighthouse and its two allow lists.\<close>

definition newLightHouse ::
  "World \<Rightarrow> Config \<Rightarrow> bool \<Rightarrow> IPNet \<Rightarrow> 32 word list \<Rightarrow> int \<Rightarrow> udpConn option \<Rightarrow> Punchy
     \<Rightarrow> LightHouse M" where
  "newLightHouse w config amLighthouse tunCidr lighthouseHosts port udpServer punchy =
     (let lh = NewLightHouse amLighthouse (ip2int w (netIP tunCidr)) lighthouseHosts
                         (GetInt config ''lighthouse.interval'' 10) port udpServer
                         (Respond punchy) (Delay punchy) in
      seq (emit (EvNewLightHouse lh))
     (case GetAllowList config ''lighthouse.remote_allow_list'' False of
        Inl err \<Rightarrow> fatal ''Invalid lighthouse.remote_allow_list''
      | Inr remoteAllowList \<Rightarrow>
          seq (emit (SetRemoteAllowList lh remoteAllowList))
         (case GetAllowList config ''lighthouse.local_allow_list'' True of
            Inl err \<Rightarrow> fatal ''Invalid lighthouse.local_allow_list''
          | Inr localAllowList \<Rightarrow>
              seq (emit (SetLocalAllowList lh localAllowList))
                  (ret lh))))"

text \<open>
  Lines 277 to 314: the static host map. \<open>Split s sep\<close> is \<open>strings.Split\<close> for a
  separator of one character; its result is never empty, \<open>parts[1]\<close> panics when there
  was no separator. \<open>uint16(port)\<close> keeps the low 16 bits.
\<close>

fun Split :: "string \<Rightarrow> char \<Rightarrow> string list" where
  "Split [] sep = [[]]"
| "Split (c # cs) sep =
     (if c = sep then [] # Split cs sep
      else (case Split cs sep of
              [] \<Rightarrow> [[c]]
            | p # ps \<Rightarrow> (c # p) # ps))"

definition addStaticRemote :: "World \<Rightarrow> LightHouse \<Rightarrow> IP \<Rightarrow> string \<Rightarrow> unit M" where
  "addStaticRemote w lh vpnIp v =
     (case Split v (CHR '':'') of
        [] \<Rightarrow> stop Panicked
      | part0 # parts \<Rightarrow>
          (case ResolveIPAddr w part0 of
             Inl err \<Rightarrow> ret ()
           | Inr ip \<Rightarrow>
               (case parts of
                  [] \<Rightarrow> stop Panicked
                | part1 # _ \<Rightarrow>
                    (case Atoi w part1 of (port, err) \<Rightarrow>
                       seq (whenever (err \<noteq> None)
                              (emit (Log Error ''Static host address could not be parsed'')))
                           (emit (AddRemote lh (ip2int w vpnIp)
                                    (NewUDPAddr (ip2int w ip) (word_of_int port)) True))))))"

fun addStaticRemotes :: "World \<Rightarrow> LightHouse \<Rightarrow> IP \<Rightarrow> string list \<Rightarrow> unit M" where
  "addStaticRemotes w lh vpnIp [] = ret ()"
| "addStaticRemotes w lh vpnIp (v # vals) =
     seq (addStaticRemote w lh vpnIp v) (addStaticRemotes w lh vpnIp vals)"

fun staticHostMapLoop ::
  "World \<Rightarrow> IPNet \<Rightarrow> LightHouse \<Rightarrow> (string \<times> static_value) list \<Rightarrow> unit M" where
  "staticHostMapLoop w tunCidr lh [] = ret ()"
| "staticHostMapLoop w tunCidr lh ((k, v) # rest) =
     (let vpnIp = ParseIP w k in
      if \<not> Contains w tunCidr vpnIp
      then fatal ''static_host_map key is not in our subnet, invalid''
      else seq (case v of
                  Sequence vals \<Rightarrow> addStaticRemotes w lh vpnIp vals
                | Scalar x \<Rightarrow> addStaticRemote w lh vpnIp x)
               (staticHostMapLoop w tunCidr lh rest))"

definition loadStaticHostMap :: "World \<Rightarrow> Config \<Rightarrow> IPNet \<Rightarrow> LightHouse \<Rightarrow> unit M" where
  "loadStaticHostMap w config tunCidr lh =
     seq (staticHostMapLoop w tunCidr lh (GetMap config ''static_host_map'' []))
    (seq (emit (EvValidateLHStaticEntries lh))
         (case ValidateLHStaticEntries w lh of
            Some err \<Rightarrow> emit (Log Error ''Lighthouse unreachable'')
          | None \<Rightarrow> ret ()))"

text \<open>Lines 316 to 346: the handshake manager and the interface configuration.\<close>

definition newInterfaceConfig ::
  "World \<Rightarrow> Config \<Rightarrow> IPNet \<Rightarrow> IPNet list \<Rightarrow> HostMap \<Rightarrow> LightHouse \<Rightarrow> Tun option
     \<Rightarrow> udpConn option \<Rightarrow> CertState \<Rightarrow> Firewall \<Rightarrow> (HandshakeManager \<times> InterfaceConfig) M" where
  "newInterfaceConfig w config tunCidr preferredRanges hostMap lh tun udpServer cs fw =
     (let handshakeConfig =
            \<lparr>tryInterval = GetDuration config ''handshakes.try_interval''
                             (DefaultHandshakeTryInterval w),
             retries = GetInt config ''handshakes.retries'' (DefaultHandshakeRetries w),
             waitRotation = GetInt config ''handshakes.wait_rotation''
                              (DefaultHandshakeWaitRotation w)\<rparr>;
          handshakeManager = NewHandshakeManager tunCidr preferredRanges hostMap lh
                               udpServer handshakeConfig in
      seq (emit (EvNewHandshakeManager handshakeManager))
          (ret (handshakeManager,
                \<lparr>HostMap = hostMap,
                 Inside = tun,
                 Outside = udpServer,
                 certState = cs,
                 Cipher = GetString config ''cipher'' ''aes'',
                 Firewall = fw,
                 ServeDns = GetBool config ''lighthouse.serve_dns'' False,
                 HandshakeManager = handshakeManager,
                 lightHouse = lh,
                 checkInterval = GetInt config ''timers.connection_alive_interval'' 5,
                 pendingDeletionInterval = GetInt config ''timers.pending_deletion_interval'' 10,
                 DropLocalBroadcast = GetBool config ''tun.drop_local_broadcast'' False,
                 DropMulticast = GetBool config ''tun.drop_multicast'' False,
                 UDPBatchSize = GetInt config ''listen.batch'' 64\<rparr>)))"

text \<open>Lines 348 to 355: the cipher decides the byte order of the nonce.\<close>

definition selectCipher :: "string \<Rightarrow> unit M" where
  "selectCipher cipher =
     (if cipher = ''aes'' then setNoiseEndianness BigEndian
      else if cipher = ''chachapoly'' then setNoiseEndianness LittleEndian
      else emit (Log Error (''Unknown cipher: '' @ cipher)))"

text \<open>Lines 357 to 377: the interface, the statistics, the end of a config test.\<close>

definition startInterface ::
  "World \<Rightarrow> Config \<Rightarrow> bool \<Rightarrow> InterfaceConfig \<Rightarrow> HandshakeManager \<Rightarrow> LightHouse
     \<Rightarrow> Interface option M" where
  "startInterface w config configTest ifConfig handshakeManager lh =
     bind (if \<not> configTest then
             seq (emit (EvNewInterface ifConfig))
            (bind (orReturn ''failed to initialize interface: '' (NewInterface w ifConfig)) (\<lambda>ifce.
             seq (emit (RegisterConfigChangeCallbacks ifce))
            (seq (emit (Go (HandshakeManagerRun handshakeManager ifce)))
            (seq (emit (Go (LhUpdateWorker lh ifce)))
                 (ret (Some ifce))))))
           else ret None) (\<lambda>ifce.
     seq (emit (EvStartStats configTest))
    (seq (case startStats w config configTest of
            Some err \<Rightarrow> emit (Log Error ''Failed to start stats emitter'')
          | None \<Rightarrow> ret ())
    (if configTest then stop (Exited 0) else ret ifce)))"

text \<open>
  Lines 379 to 398: the interface runs; \<open>Main\<close> waits in \<open>shutdownBlock\<close> or leaves it to
  a goroutine, and returns \<open>nil\<close>. A method of a \<open>nil\<close> interface would dereference it.
  \<open>killChan\<close> is fed by the goroutine that reads \<open>commandChan\<close>.
\<close>

definition runInterface ::
  "World \<Rightarrow> Config \<Rightarrow> bool \<Rightarrow> string \<Rightarrow> CommandRequest list option \<Rightarrow> Interface option
     \<Rightarrow> SSHServer \<Rightarrow> HostMap \<Rightarrow> HandshakeManager \<Rightarrow> LightHouse \<Rightarrow> int \<Rightarrow> bool \<Rightarrow> bool
     \<Rightarrow> unit M" where
  "runInterface w config block buildVersion commandChan ifce' ssh hostMap handshakeManager lh
       udpQueues amLighthouse serveDns =
     (case ifce' of
        None \<Rightarrow> stop Panicked
      | Some ifce \<Rightarrow>
          seq (emit (Go (EmitStats ifce (GetDuration config ''stats.interval'' (10 * 1000000000)))))
         (seq (emit (AttachCommands ssh hostMap handshakeManager lh ifce))
         (seq (emit (InterfaceRun ifce (GetInt config ''tun.routines'' 1) udpQueues buildVersion))
         (seq (whenever (amLighthouse \<and> serveDns)
                 (seq (emit (Log Debug ''Starting dns server''))
                      (emit (Go (DnsMain hostMap)))))
         (seq (if block then shutdownBlock (Hosts w ifce) (selectReceives w commandChan)
               else emit (Go (ShutdownBlock ifce)))
              (stop (Returned None)))))))"

subsection \<open>\<open>Main\<close> (lines 27 to 399)\<close>

text \<open>
  \<open>commandChan\<close> is \<open>None\<close> for a \<open>nil\<close> channel, else the commands that will arrive on it.
  The result is the outcome of the call together with the final state.
\<close>

definition Main ::
  "World \<Rightarrow> Config \<Rightarrow> bool \<Rightarrow> bool \<Rightarrow> string \<Rightarrow> string \<Rightarrow> int option
     \<Rightarrow> CommandRequest list option \<Rightarrow> unit M" where
  "Main w config configTest block buildVersion logFile tunFd commandChan =
     seq (setupLogger w config configTest logFile)
    (bind (loadCerts w config) (\<lambda>(cs, fw, tunCidr, routes, unsafeRoutes, ssh).
     bind (openDevices w config configTest tunFd tunCidr routes unsafeRoutes)
       (\<lambda>(tun, udpQueues, udpServer).
     seq (startCommandLoop commandChan udpServer)
    (bind (parsePreferredRanges w config) (\<lambda>preferredRanges.
     bind (newMainHostMap w config configTest tunCidr preferredRanges unsafeRoutes udpServer)
       (\<lambda>(hostMap, punchy).
     bind (discoverPort w config configTest udpServer) (\<lambda>port.
     bind (parseLighthouseHosts w config tunCidr) (\<lambda>(amLighthouse, lighthouseHosts).
     bind (newLightHouse w config amLighthouse tunCidr lighthouseHosts port udpServer punchy)
       (\<lambda>lh.
     seq (loadStaticHostMap w config tunCidr lh)
    (bind (newInterfaceConfig w config tunCidr preferredRanges hostMap lh tun udpServer
             cs fw) (\<lambda>(handshakeManager, ifConfig).
     seq (selectCipher (Cipher ifConfig))
    (bind (startInterface w config configTest ifConfig handshakeManager lh) (\<lambda>ifce.
     runInterface w config block buildVersion commandChan ifce ssh hostMap handshakeManager lh
       udpQueues amLighthouse (ServeDns ifConfig))))))))))))))"

text \<open>A run of \<open>Main\<close> starts with an empty record of events.\<close>

definition start :: "ByteOrder \<Rightarrow> CAPool option \<Rightarrow> state" where
  "start e cas = \<lparr>noiseEndianness = e, trustedCAs = cas, events = []\<rparr>"

subsection \<open>The goroutines of \<open>main.go\<close>\<close>

text \<open>
  Two of the goroutines that \<open>Main\<close> starts have their code in \<open>main.go\<close>: the command
  loop (line 153) and, when \<open>Main\<close> is not to block, \<open>shutdownBlock\<close> (line 396). They meet
  on \<open>killChan\<close>, and each has a record of events of its own.

  \<open>shutdownBlock\<close> is under way in a run of \<open>Main\<close> when \<open>Main\<close> has called it (its first
  statement is \<open>signal.Notify\<close>) or has started it as a goroutine. Its \<open>select\<close> is the
  receiver of \<open>killChan\<close> when it takes no signal.
\<close>

fun startsShutdown :: "event \<Rightarrow> bool" where
  "startsShutdown (SignalNotify sig) = True"
| "startsShutdown (Go (ShutdownBlock ifce)) = True"
| "startsShutdown _ = False"





section \<open>Notions for the proofs\<close>

subsection \<open>Triples and frames\<close>

text \<open>
  \<open>hoare P m Q E\<close>: from a state with \<open>P\<close>, the computation \<open>m\<close> either returns a
  value \<open>x\<close> in a state with \<open>Q x\<close>, or stops with an outcome \<open>out\<close> in a state with
  \<open>E out\<close>.
\<close>

definition hoare ::
  "(state \<Rightarrow> bool) \<Rightarrow> 'a M \<Rightarrow> ('a \<Rightarrow> state \<Rightarrow> bool) \<Rightarrow> (outcome \<Rightarrow> state \<Rightarrow> bool) \<Rightarrow> bool" where
  "hoare P m Q E = (\<forall>s. P s \<longrightarrow> (case m s of (Inl out, s') \<Rightarrow> E out s' | (Inr x, s') \<Rightarrow> Q x s'))"

text \<open>
  \<open>emits S Z m\<close>: \<open>m\<close> only appends events, all of them in \<open>S\<close>, leaves \<open>noiseEndianness\<close>
  alone, and stops early with an outcome of \<open>Z\<close> only.
\<close>

definition emits :: "event set \<Rightarrow> outcome set \<Rightarrow> 'a M \<Rightarrow> bool" where
  "emits S Z m = (\<forall>s. (\<exists>es. events (snd (m s)) = events s @ es \<and> set es \<subseteq> S \<and>
      noiseEndianness (snd (m s)) = noiseEndianness s) \<and>
      (\<forall>out. fst (m s) = Inl out \<longrightarrow> out \<in> Z))"

subsection \<open>Kinds of events and outcomes\<close>

text \<open>
  The calls that the claims speak about: opening a device, creating the host map, the
  lighthouse or the interface, starting the statistics, adding a static remote, what
  \<open>shutdownBlock\<close> and the command loop do. Every other event is \<open>quiet\<close>. \<open>opens\<close> holds of
  the calls that open the TUN device or the UDP listener.
\<close>

fun quiet :: "event \<Rightarrow> bool" where
  "quiet (EvNewTunFromFd fd cidr m r u q) = False"
| "quiet (EvNewTun dev cidr m r u q) = False"
| "quiet (EvNewListener h p r) = False"
| "quiet (EvNewHostMap hm) = False"
| "quiet (EvNewLightHouse lh) = False"
| "quiet (EvNewInterface ic) = False"
| "quiet (EvStartStats t) = False"
| "quiet (AddRemote lh ip a st) = False"
| "quiet (SignalNotify sig) = False"
| "quiet HostMapLock = False"
| "quiet HostMapUnlock = False"
| "quiet (SendCloseTunnel h) = False"
| "quiet (CallbackSend cb) = False"
| "quiet (Rebind u) = False"
| "quiet (KillChanSend cmd) = False"
| "quiet (Go (ShutdownBlock ifce)) = False"
| "quiet _ = True"

text \<open>
  The shutdown path proper, from the lock of the host map to the answer on the callback;
  and the events of startup, which are all but those of \<open>shutdownBlock\<close> and of the command
  loop.
\<close>

fun inShutdown :: "event \<Rightarrow> bool" where
  "inShutdown HostMapLock = True"
| "inShutdown HostMapUnlock = True"
| "inShutdown (SendCloseTunnel h) = True"
| "inShutdown (CallbackSend cb) = True"
| "inShutdown _ = False"



fun opens :: "event \<Rightarrow> bool" where
  "opens (EvNewTunFromFd fd cidr m r u q) = True"
| "opens (EvNewTun dev cidr m r u q) = True"
| "opens (EvNewListener h p r) = True"
| "opens _ = False"

text \<open>
  A startup failure is a returned error, a fatal log line (exit 1) or a panic;
  \<open>returnsError\<close> holds of the first kind only.
\<close>

fun startupFailure :: "outcome \<Rightarrow> bool" where
  "startupFailure (Returned r) = (r \<noteq> None)"
| "startupFailure (Exited n) = (n = 1)"
| "startupFailure Panicked = True"
| "startupFailure Blocked = False"

fun returnsError :: "outcome \<Rightarrow> bool" where
  "returnsError (Returned r) = (r \<noteq> None)"
| "returnsError _ = False"

subsection \<open>The values that \<open>Main\<close> computes on its way\<close>

text \<open>The listener that \<open>Main\<close> opens, from the three options it reads.\<close>

definition theListener :: "World \<Rightarrow> Config \<Rightarrow> string + udpConn" where
  "theListener w config =
     NewListener w (GetString config ''listen.host'' ''0.0.0.0'') (GetInt config ''listen.port'' 0)
       (GetInt config ''listen.routines'' 1 > 1)"

text \<open>
  The preferred ranges as the specification words them: the parsed entries of
  \<open>preferred_ranges\<close>, then the parsed \<open>local_range\<close> unless it is unset or an entry with
  the same string form is there already.
\<close>

definition spec_preferredRanges :: "World \<Rightarrow> Config \<Rightarrow> IPNet list" where
  "spec_preferredRanges w config =
     (let parsed = map (\<lambda>r. projr (ParseCIDR w r)) (GetStringSlice config ''preferred_ranges'' []);
          rawLocalRange = GetString config ''local_range'' []
      in if rawLocalRange = [] then parsed
         else if String w (projr (ParseCIDR w rawLocalRange)) \<in> String w ` set parsed then parsed
         else parsed @ [projr (ParseCIDR w rawLocalRange)])"

text \<open>Every entry of \<open>preferred_ranges\<close> parses, and so does \<open>local_range\<close> when it is set.\<close>

definition rangesParse :: "World \<Rightarrow> Config \<Rightarrow> bool" where
  "rangesParse w config \<longleftrightarrow>
     list_all (\<lambda>r. \<not> isl (ParseCIDR w r)) (GetStringSlice config ''preferred_ranges'' []) \<and>
     (GetString config ''local_range'' [] = [] \<or>
      \<not> isl (ParseCIDR w (GetString config ''local_range'' [])))"

text \<open>
  \<open>port\<close> is the port of line 258: the configured one, or outside a config test and
  with none configured, the one that the local address of the opened listener reports.
\<close>

definition portFact :: "World \<Rightarrow> Config \<Rightarrow> bool \<Rightarrow> int \<Rightarrow> bool" where
  "portFact w config configTest port \<longleftrightarrow>
     (if GetInt config ''listen.port'' 0 = 0 \<and> \<not> configTest
      then \<exists>u a. theListener w config = Inr u \<and> LocalAddr w u = Inr a \<and> port = uint (addrPort a)
      else port = GetInt config ''listen.port'' 0)"

text \<open>The lighthouse role and the upstream hosts as lines 232 to 250 read them.\<close>

definition hostsFact :: "World \<Rightarrow> Config \<Rightarrow> bool \<Rightarrow> 32 word list \<Rightarrow> bool" where
  "hostsFact w config amLighthouse lighthouseHosts \<longleftrightarrow>
     amLighthouse = GetBool config ''lighthouse.am_lighthouse'' False \<and>
     lighthouseHosts = map (\<lambda>host. ip2int w (ParseIP w host))
                         (GetStringSlice config ''lighthouse.hosts'' [])"


subsection \<open>The stages of a run\<close>

text \<open>
  What holds of every event in the record of a run of \<open>Main\<close> with a given
  configuration: devices are opened and the interface is created outside a config test
  only, the host map gets the merged preferred ranges, the lighthouse its role, hosts
  and port.
\<close>

fun wf_event :: "World \<Rightarrow> Config \<Rightarrow> bool \<Rightarrow> event \<Rightarrow> bool" where
  "wf_event w c ct (EvNewTunFromFd fd cidr m r u q) = (\<not> ct)"
| "wf_event w c ct (EvNewTun dev cidr m r u q) = (\<not> ct)"
| "wf_event w c ct (EvNewListener h p r) = (\<not> ct)"
| "wf_event w c ct (EvNewHostMap hm) =
     (rangesParse w c \<and> (\<exists>t. hm = NewHostMap ''main'' t (spec_preferredRanges w c)))"
| "wf_event w c ct (EvNewLightHouse lh) =
     (hostsFact w c (lhAmLighthouse lh) (lhHosts lh) \<and> portFact w c ct (lhPort lh))"
| "wf_event w c ct (EvNewInterface ic) = (\<not> ct)"
| "wf_event w c ct (EvStartStats t) = (t = ct)"
| "wf_event w c ct _ = True"

fun isNewLightHouse :: "event \<Rightarrow> bool" where
  "isNewLightHouse (EvNewLightHouse lh) = True"
| "isNewLightHouse _ = False"

text \<open>
  The two calls that follow the switch on the cipher: \<open>NewInterface\<close> outside a config
  test, \<open>startStats\<close> in one. A run is past the switch exactly when its record holds one.
\<close>

fun pastCipherSwitch :: "event \<Rightarrow> bool" where
  "pastCipherSwitch (EvNewInterface ic) = True"
| "pastCipherSwitch (EvStartStats t) = True"
| "pastCipherSwitch _ = False"

text \<open>The configuration has been printed (in a config test); the warning has been logged.\<close>

definition printed :: "World \<Rightarrow> Config \<Rightarrow> bool \<Rightarrow> event list \<Rightarrow> bool" where
  "printed w c ct es \<longleftrightarrow>
     (ct \<longrightarrow> (\<forall>b. yamlMarshal w (Settings c) = Inr b \<longrightarrow> Println b \<in> set es))"

definition warned :: "Config \<Rightarrow> event list \<Rightarrow> bool" where
  "warned c es \<longleftrightarrow>
     (GetBool c ''lighthouse.am_lighthouse'' False \<and> GetStringSlice c ''lighthouse.hosts'' [] \<noteq> []
      \<longrightarrow> Log Warn
            ''lighthouse.am_lighthouse enabled on node but upstream lighthouses exist in config''
          \<in> set es)"

text \<open>The byte order after the switch, \<open>e0\<close> being the one before.\<close>

definition selected :: "Config \<Rightarrow> ByteOrder \<Rightarrow> ByteOrder" where
  "selected c e0 =
     (if GetString c ''cipher'' ''aes'' = ''aes'' then BigEndian
      else if GetString c ''cipher'' ''aes'' = ''chachapoly'' then LittleEndian
      else e0)"

text \<open>
  The record of events from the logger to the lighthouse hosts, from there to the cipher,
  and after it; \<open>endOfRun\<close> is what holds when \<open>Main\<close> stops, wherever it does.
\<close>

definition untilLighthouse :: "World \<Rightarrow> Config \<Rightarrow> bool \<Rightarrow> event list \<Rightarrow> bool" where
  "untilLighthouse w c ct es \<longleftrightarrow>
     list_all (wf_event w c ct) es \<and> \<not> list_ex isNewLightHouse es \<and>
     \<not> list_ex pastCipherSwitch es \<and> printed w c ct es"

definition untilCipher :: "World \<Rightarrow> Config \<Rightarrow> bool \<Rightarrow> event list \<Rightarrow> bool" where
  "untilCipher w c ct es \<longleftrightarrow> list_all (wf_event w c ct) es \<and> \<not> list_ex pastCipherSwitch es \<and>
     printed w c ct es \<and> warned c es"

definition sinceLighthouse :: "World \<Rightarrow> Config \<Rightarrow> bool \<Rightarrow> event list \<Rightarrow> bool" where
  "sinceLighthouse w c ct es \<longleftrightarrow> list_all (wf_event w c ct) es \<and> printed w c ct es \<and> warned c es"

definition endOfRun :: "World \<Rightarrow> Config \<Rightarrow> bool \<Rightarrow> ByteOrder \<Rightarrow> outcome \<Rightarrow> state \<Rightarrow> bool" where
  "endOfRun w c ct e0 out s \<longleftrightarrow>
     list_all (wf_event w c ct) (events s) \<and>
     (if list_ex pastCipherSwitch (events s)
      then noiseEndianness s = selected c e0 \<and> printed w c ct (events s) \<and> warned c (events s) \<and>
           (ct \<longleftrightarrow> out = Exited 0) \<and> out \<noteq> Exited 1
      else noiseEndianness s = e0 \<and> startupFailure out \<and>
           (list_ex isNewLightHouse (events s) \<longrightarrow> printed w c ct (events s) \<and> warned c (events s)))"

text \<open>The listener variable after lines 138 to 148.\<close>

definition udpFact :: "World \<Rightarrow> Config \<Rightarrow> bool \<Rightarrow> int \<Rightarrow> udpConn option \<Rightarrow> bool" where
  "udpFact w c ct udpQueues udpServer \<longleftrightarrow>
     udpQueues = GetInt c ''listen.routines'' 1 \<and>
     (if ct then udpServer = None else \<exists>u. udpServer = Some u \<and> theListener w c = Inr u)"

subsection \<open>A valid configuration\<close>

text \<open>
  An address of the static host map that \<open>Main\<close> gets through: it has a port part, or
  its host does not resolve (then the entry is skipped before \<open>parts[1]\<close> is read). An
  entry is fine when its key lies in the subnet and its addresses are.
\<close>

definition staticAddrOk :: "World \<Rightarrow> string \<Rightarrow> bool" where
  "staticAddrOk w v \<longleftrightarrow>
     (case Split v (CHR '':'') of
        [] \<Rightarrow> False
      | part0 # parts \<Rightarrow> isl (ResolveIPAddr w part0) \<or> parts \<noteq> [])"

definition staticEntryOk :: "World \<Rightarrow> IPNet \<Rightarrow> string \<times> static_value \<Rightarrow> bool" where
  "staticEntryOk w tunCidr kv \<longleftrightarrow>
     Contains w tunCidr (ParseIP w (fst kv)) \<and>
     (case snd kv of
        Sequence vals \<Rightarrow> list_all (staticAddrOk w) vals
      | Scalar x \<Rightarrow> staticAddrOk w x)"

text \<open>
  Every check that \<open>Main\<close> makes in a config test comes through: the log file opens,
  the settings marshal, logger, CA, certificate (with an address), firewall, routes and
  sshd load, the ranges parse, the lighthouse hosts and the keys of the static host map
  lie in the subnet, the allow lists are valid.
\<close>

definition validConfigTest :: "World \<Rightarrow> Config \<Rightarrow> string \<Rightarrow> bool" where
  "validConfigTest w c logFile \<longleftrightarrow>
     (logFile = [] \<or> OpenFile w logFile = None) \<and>
     \<not> isl (yamlMarshal w (Settings c)) \<and>
     configLogger w c = None \<and>
     \<not> isl (loadCAFromConfig w c) \<and>
     (case NewCertStateFromConfig w c of
        Inl err \<Rightarrow> False
      | Inr cs \<Rightarrow>
          \<not> isl (NewFirewallFromConfig w (certificate cs) c) \<and>
          (case Ips (certificate cs) of
             [] \<Rightarrow> False
           | tunCidr # _ \<Rightarrow>
               \<not> isl (parseRoutes w c tunCidr) \<and>
               \<not> isl (parseUnsafeRoutes w c tunCidr) \<and>
               (GetBool c ''sshd.enabled'' False \<longrightarrow> configSSH w (NewSSHServer w) c = None) \<and>
               rangesParse w c \<and>
               list_all (\<lambda>host. Contains w tunCidr (ParseIP w host))
                 (GetStringSlice c ''lighthouse.hosts'' []) \<and>
               \<not> isl (GetAllowList c ''lighthouse.remote_allow_list'' False) \<and>
               \<not> isl (GetAllowList c ''lighthouse.local_allow_list'' True) \<and>
               list_all (staticEntryOk w tunCidr) (GetMap c ''static_host_map'' [])))"

subsection \<open>An example node\<close>

text \<open>
  A configuration and a world to run \<open>Main\<close> on: node 10.0.0.2/24, itself a lighthouse
  with the upstream lighthouse 10.0.0.1, which is also in the static host map. The
  cipher, the address in the static host map and \<open>local_range\<close> are left open. The calls
  of the world are tables of what they return on the strings of this configuration.
\<close>

definition example_config :: "string \<Rightarrow> string \<Rightarrow> string \<Rightarrow> Config" where
  "example_config cipher staticAddr localRange =
     \<lparr>Settings = [(''cipher'', cipher)],
      GetString = (\<lambda>k d. if k = ''cipher'' then cipher
                          else if k = ''local_range'' then localRange else d),
      GetInt = (\<lambda>k d. d),
      GetBool = (\<lambda>k d. if k = ''lighthouse.am_lighthouse'' then True else d),
      GetDuration = (\<lambda>k d. d),
      GetStringSlice = (\<lambda>k d. if k = ''preferred_ranges'' then [''192.168.0.0/16'']
                               else if k = ''lighthouse.hosts'' then [''10.0.0.1''] else d),
      GetMap = (\<lambda>k d. if k = ''static_host_map''
                       then [(''10.0.0.1'', Sequence [staticAddr])] else d),
      GetAllowList = (\<lambda>k inside. Inr (AllowList []))\<rparr>"

definition example_hosts :: "(32 word \<times> HostInfo) list" where
  "example_hosts =
     [(1, \<lparr>hostId = 1, remote = None, ConnectionState = Some \<lparr>ready = True\<rparr>\<rparr>),
      (2, \<lparr>hostId = 2, remote = None, ConnectionState = Some \<lparr>ready = False\<rparr>\<rparr>)]"

text \<open>Three hosts, the second without a connection state.\<close>

definition example_hosts_nil :: "(32 word \<times> HostInfo) list" where
  "example_hosts_nil =
     [(1, \<lparr>hostId = 1, remote = None, ConnectionState = Some \<lparr>ready = True\<rparr>\<rparr>),
      (2, \<lparr>hostId = 2, remote = None, ConnectionState = None\<rparr>),
      (3, \<lparr>hostId = 3, remote = Some (NewUDPAddr 9 4242),
           ConnectionState = Some \<lparr>ready = True\<rparr>\<rparr>)]"

definition example_world :: World where
  "example_world =
     \<lparr>OpenFile = (\<lambda>name. None),
      yamlMarshal = (\<lambda>settings. Inr (concat (map (\<lambda>(k, v). k @ '': '' @ v) settings))),
      configLogger = (\<lambda>c. None),
      loadCAFromConfig = (\<lambda>c. Inr (CAPool [''fingerprint''])),
      NewCertStateFromConfig =
        (\<lambda>c. Inr (CertState (NebulaCertificate [IPNet [10, 0, 0, 2] [255, 255, 255, 0]]))),
      NewFirewallFromConfig = (\<lambda>cert c. Inr (NewFirewall ''hash'')),
      parseRoutes = (\<lambda>c cidr. Inr []),
      parseUnsafeRoutes = (\<lambda>c cidr. Inr []),
      NewSSHServer = SSHServer 0,
      configSSH = (\<lambda>ssh c. None),
      newTunFromFd = (\<lambda>fd cidr m routes unsafeRoutes q. Inr (Tun 0)),
      newTun = (\<lambda>dev cidr m routes unsafeRoutes q. Inr (Tun 0)),
      NewListener = (\<lambda>host port multi. Inr (UdpConn 0)),
      LocalAddr = (\<lambda>u. Inr (NewUDPAddr 0 51820)),
      ParseCIDR = (\<lambda>raw. if raw = ''192.168.0.0/16''
                          then Inr (IPNet [192, 168, 0, 0] [255, 255, 0, 0])
                          else if raw = ''10.1.0.0/16''
                          then Inr (IPNet [10, 1, 0, 0] [255, 255, 0, 0])
                          else Inl ''invalid CIDR address''),
      String = (\<lambda>n. if n = IPNet [192, 168, 0, 0] [255, 255, 0, 0] then ''192.168.0.0/16''
                      else if n = IPNet [10, 1, 0, 0] [255, 255, 0, 0] then ''10.1.0.0/16''
                      else ''10.0.0.0/24''),
      ParseIP = (\<lambda>raw. if raw = ''10.0.0.1'' then [10, 0, 0, 1]
                        else if raw = ''10.9.0.1'' then [10, 9, 0, 1]
                        else if raw = ''0.0.0.0'' then [0, 0, 0, 0] else []),
      Contains = (\<lambda>n ip. length ip = 4 \<and> take 3 ip = take 3 (netIP n)),
      ip2int = (\<lambda>ip. if ip = [10, 0, 0, 1] then 167772161
                       else if ip = [10, 0, 0, 2] then 167772162
                       else if ip = [203, 0, 113, 1] then 3405803777 else 0),
      NewPunchyFromConfig = (\<lambda>c. \<lparr>Punch = True, Respond = False, Delay = 1000000000\<rparr>),
      ResolveIPAddr = (\<lambda>host. if host = ''203.0.113.1'' then Inr [203, 0, 113, 1]
                              else Inl ''no such host''),
      Atoi = (\<lambda>a. if a = ''4242'' then (4242, None)
                    else (0, Some ''invalid syntax'')),
      ValidateLHStaticEntries = (\<lambda>lh. None),
      NewInterface = (\<lambda>ic. Inr (Interface 0)),
      startStats = (\<lambda>c t. None),
      DEFAULT_MTU = 1300,
      DefaultHandshakeTryInterval = 100000000,
      DefaultHandshakeRetries = 20,
      DefaultHandshakeWaitRotation = 5,
      signal = None,
      Hosts = (\<lambda>ifce. example_hosts)\<rparr>"

definition example_lightHouse :: LightHouse where
  "example_lightHouse =
     NewLightHouse True 167772162 [167772161] 10 51820 (Some (UdpConn 0)) False 1000000000"

subsection \<open>Startup up to the devices\<close>

text \<open>The identity of the node has loaded: lines 65 to 104 came through.\<close>

definition identityLoaded :: "World \<Rightarrow> Config \<Rightarrow> CertState \<Rightarrow> IPNet \<Rightarrow> bool" where
  "identityLoaded w c cs tunCidr \<longleftrightarrow>
     \<not> isl (loadCAFromConfig w c) \<and>
     NewCertStateFromConfig w c = Inr cs \<and>
     \<not> isl (NewFirewallFromConfig w (certificate cs) c) \<and>
     (\<exists>more. Ips (certificate cs) = tunCidr # more) \<and>
     \<not> isl (parseRoutes w c tunCidr) \<and>
     \<not> isl (parseUnsafeRoutes w c tunCidr) \<and>
     (GetBool c ''sshd.enabled'' False \<longrightarrow> configSSH w (NewSSHServer w) c = None)"

text \<open>The call that opens the TUN device, from a file descriptor or by name.\<close>

definition theTun :: "World \<Rightarrow> Config \<Rightarrow> int option \<Rightarrow> IPNet \<Rightarrow> string + Tun" where
  "theTun w c tunFd tunCidr =
     (case tunFd of
        Some fd \<Rightarrow> newTunFromFd w fd tunCidr (GetInt c ''tun.mtu'' (DEFAULT_MTU w))
                     (projr (parseRoutes w c tunCidr)) (projr (parseUnsafeRoutes w c tunCidr))
                     (GetInt c ''tun.tx_queue'' 500)
      | None \<Rightarrow> newTun w (GetString c ''tun.dev'' []) tunCidr (GetInt c ''tun.mtu'' (DEFAULT_MTU w))
                   (projr (parseRoutes w c tunCidr)) (projr (parseUnsafeRoutes w c tunCidr))
                   (GetInt c ''tun.tx_queue'' 500))"

subsection \<open>A startup that comes through\<close>

text \<open>
  The values that \<open>Main\<close> computes outside a config test when no step fails: the
  certificate and its first address, the port that the lighthouse gets (line 222 to 230),
  the lighthouse (line 252), the main host map (line 205), the handshake manager
  (line 322), the interface configuration (line 331) and the interface (line 359).
\<close>

definition theCert :: "World \<Rightarrow> Config \<Rightarrow> CertState" where
  "theCert w c = projr (NewCertStateFromConfig w c)"

definition theCidr :: "World \<Rightarrow> Config \<Rightarrow> IPNet" where
  "theCidr w c = hd (Ips (certificate (theCert w c)))"

definition thePort :: "World \<Rightarrow> Config \<Rightarrow> int" where
  "thePort w c =
     (if GetInt c ''listen.port'' 0 = 0
      then uint (addrPort (projr (LocalAddr w (projr (theListener w c)))))
      else GetInt c ''listen.port'' 0)"

definition theLightHouse :: "World \<Rightarrow> Config \<Rightarrow> LightHouse" where
  "theLightHouse w c =
     NewLightHouse (GetBool c ''lighthouse.am_lighthouse'' False) (ip2int w (netIP (theCidr w c)))
       (map (\<lambda>host. ip2int w (ParseIP w host)) (GetStringSlice c ''lighthouse.hosts'' []))
       (GetInt c ''lighthouse.interval'' 10) (thePort w c) (Some (projr (theListener w c)))
       (Respond (NewPunchyFromConfig w c)) (Delay (NewPunchyFromConfig w c))"

definition theHostMap :: "World \<Rightarrow> Config \<Rightarrow> HostMap" where
  "theHostMap w c = NewHostMap ''main'' (theCidr w c) (spec_preferredRanges w c)"

definition theHandshakeManager :: "World \<Rightarrow> Config \<Rightarrow> HandshakeManager" where
  "theHandshakeManager w c =
     NewHandshakeManager (theCidr w c) (spec_preferredRanges w c) (theHostMap w c)
       (theLightHouse w c) (Some (projr (theListener w c)))
       \<lparr>tryInterval = GetDuration c ''handshakes.try_interval'' (DefaultHandshakeTryInterval w),
        retries = GetInt c ''handshakes.retries'' (DefaultHandshakeRetries w),
        waitRotation = GetInt c ''handshakes.wait_rotation'' (DefaultHandshakeWaitRotation w)\<rparr>"

definition theInterfaceConfig :: "World \<Rightarrow> Config \<Rightarrow> int option \<Rightarrow> InterfaceConfig" where
  "theInterfaceConfig w c tunFd =
     \<lparr>HostMap = theHostMap w c,
      Inside = Some (projr (theTun w c tunFd (theCidr w c))),
      Outside = Some (projr (theListener w c)),
      certState = theCert w c,
      Cipher = GetString c ''cipher'' ''aes'',
      Firewall = projr (NewFirewallFromConfig w (certificate (theCert w c)) c),
      ServeDns = GetBool c ''lighthouse.serve_dns'' False,
      HandshakeManager = theHandshakeManager w c,
      lightHouse = theLightHouse w c,
      checkInterval = GetInt c ''timers.connection_alive_interval'' 5,
      pendingDeletionInterval = GetInt c ''timers.pending_deletion_interval'' 10,
      DropLocalBroadcast = GetBool c ''tun.drop_local_broadcast'' False,
      DropMulticast = GetBool c ''tun.drop_multicast'' False,
      UDPBatchSize = GetInt c ''listen.batch'' 64\<rparr>"

definition theInterface :: "World \<Rightarrow> Config \<Rightarrow> int option \<Rightarrow> Interface" where
  "theInterface w c tunFd = projr (NewInterface w (theInterfaceConfig w c tunFd))"

text \<open>
  Outside a config test, startup comes through as far as the lighthouse (line 252): the
  log file opens, logger, CA, certificate (with an address), firewall, routes and sshd
  load, the TUN device and the UDP listener open, the ranges parse, the listener tells its
  local address when no port is configured, and the lighthouse hosts lie in the subnet.
\<close>

definition reachesLighthouse :: "World \<Rightarrow> Config \<Rightarrow> string \<Rightarrow> int option \<Rightarrow> bool" where
  "reachesLighthouse w c logFile tunFd \<longleftrightarrow>
     (logFile = [] \<or> OpenFile w logFile = None) \<and>
     configLogger w c = None \<and>
     \<not> isl (loadCAFromConfig w c) \<and>
     (case NewCertStateFromConfig w c of
        Inl err \<Rightarrow> False
      | Inr cs \<Rightarrow>
          \<not> isl (NewFirewallFromConfig w (certificate cs) c) \<and>
          (case Ips (certificate cs) of
             [] \<Rightarrow> False
           | tunCidr # _ \<Rightarrow>
               \<not> isl (parseRoutes w c tunCidr) \<and>
               \<not> isl (parseUnsafeRoutes w c tunCidr) \<and>
               (GetBool c ''sshd.enabled'' False \<longrightarrow> configSSH w (NewSSHServer w) c = None) \<and>
               \<not> isl (theTun w c tunFd tunCidr) \<and>
               (case theListener w c of
                  Inl err \<Rightarrow> False
                | Inr u \<Rightarrow> GetInt c ''listen.port'' 0 = 0 \<longrightarrow> \<not> isl (LocalAddr w u)) \<and>
               rangesParse w c \<and>
               list_all (\<lambda>host. Contains w tunCidr (ParseIP w host))
                 (GetStringSlice c ''lighthouse.hosts'' [])))"

text \<open>
  Startup comes through altogether: besides, the allow lists are valid, the entries of the
  static host map are fine, and the interface initialises.
\<close>

definition validStartup :: "World \<Rightarrow> Config \<Rightarrow> string \<Rightarrow> int option \<Rightarrow> bool" where
  "validStartup w c logFile tunFd \<longleftrightarrow>
     reachesLighthouse w c logFile tunFd \<and>
     \<not> isl (GetAllowList c ''lighthouse.remote_allow_list'' False) \<and>
     \<not> isl (GetAllowList c ''lighthouse.local_allow_list'' True) \<and>
     list_all (staticEntryOk w (theCidr w c)) (GetMap c ''static_host_map'' []) \<and>
     \<not> isl (NewInterface w (theInterfaceConfig w c tunFd))"

text \<open>\<open>appends m\<close>: the computation \<open>m\<close> only adds to the record of events.\<close>

definition appends :: "'a M \<Rightarrow> bool" where
  "appends m \<longleftrightarrow> (\<forall>s. \<exists>es. events (snd (m s)) = events s @ es)"

section \<open>Properties\<close>

subsection \<open>The monad\<close>

lemma bind_ret [simp]: "bind (ret x) f = f x"
  by (rule ext) (simp add: bind_def ret_def)

lemma bind_stop [simp]: "bind (stop out) f = stop out"
  by (rule ext) (simp add: bind_def stop_def)

lemma seq_ret [simp]: "seq (ret x) k = k"
  by (simp add: seq_def)

lemma seq_stop [simp]: "seq (stop out) k = stop out"
  by (simp add: seq_def)


lemmas M_defs = seq_def bind_def emit_def ret_def stop_def returnErrorf_def fatal_def
  orReturn_def setTrustedCAs_def setNoiseEndianness_def

lemma whenever_simps [simp]: "whenever True m = m" "whenever False m = ret ()"
  by (simp_all add: whenever_def)

subsection \<open>Shutdown and commands\<close>





lemma shutdownBlock_None:
  "shutdownBlock hosts None s =
     (Inl Blocked, s\<lparr>events := events s @ [SignalNotify ''SIGTERM'', SignalNotify ''SIGINT'']\<rparr>)"
  by (simp add: shutdownBlock_def M_defs)



subsection \<open>A Hoare logic for the sections of \<open>Main\<close>\<close>

lemma hoare_bind:
  assumes "hoare P m R E" and "\<And>x. hoare (R x) (f x) Q E"
  shows "hoare P (bind m f) Q E"
  using assms unfolding hoare_def bind_def
  by (fastforce split: prod.splits sum.splits)

lemma hoare_seq:
  assumes "hoare P m (\<lambda>_. R) E" and "hoare R k Q E"
  shows "hoare P (seq m k) Q E"
  unfolding seq_def using assms by (auto intro: hoare_bind)

lemma hoare_weaken:
  assumes "hoare P' m Q' E'" and "\<And>s. P s \<Longrightarrow> P' s" and "\<And>x s. Q' x s \<Longrightarrow> Q x s"
    and "\<And>out s. E' out s \<Longrightarrow> E out s"
  shows "hoare P m Q E"
  using assms unfolding hoare_def
  by (fastforce split: prod.splits sum.splits)

lemma hoare_value:
  assumes "hoare P m Q E" and "\<And>s x. fst (m s) = Inr x \<Longrightarrow> R x"
  shows "hoare P m (\<lambda>x s. Q x s \<and> R x) E"
  unfolding hoare_def
proof (intro allI impI)
  fix s :: state
  assume p: "P s"
  obtain r s1 where m: "m s = (r, s1)" by (cases "m s")
  show "case m s of (Inl out, s') \<Rightarrow> E out s' | (Inr x, s') \<Rightarrow> Q x s' \<and> R x"
  proof (cases r)
    case (Inl out)
    then show ?thesis using assms(1) p m unfolding hoare_def by fastforce
  next
    case (Inr x)
    have "R x" using assms(2) [of s x] m Inr by simp
    moreover have "Q x s1" using assms(1) p m Inr unfolding hoare_def by fastforce
    ultimately show ?thesis using m Inr by simp
  qed
qed

lemma emits_ret [intro!, simp]: "emits S Z (ret x)"
  by (simp add: emits_def ret_def)

lemma emits_stop [intro!]: "out \<in> Z \<Longrightarrow> emits S Z (stop out)"
  by (simp add: emits_def stop_def)

lemma emits_emit [intro!]: "e \<in> S \<Longrightarrow> emits S Z (emit e)"
  by (simp add: emits_def emit_def)

lemma emits_setTrustedCAs [intro!, simp]: "emits S Z (setTrustedCAs v)"
  by (simp add: emits_def setTrustedCAs_def)

lemma emits_bind [intro!]:
  assumes "emits S Z m" and "\<And>x. emits S Z (f x)"
  shows "emits S Z (bind m f)"
  unfolding emits_def
proof (intro allI conjI impI)
  fix s :: state
  obtain r s1 where m: "m s = (r, s1)" by (cases "m s")
  from assms(1) m obtain es where es: "events s1 = events s @ es" "set es \<subseteq> S"
      "noiseEndianness s1 = noiseEndianness s"
    unfolding emits_def by (metis snd_conv)
  show "\<exists>es. events (snd (bind m f s)) = events s @ es \<and> set es \<subseteq> S \<and>
      noiseEndianness (snd (bind m f s)) = noiseEndianness s"
  proof (cases r)
    case (Inl out)
    then show ?thesis using m es by (auto simp: bind_def)
  next
    case (Inr x)
    from assms(2) [of x] obtain es' where es': "events (snd (f x s1)) = events s1 @ es'"
        "set es' \<subseteq> S" "noiseEndianness (snd (f x s1)) = noiseEndianness s1"
      unfolding emits_def by blast
    have "events (snd (f x s1)) = events s @ (es @ es')" using es es' by simp
    moreover have "set (es @ es') \<subseteq> S" using es es' by simp
    ultimately show ?thesis using m Inr es es' unfolding bind_def by (simp; blast)
  qed
next
  fix s :: state and out
  assume a: "fst (bind m f s) = Inl out"
  obtain r s1 where m: "m s = (r, s1)" by (cases "m s")
  show "out \<in> Z"
  proof (cases r)
    case (Inl out')
    then show ?thesis using a m assms(1) unfolding emits_def bind_def
      by (metis (mono_tags, lifting) fst_conv old.prod.case old.sum.simps(5) sum.inject(1))
  next
    case (Inr x)
    then have "fst (f x s1) = Inl out" using a m by (simp add: bind_def)
    then show ?thesis using assms(2) [of x] unfolding emits_def by blast
  qed
qed

lemma emits_seq [intro!]: "emits S Z m \<Longrightarrow> emits S Z k \<Longrightarrow> emits S Z (seq m k)"
  unfolding seq_def by (rule emits_bind)

lemma emits_whenever [intro!]: "(b \<Longrightarrow> emits S Z m) \<Longrightarrow> emits S Z (whenever b m)"
  by (cases b) simp_all

lemma emits_returnErrorf [intro!]: "Returned (Some (p @ e)) \<in> Z \<Longrightarrow> emits S Z (returnErrorf p e)"
  unfolding returnErrorf_def by (rule emits_stop)

lemma emits_orReturn [intro!]:
  "(\<And>e. r = Inl e \<Longrightarrow> Returned (Some (p @ e)) \<in> Z) \<Longrightarrow> emits S Z (orReturn p r)"
  by (auto simp: orReturn_def split: sum.splits)

lemma emits_fatal [intro!]: "Log Fatal msg \<in> S \<Longrightarrow> Exited 1 \<in> Z \<Longrightarrow> emits S Z (fatal msg)"
  unfolding fatal_def by (rule emits_bind) auto

lemma emits_mono: "emits S Z m \<Longrightarrow> S \<subseteq> T \<Longrightarrow> Z \<subseteq> Z' \<Longrightarrow> emits T Z' m"
  unfolding emits_def by (meson subset_trans subsetD)

lemma hoare_emits:
  assumes "emits S Z m"
    and "\<And>es es'. F es \<Longrightarrow> set es' \<subseteq> S \<Longrightarrow> F (es @ es')"
  shows "hoare (\<lambda>s. F (events s) \<and> noiseEndianness s = e) m
           (\<lambda>_ s. F (events s) \<and> noiseEndianness s = e)
           (\<lambda>out s. F (events s) \<and> noiseEndianness s = e \<and> out \<in> Z)"
  unfolding hoare_def
proof (intro allI impI)
  fix s :: state
  assume pre: "F (events s) \<and> noiseEndianness s = e"
  obtain r s1 where m: "m s = (r, s1)" by (cases "m s")
  from assms(1) m obtain es where es: "events s1 = events s @ es" "set es \<subseteq> S"
      "noiseEndianness s1 = noiseEndianness s"
    unfolding emits_def by (metis snd_conv)
  have F: "F (events s1)" using assms(2) pre es by simp
  show "case m s of (Inl out, s') \<Rightarrow> F (events s') \<and> noiseEndianness s' = e \<and> out \<in> Z
        | (Inr x, s') \<Rightarrow> F (events s') \<and> noiseEndianness s' = e"
  proof (cases r)
    case (Inl out)
    then have "out \<in> Z" using assms(1) m unfolding emits_def by (metis fst_conv)
    then show ?thesis using m Inl F es pre by simp
  next
    case (Inr x)
    then show ?thesis using m F es pre by simp
  qed
qed

subsection \<open>What each section emits\<close>

lemma returnsError_failure: "returnsError out \<Longrightarrow> startupFailure out"
  by (cases out) simp_all

lemma emits_setupLogger:
  "emits (Collect quiet) (Collect returnsError) (setupLogger w config configTest logFile)"
  unfolding setupLogger_def by (auto split: option.splits sum.splits)

lemma emits_loadCerts:
  "emits (Collect quiet) {out. returnsError out \<or> out = Panicked} (loadCerts w config)"
  unfolding loadCerts_def Let_def by (auto split: option.splits sum.splits list.splits)

lemma emits_loadCerts_address:
  assumes "\<And>cs. NewCertStateFromConfig w config = Inr cs \<Longrightarrow> Ips (certificate cs) \<noteq> []"
  shows "emits (Collect quiet) (Collect returnsError) (loadCerts w config)"
proof (cases "NewCertStateFromConfig w config")
  case (Inl err)
  then show ?thesis
    unfolding loadCerts_def Let_def
    by (auto simp: orReturn_def returnErrorf_def split: sum.splits)
next
  case (Inr cs)
  with assms obtain tunCidr more where "Ips (certificate cs) = tunCidr # more"
    by (cases "Ips (certificate cs)") auto
  with Inr show ?thesis
    unfolding loadCerts_def Let_def
    by (auto simp: orReturn_def split: option.splits sum.splits)
qed

lemma emits_openDevices:
  "emits {e. quiet e \<or> (opens e \<and> \<not> configTest)} (Collect returnsError)
     (openDevices w config configTest tunFd tunCidr routes unsafeRoutes)"
  unfolding openDevices_def Let_def by (auto split: option.splits sum.splits list.splits)

lemma emits_startCommandLoop:
  "emits (Collect quiet) {} (startCommandLoop commandChan udpServer)"
  unfolding startCommandLoop_def by (auto split: option.splits)

lemma emits_parseRanges: "emits {} (Collect returnsError) (parseRanges w raws acc)"
  by (induction raws arbitrary: acc) (auto split: sum.splits)

lemma emits_parsePreferredRanges:
  "emits {} (Collect returnsError) (parsePreferredRanges w config)"
  unfolding parsePreferredRanges_def Let_def
  by (auto split: sum.splits intro: emits_parseRanges)

lemma emits_newMainHostMap:
  "emits {e. quiet e \<or> e = EvNewHostMap (NewHostMap ''main'' tunCidr preferredRanges)} {}
     (newMainHostMap w config configTest tunCidr preferredRanges unsafeRoutes udpServer)"
  unfolding newMainHostMap_def Let_def by auto

lemma emits_discoverPort:
  "emits (Collect quiet) (Collect startupFailure) (discoverPort w config configTest udpServer)"
  unfolding discoverPort_def Let_def by (auto split: option.splits)

lemma emits_lighthouseHostsLoop:
  "emits (Collect quiet) {Exited 1} (lighthouseHostsLoop w tunCidr hosts)"
  by (induction hosts) (auto simp: Let_def)

lemma emits_parseLighthouseHosts:
  "emits (Collect quiet) {Exited 1} (parseLighthouseHosts w config tunCidr)"
  unfolding parseLighthouseHosts_def Let_def by (auto intro: emits_lighthouseHostsLoop)

lemma emits_newLightHouse:
  "emits {e. quiet e \<or> e = EvNewLightHouse (NewLightHouse amLighthouse (ip2int w (netIP tunCidr))
        lighthouseHosts (GetInt config ''lighthouse.interval'' 10) port udpServer
        (Respond punchy) (Delay punchy))} {Exited 1}
     (newLightHouse w config amLighthouse tunCidr lighthouseHosts port udpServer punchy)"
  unfolding newLightHouse_def Let_def by (auto split: sum.splits)

lemma emits_addStaticRemote:
  "emits {e. quiet e \<or> (\<exists>ip a. e = AddRemote lh ip a True)} {Panicked}
     (addStaticRemote w lh vpnIp v)"
  unfolding addStaticRemote_def by (auto split: sum.splits list.splits prod.splits)

lemma emits_addStaticRemotes:
  "emits {e. quiet e \<or> (\<exists>ip a. e = AddRemote lh ip a True)} {Panicked}
     (addStaticRemotes w lh vpnIp vals)"
  by (induction vals) (auto intro: emits_addStaticRemote)

lemma emits_staticHostMapLoop:
  "emits {e. quiet e \<or> (\<exists>ip a. e = AddRemote lh ip a True)} {Panicked, Exited 1}
     (staticHostMapLoop w tunCidr lh kvs)"
  by (induction kvs) (auto simp: Let_def split: static_value.splits
        intro: emits_mono [OF emits_addStaticRemote] emits_mono [OF emits_addStaticRemotes])

lemma emits_loadStaticHostMap:
  "emits {e. quiet e \<or> (\<exists>ip a. e = AddRemote lh ip a True)} {Panicked, Exited 1}
     (loadStaticHostMap w config tunCidr lh)"
  unfolding loadStaticHostMap_def
  by (auto split: option.splits intro: emits_staticHostMapLoop)

lemma emits_newInterfaceConfig:
  "emits (Collect quiet) {}
     (newInterfaceConfig w config tunCidr preferredRanges hostMap lh tun udpServer cs fw)"
  unfolding newInterfaceConfig_def Let_def by auto

lemma emits_startInterface:
  "emits {e. quiet e \<or> e = EvStartStats configTest \<or> (e = EvNewInterface ifConfig \<and> \<not> configTest)}
     {out. (\<exists>e. out = Returned (Some e) \<and> \<not> configTest) \<or> (out = Exited 0 \<and> configTest)}
     (startInterface w config configTest ifConfig handshakeManager lh)"
  unfolding startInterface_def by (auto split: option.splits sum.splits)

lemma emits_closeTunnels: "emits {e. quiet e \<or> inShutdown e} {Panicked} (closeTunnels hosts)"
  by (induction hosts) (auto split: option.splits)

lemma emits_shutdownBlock:
  "emits {e. quiet e \<or> startsShutdown e \<or> (inShutdown e \<and> received \<noteq> None)} {Panicked, Blocked}
     (shutdownBlock hosts received)"
  unfolding shutdownBlock_def Let_def
  by (auto split: option.splits received.splits intro: emits_mono [OF emits_closeTunnels])

lemma emits_runInterface:
  "emits {e. quiet e \<or> startsShutdown e \<or> (inShutdown e \<and> selectReceives w commandChan \<noteq> None)}
     {Panicked, Blocked, Returned None}
     (runInterface w config block buildVersion commandChan ifce ssh hostMap handshakeManager lh
        udpQueues amLighthouse serveDns)"
  unfolding runInterface_def
  by (auto split: option.splits intro: emits_mono [OF emits_shutdownBlock])

lemma hoare_pure:
  assumes "R \<Longrightarrow> hoare P m Q E"
  shows "hoare (\<lambda>s. P s \<and> R) m Q E"
  unfolding hoare_def
proof (intro allI impI)
  fix s :: state
  assume a: "P s \<and> R"
  then have "hoare P m Q E" using assms by simp
  then show "case m s of (Inl out, s') \<Rightarrow> E out s' | (Inr x, s') \<Rightarrow> Q x s'"
    using a unfolding hoare_def by simp
qed

lemma hoare_post:
  assumes "hoare P m Q E" and "\<And>s x s'. P s \<Longrightarrow> m s = (Inr x, s') \<Longrightarrow> Q' x s'"
  shows "hoare P m (\<lambda>x s. Q x s \<and> Q' x s) E"
  unfolding hoare_def
proof (intro allI impI)
  fix s :: state
  assume p: "P s"
  obtain r s1 where m: "m s = (r, s1)" by (cases "m s")
  show "case m s of (Inl out, s') \<Rightarrow> E out s' | (Inr x, s') \<Rightarrow> Q x s' \<and> Q' x s'"
  proof (cases r)
    case (Inl out)
    then show ?thesis using assms(1) p m unfolding hoare_def by fastforce
  next
    case (Inr x)
    have "Q' x s1" using assms(2) [OF p] m Inr by simp
    moreover have "Q x s1" using assms(1) p m Inr unfolding hoare_def by fastforce
    ultimately show ?thesis using m Inr by simp
  qed
qed

subsection \<open>What the sections return\<close>

lemma openDevices_value:
  "fst (openDevices w config configTest tunFd tunCidr routes unsafeRoutes s) =
     Inr (tun, udpQueues, udpServer) \<Longrightarrow>
   udpQueues = GetInt config ''listen.routines'' 1 \<and>
   (if configTest then udpServer = None
    else \<exists>u. udpServer = Some u \<and> theListener w config = Inr u)"
  unfolding openDevices_def theListener_def Let_def
  by (auto simp: M_defs split: if_splits option.splits sum.splits prod.splits)

lemma parseRanges_eq:
  "parseRanges w raws acc s =
     (if list_all (\<lambda>r. \<not> isl (ParseCIDR w r)) raws
      then (Inr (acc @ map (\<lambda>r. projr (ParseCIDR w r)) raws), s)
      else (Inl (Returned (Some (''failed to parse preferred_ranges: '' @
              projl (ParseCIDR w (hd (filter (\<lambda>r. isl (ParseCIDR w r)) raws)))))), s))"
  by (induction raws arbitrary: acc) (auto simp: M_defs split: sum.splits)

lemma found_iff: "found w localRange rs \<longleftrightarrow> String w localRange \<in> String w ` set rs"
  by (induction rs) auto

lemma parsePreferredRanges_eq:
  "parsePreferredRanges w config s =
     (if rangesParse w config then (Inr (spec_preferredRanges w config), s)
      else (Inl (Returned (Some
        (if list_all (\<lambda>r. \<not> isl (ParseCIDR w r)) (GetStringSlice config ''preferred_ranges'' [])
         then ''failed to parse local_range: '' @
                projl (ParseCIDR w (GetString config ''local_range'' []))
         else ''failed to parse preferred_ranges: '' @
                projl (ParseCIDR w (hd (filter (\<lambda>r. isl (ParseCIDR w r))
                  (GetStringSlice config ''preferred_ranges'' []))))))), s))"
  unfolding parsePreferredRanges_def rangesParse_def spec_preferredRanges_def
  by (cases "GetStringSlice config ''preferred_ranges'' []")
     (auto simp: M_defs parseRanges_eq found_iff Let_def split: sum.splits)

lemma discoverPort_value:
  assumes "fst (discoverPort w config configTest udpServer s) = Inr port"
    and "if configTest then udpServer = None
         else \<exists>u. udpServer = Some u \<and> theListener w config = Inr u"
  shows "portFact w config configTest port"
  using assms unfolding discoverPort_def portFact_def Let_def
  by (auto simp: M_defs split: if_splits option.splits sum.splits)

lemma lighthouseHostsLoop_value:
  "fst (lighthouseHostsLoop w tunCidr hosts s) = Inr hs \<Longrightarrow>
   hs = map (\<lambda>host. ip2int w (ParseIP w host)) hosts \<and>
   list_all (\<lambda>host. Contains w tunCidr (ParseIP w host)) hosts"
proof (induction hosts arbitrary: s hs)
  case Nil
  then show ?case by (simp add: ret_def)
next
  case (Cons host hosts)
  let ?s1 = "if ParseIP w host = []
             then s\<lparr>events := events s @ [Log Error ''Unable to parse lighthouse host entry'']\<rparr>
             else s"
  from Cons.prems have c: "Contains w tunCidr (ParseIP w host)"
    by (auto simp: M_defs Let_def whenever_def split: if_splits)
  from Cons.prems c obtain hs' where hs': "fst (lighthouseHostsLoop w tunCidr hosts ?s1) = Inr hs'"
      "hs = ip2int w (ParseIP w host) # hs'"
    by (auto simp: M_defs Let_def whenever_def split: if_splits prod.splits sum.splits)
  from Cons.IH [OF hs'(1)] hs'(2) c show ?case by simp
qed

lemma lighthouseHostsLoop_result:
  "lighthouseHostsLoop w tunCidr hosts s = (Inr hs, s') \<Longrightarrow>
   hs = map (\<lambda>host. ip2int w (ParseIP w host)) hosts"
  using lighthouseHostsLoop_value [of w tunCidr hosts s hs] by simp

lemma parseLighthouseHosts_value:
  "fst (parseLighthouseHosts w config tunCidr s) = Inr (amLighthouse, lighthouseHosts) \<Longrightarrow>
   hostsFact w config amLighthouse lighthouseHosts"
  unfolding parseLighthouseHosts_def hostsFact_def Let_def
  by (auto simp: M_defs whenever_def split: if_splits prod.splits sum.splits
        dest: lighthouseHostsLoop_result)

lemma hoare_always:
  assumes "hoare P m Q E" and "\<And>s. A (snd (m s))"
  shows "hoare P m (\<lambda>x s. Q x s \<and> A s) (\<lambda>out s. E out s \<and> A s)"
  unfolding hoare_def
proof (intro allI impI)
  fix s :: state
  assume p: "P s"
  obtain r s1 where m: "m s = (r, s1)" by (cases "m s")
  have a: "A s1" using assms(2) [of s] m by simp
  show "case m s of (Inl out, s') \<Rightarrow> E out s' \<and> A s' | (Inr x, s') \<Rightarrow> Q x s' \<and> A s'"
  proof (cases r)
    case (Inl out)
    then show ?thesis using assms(1) p m a unfolding hoare_def by fastforce
  next
    case (Inr x)
    then show ?thesis using assms(1) p m a unfolding hoare_def by fastforce
  qed
qed

subsection \<open>The stages of a run of \<open>Main\<close>\<close>

lemma quiet_wf: "quiet e \<Longrightarrow> wf_event w c ct e \<and> \<not> isNewLightHouse e \<and> \<not> pastCipherSwitch e"
  by (cases e) simp_all

lemma shutdown_wf:
  "startsShutdown e \<or> inShutdown e \<Longrightarrow>
   wf_event w c ct e \<and> \<not> isNewLightHouse e \<and> \<not> pastCipherSwitch e"
  by (cases e) simp_all

lemma stage1:
  assumes "emits S Z m" and "\<And>e. e \<in> S \<Longrightarrow> wf_event w c ct e \<and> \<not> isNewLightHouse e \<and> \<not> pastCipherSwitch e"
    and "Z \<subseteq> Collect startupFailure"
  shows "hoare (\<lambda>s. untilLighthouse w c ct (events s) \<and> noiseEndianness s = e0) m
           (\<lambda>_ s. untilLighthouse w c ct (events s) \<and> noiseEndianness s = e0) (endOfRun w c ct e0)"
proof (rule hoare_weaken [OF hoare_emits [OF assms(1), where F = "untilLighthouse w c ct" and e = e0]])
  fix es es' assume "untilLighthouse w c ct es" "set es' \<subseteq> S"
  then show "untilLighthouse w c ct (es @ es')"
    using assms(2) unfolding untilLighthouse_def printed_def
    by (auto simp: list_all_iff list_ex_iff)
next
  fix out and s :: state assume "untilLighthouse w c ct (events s) \<and> noiseEndianness s = e0 \<and> out \<in> Z"
  then show "endOfRun w c ct e0 out s"
    using assms(3) unfolding untilLighthouse_def endOfRun_def by auto
qed simp_all

lemma stage2:
  assumes "emits S Z m" and "\<And>e. e \<in> S \<Longrightarrow> wf_event w c ct e \<and> \<not> pastCipherSwitch e"
    and "Z \<subseteq> Collect startupFailure"
  shows "hoare (\<lambda>s. untilCipher w c ct (events s) \<and> noiseEndianness s = e0) m
           (\<lambda>_ s. untilCipher w c ct (events s) \<and> noiseEndianness s = e0) (endOfRun w c ct e0)"
proof (rule hoare_weaken [OF hoare_emits [OF assms(1), where F = "untilCipher w c ct" and e = e0]])
  fix es es' assume "untilCipher w c ct es" "set es' \<subseteq> S"
  then show "untilCipher w c ct (es @ es')"
    using assms(2) unfolding untilCipher_def printed_def warned_def
    by (auto simp: list_all_iff list_ex_iff)
next
  fix out and s :: state assume "untilCipher w c ct (events s) \<and> noiseEndianness s = e0 \<and> out \<in> Z"
  then show "endOfRun w c ct e0 out s"
    using assms(3) unfolding untilCipher_def endOfRun_def by auto
qed simp_all

lemma sinceLighthouse_append:
  "sinceLighthouse w c ct es \<Longrightarrow> list_all (wf_event w c ct) es' \<Longrightarrow> sinceLighthouse w c ct (es @ es')"
  unfolding sinceLighthouse_def printed_def warned_def by auto

lemma step_setupLogger:
  "hoare (\<lambda>s. list_all quiet (events s) \<and> noiseEndianness s = e0)
     (setupLogger w c ct logFile)
     (\<lambda>_ s. untilLighthouse w c ct (events s) \<and> noiseEndianness s = e0) (endOfRun w c ct e0)"
proof (rule hoare_weaken [OF hoare_post [OF hoare_emits [OF emits_setupLogger,
          where F = "list_all quiet" and e = e0],
          where Q' = "\<lambda>_ s. printed w c ct (events s)"]])
  fix es es' assume "list_all quiet es" "set es' \<subseteq> Collect quiet"
  then show "list_all quiet (es @ es')" by (auto simp: list_all_iff)
next
  fix s :: state and x and s' :: state
  assume "setupLogger w c ct logFile s = (Inr x, s')"
  then show "printed w c ct (events s')"
    unfolding setupLogger_def printed_def
    by (auto simp: M_defs whenever_def split: if_splits option.splits sum.splits)
next
  fix x and s :: state
  assume "(list_all quiet (events s) \<and> noiseEndianness s = e0) \<and> printed w c ct (events s)"
  then show "untilLighthouse w c ct (events s) \<and> noiseEndianness s = e0"
    unfolding untilLighthouse_def using quiet_wf by (auto simp: list_all_iff list_ex_iff)
next
  fix out and s :: state
  assume "list_all quiet (events s) \<and> noiseEndianness s = e0 \<and> out \<in> Collect returnsError"
  then show "endOfRun w c ct e0 out s"
    unfolding endOfRun_def using quiet_wf returnsError_failure
    by (auto simp: list_all_iff list_ex_iff)
qed simp

lemma step_parseLighthouseHosts:
  "hoare (\<lambda>s. untilLighthouse w c ct (events s) \<and> noiseEndianness s = e0)
     (parseLighthouseHosts w c tunCidr)
     (\<lambda>(am, hs) s. (untilCipher w c ct (events s) \<and> noiseEndianness s = e0) \<and> hostsFact w c am hs)
     (endOfRun w c ct e0)"
proof -
  have grow: "\<exists>es. events (snd (lighthouseHostsLoop w tunCidr hs s)) = events s @ es" for hs s
    using emits_lighthouseHostsLoop [of w tunCidr hs] unfolding emits_def by blast
  have w: "warned c (events s')"
    if "parseLighthouseHosts w c tunCidr s = (Inr x, s')" for s x s'
  proof (cases "GetBool c ''lighthouse.am_lighthouse'' False \<and>
      GetStringSlice c ''lighthouse.hosts'' [] \<noteq> []")
    case True
    let ?s1 = "s\<lparr>events := events s @ [Log Warn
      ''lighthouse.am_lighthouse enabled on node but upstream lighthouses exist in config'']\<rparr>"
    from that True have "s' = snd (lighthouseHostsLoop w tunCidr
        (GetStringSlice c ''lighthouse.hosts'' []) ?s1)"
      unfolding parseLighthouseHosts_def Let_def
      by (auto simp: M_defs whenever_def split: prod.splits sum.splits)
    with grow [of "GetStringSlice c ''lighthouse.hosts'' []" ?s1]
    show ?thesis unfolding warned_def by auto
  next
    case False
    then show ?thesis unfolding warned_def by blast
  qed
  have "hoare (\<lambda>s. untilLighthouse w c ct (events s) \<and> noiseEndianness s = e0)
     (parseLighthouseHosts w c tunCidr)
     (\<lambda>x s. ((untilLighthouse w c ct (events s) \<and> noiseEndianness s = e0) \<and> warned c (events s)) \<and>
        (case x of (am, hs) \<Rightarrow> hostsFact w c am hs))
     (endOfRun w c ct e0)"
    apply (rule hoare_value)
     apply (rule hoare_post)
      apply (rule stage1 [OF emits_parseLighthouseHosts])
       apply (simp add: quiet_wf)
      apply simp
     apply (erule w)
    apply (auto dest: parseLighthouseHosts_value)
    done
  then show ?thesis
    by (rule hoare_weaken) (auto simp: untilLighthouse_def untilCipher_def)
qed

lemma step_selectCipher:
  "hoare (\<lambda>s. untilCipher w c ct (events s) \<and> noiseEndianness s = e0)
     (selectCipher (GetString c ''cipher'' ''aes''))
     (\<lambda>_ s. sinceLighthouse w c ct (events s) \<and> \<not> list_ex pastCipherSwitch (events s) \<and>
        noiseEndianness s = selected c e0) (endOfRun w c ct e0)"
  unfolding hoare_def selectCipher_def selected_def untilCipher_def sinceLighthouse_def printed_def warned_def
  by (auto simp: M_defs)

lemma startInterface_past:
  "list_ex pastCipherSwitch (events (snd (startInterface w c ct ifConfig hm lh s)))"
  unfolding startInterface_def
  by (auto simp: M_defs split: option.splits sum.splits)

lemma startInterface_value:
  "fst (startInterface w c ct ifConfig hm lh s) = Inr x \<Longrightarrow> \<not> ct"
  unfolding startInterface_def
  by (auto simp: M_defs split: option.splits sum.splits if_splits)

lemma step_openDevices:
  "hoare (\<lambda>s. untilLighthouse w c ct (events s) \<and> noiseEndianness s = e0)
     (openDevices w c ct tunFd tunCidr routes unsafeRoutes)
     (\<lambda>(tun, udpQueues, udpServer) s.
        (untilLighthouse w c ct (events s) \<and> noiseEndianness s = e0) \<and> udpFact w c ct udpQueues udpServer)
     (endOfRun w c ct e0)"
proof -
  have "hoare (\<lambda>s. untilLighthouse w c ct (events s) \<and> noiseEndianness s = e0)
     (openDevices w c ct tunFd tunCidr routes unsafeRoutes)
     (\<lambda>x s. (untilLighthouse w c ct (events s) \<and> noiseEndianness s = e0) \<and>
        (case x of (tun, udpQueues, udpServer) \<Rightarrow> udpFact w c ct udpQueues udpServer))
     (endOfRun w c ct e0)"
  proof (rule hoare_value [OF stage1 [OF emits_openDevices]])
    fix e assume "e \<in> {e. quiet e \<or> opens e \<and> \<not> ct}"
    then show "wf_event w c ct e \<and> \<not> isNewLightHouse e \<and> \<not> pastCipherSwitch e"
      using quiet_wf [of e w c ct] by (cases e) auto
  next
    fix s :: state and x
    assume "fst (openDevices w c ct tunFd tunCidr routes unsafeRoutes s) = Inr x"
    then show "case x of (tun, udpQueues, udpServer) \<Rightarrow> udpFact w c ct udpQueues udpServer"
      using openDevices_value [of w c ct tunFd tunCidr routes unsafeRoutes s]
      unfolding udpFact_def by (cases x) auto
  qed (auto simp: returnsError_failure)
  then show ?thesis by (rule hoare_weaken) auto
qed

lemma step_parsePreferredRanges:
  "hoare (\<lambda>s. untilLighthouse w c ct (events s) \<and> noiseEndianness s = e0)
     (parsePreferredRanges w c)
     (\<lambda>preferredRanges s. (untilLighthouse w c ct (events s) \<and> noiseEndianness s = e0) \<and>
        (rangesParse w c \<and> preferredRanges = spec_preferredRanges w c))
     (endOfRun w c ct e0)"
proof (rule hoare_value [OF stage1 [OF emits_parsePreferredRanges]])
  fix s :: state and x
  assume "fst (parsePreferredRanges w c s) = Inr x"
  then show "rangesParse w c \<and> x = spec_preferredRanges w c"
    by (auto simp: parsePreferredRanges_eq split: if_splits)
qed (auto simp: returnsError_failure)

lemma step_newMainHostMap:
  assumes "rangesParse w c" and "preferredRanges = spec_preferredRanges w c"
  shows "hoare (\<lambda>s. untilLighthouse w c ct (events s) \<and> noiseEndianness s = e0)
     (newMainHostMap w c ct tunCidr preferredRanges unsafeRoutes udpServer)
     (\<lambda>_ s. untilLighthouse w c ct (events s) \<and> noiseEndianness s = e0) (endOfRun w c ct e0)"
proof (rule stage1 [OF emits_newMainHostMap])
  fix e
  assume "e \<in> {e. quiet e \<or> e = EvNewHostMap (NewHostMap ''main'' tunCidr preferredRanges)}"
  then show "wf_event w c ct e \<and> \<not> isNewLightHouse e \<and> \<not> pastCipherSwitch e"
    using quiet_wf [of e w c ct] assms by auto
qed simp

lemma step_discoverPort:
  assumes "udpFact w c ct udpQueues udpServer"
  shows "hoare (\<lambda>s. untilLighthouse w c ct (events s) \<and> noiseEndianness s = e0)
     (discoverPort w c ct udpServer)
     (\<lambda>port s. (untilLighthouse w c ct (events s) \<and> noiseEndianness s = e0) \<and> portFact w c ct port)
     (endOfRun w c ct e0)"
proof (rule hoare_value [OF stage1 [OF emits_discoverPort]])
  fix s :: state and x
  assume "fst (discoverPort w c ct udpServer s) = Inr x"
  then show "portFact w c ct x"
    using discoverPort_value assms unfolding udpFact_def by blast
qed (auto simp: quiet_wf)

lemma step_newLightHouse:
  assumes "hostsFact w c amLighthouse lighthouseHosts" and "portFact w c ct port"
  shows "hoare (\<lambda>s. untilCipher w c ct (events s) \<and> noiseEndianness s = e0)
     (newLightHouse w c amLighthouse tunCidr lighthouseHosts port udpServer punchy)
     (\<lambda>_ s. untilCipher w c ct (events s) \<and> noiseEndianness s = e0) (endOfRun w c ct e0)"
proof (rule stage2 [OF emits_newLightHouse])
  fix e
  assume "e \<in> {e. quiet e \<or> e = EvNewLightHouse (NewLightHouse amLighthouse
      (ip2int w (netIP tunCidr)) lighthouseHosts (GetInt c ''lighthouse.interval'' 10) port
      udpServer (Respond punchy) (Delay punchy))}"
  then show "wf_event w c ct e \<and> \<not> pastCipherSwitch e"
    using quiet_wf [of e w c ct] assms by auto
qed simp

lemma step_loadStaticHostMap:
  "hoare (\<lambda>s. untilCipher w c ct (events s) \<and> noiseEndianness s = e0)
     (loadStaticHostMap w c tunCidr lh)
     (\<lambda>_ s. untilCipher w c ct (events s) \<and> noiseEndianness s = e0) (endOfRun w c ct e0)"
proof (rule stage2 [OF emits_loadStaticHostMap])
  fix e
  assume "e \<in> {e. quiet e \<or> (\<exists>ip a. e = AddRemote lh ip a True)}"
  then show "wf_event w c ct e \<and> \<not> pastCipherSwitch e"
    using quiet_wf [of e w c ct] by auto
qed auto

lemma newInterfaceConfig_value:
  "fst (newInterfaceConfig w c tunCidr preferredRanges hostMap lh tun udpServer cs fw s) =
     Inr (hm, ifConfig) \<Longrightarrow> Cipher ifConfig = GetString c ''cipher'' ''aes''"
  unfolding newInterfaceConfig_def Let_def by (auto simp: M_defs)

lemma step_newInterfaceConfig:
  "hoare (\<lambda>s. untilCipher w c ct (events s) \<and> noiseEndianness s = e0)
     (newInterfaceConfig w c tunCidr preferredRanges hostMap lh tun udpServer cs fw)
     (\<lambda>(hm, ifConfig) s. (untilCipher w c ct (events s) \<and> noiseEndianness s = e0) \<and>
        Cipher ifConfig = GetString c ''cipher'' ''aes'')
     (endOfRun w c ct e0)"
proof -
  have "hoare (\<lambda>s. untilCipher w c ct (events s) \<and> noiseEndianness s = e0)
     (newInterfaceConfig w c tunCidr preferredRanges hostMap lh tun udpServer cs fw)
     (\<lambda>x s. (untilCipher w c ct (events s) \<and> noiseEndianness s = e0) \<and>
        (case x of (hm, ifConfig) \<Rightarrow> Cipher ifConfig = GetString c ''cipher'' ''aes''))
     (endOfRun w c ct e0)"
  proof (rule hoare_value [OF stage2 [OF emits_newInterfaceConfig]])
    fix s :: state and x
    assume "fst (newInterfaceConfig w c tunCidr preferredRanges hostMap lh tun udpServer cs fw s)
      = Inr x"
    then show "case x of (hm, ifConfig) \<Rightarrow> Cipher ifConfig = GetString c ''cipher'' ''aes''"
      using newInterfaceConfig_value by (cases x) auto
  qed (auto simp: quiet_wf)
  then show ?thesis by (rule hoare_weaken) auto
qed

lemma step_startInterface:
  "hoare (\<lambda>s. sinceLighthouse w c ct (events s) \<and> \<not> list_ex pastCipherSwitch (events s) \<and>
            noiseEndianness s = selected c e0)
     (startInterface w c ct ifConfig hm lh)
     (\<lambda>_ s. (sinceLighthouse w c ct (events s) \<and> list_ex pastCipherSwitch (events s) \<and>
            noiseEndianness s = selected c e0) \<and> \<not> ct)
     (endOfRun w c ct e0)"
proof -
  let ?S = "{e. quiet e \<or> e = EvStartStats ct \<or> (e = EvNewInterface ifConfig \<and> \<not> ct)}"
  have wf: "list_all (wf_event w c ct) es'" if "set es' \<subseteq> ?S" for es'
    unfolding list_all_iff
  proof
    fix e assume "e \<in> set es'"
    with that have "e \<in> ?S" by blast
    then show "wf_event w c ct e" using quiet_wf [of e w c ct] by auto
  qed
  have 1: "hoare (\<lambda>s. sinceLighthouse w c ct (events s) \<and> noiseEndianness s = selected c e0)
     (startInterface w c ct ifConfig hm lh)
     (\<lambda>_ s. sinceLighthouse w c ct (events s) \<and> noiseEndianness s = selected c e0)
     (\<lambda>out s. sinceLighthouse w c ct (events s) \<and> noiseEndianness s = selected c e0 \<and>
        out \<in> {out. (\<exists>e. out = Returned (Some e) \<and> \<not> ct) \<or> (out = Exited 0 \<and> ct)})"
    by (rule hoare_emits [OF emits_startInterface]) (simp add: sinceLighthouse_append wf)
  have 2: "hoare (\<lambda>s. sinceLighthouse w c ct (events s) \<and> noiseEndianness s = selected c e0)
     (startInterface w c ct ifConfig hm lh)
     (\<lambda>x s. ((sinceLighthouse w c ct (events s) \<and> noiseEndianness s = selected c e0) \<and>
         list_ex pastCipherSwitch (events s)) \<and> \<not> ct)
     (\<lambda>out s. (sinceLighthouse w c ct (events s) \<and> noiseEndianness s = selected c e0 \<and>
        out \<in> {out. (\<exists>e. out = Returned (Some e) \<and> \<not> ct) \<or> (out = Exited 0 \<and> ct)}) \<and>
         list_ex pastCipherSwitch (events s))"
    by (rule hoare_value [OF hoare_always [OF 1]])
       (auto simp: startInterface_past dest: startInterface_value)
  show ?thesis
    by (rule hoare_weaken [OF 2]) (auto simp: endOfRun_def sinceLighthouse_def)
qed

lemma runInterface_never:
  "fst (runInterface w c block bv cc ifce ssh hostMap hm lh udpQueues am serveDns s) \<noteq> Inr x"
  unfolding runInterface_def
  by (auto simp: M_defs whenever_def split: option.splits prod.splits sum.splits if_splits)

lemma step_runInterface:
  assumes "\<not> ct"
  shows "hoare (\<lambda>s. sinceLighthouse w c ct (events s) \<and> list_ex pastCipherSwitch (events s) \<and>
            noiseEndianness s = selected c e0)
     (runInterface w c block bv cc ifce ssh hostMap hm lh udpQueues am serveDns)
     (\<lambda>_ _. False) (endOfRun w c ct e0)"
proof -
  let ?F = "\<lambda>es. sinceLighthouse w c ct es \<and> list_ex pastCipherSwitch es"
  have 1: "hoare (\<lambda>s. ?F (events s) \<and> noiseEndianness s = selected c e0)
     (runInterface w c block bv cc ifce ssh hostMap hm lh udpQueues am serveDns)
     (\<lambda>_ s. ?F (events s) \<and> noiseEndianness s = selected c e0)
     (\<lambda>out s. ?F (events s) \<and> noiseEndianness s = selected c e0 \<and>
        out \<in> {Panicked, Blocked, Returned None})"
  proof (rule hoare_emits [OF emits_runInterface])
    fix es es'
    assume "sinceLighthouse w c ct es \<and> list_ex pastCipherSwitch es"
      "set es' \<subseteq> {e. quiet e \<or> startsShutdown e \<or> (inShutdown e \<and> selectReceives w cc \<noteq> None)}"
    moreover from this have "list_all (wf_event w c ct) es'"
      using quiet_wf shutdown_wf by (auto simp: list_all_iff)
    ultimately show "sinceLighthouse w c ct (es @ es') \<and> list_ex pastCipherSwitch (es @ es')"
      by (simp add: sinceLighthouse_append)
  qed
  have 2: "hoare (\<lambda>s. ?F (events s) \<and> noiseEndianness s = selected c e0)
     (runInterface w c block bv cc ifce ssh hostMap hm lh udpQueues am serveDns)
     (\<lambda>x s. (?F (events s) \<and> noiseEndianness s = selected c e0) \<and> False)
     (\<lambda>out s. ?F (events s) \<and> noiseEndianness s = selected c e0 \<and>
        out \<in> {Panicked, Blocked, Returned None})"
    by (rule hoare_value [OF 1]) (simp add: runInterface_never)
  show ?thesis
    by (rule hoare_weaken [OF 2]) (use assms in \<open>auto simp: endOfRun_def sinceLighthouse_def\<close>)
qed

lemma step_selectCipher':
  assumes "cipher = GetString c ''cipher'' ''aes''"
  shows "hoare (\<lambda>s. untilCipher w c ct (events s) \<and> noiseEndianness s = e0) (selectCipher cipher)
     (\<lambda>_ s. sinceLighthouse w c ct (events s) \<and> \<not> list_ex pastCipherSwitch (events s) \<and>
        noiseEndianness s = selected c e0) (endOfRun w c ct e0)"
  unfolding assms by (rule step_selectCipher)

lemma Main_stages:
  "hoare (\<lambda>s. events s = [] \<and> noiseEndianness s = e0)
     (Main w c ct block bv logFile tunFd cc) (\<lambda>_ _. False) (endOfRun w c ct e0)"
  unfolding Main_def
  apply (rule hoare_seq [where R = "\<lambda>s. untilLighthouse w c ct (events s) \<and> noiseEndianness s = e0"])
   apply (rule hoare_weaken [OF step_setupLogger]; simp)
  apply (rule hoare_bind [where R = "\<lambda>_ s. untilLighthouse w c ct (events s) \<and> noiseEndianness s = e0"])
   apply (rule stage1 [OF emits_loadCerts]; auto simp: quiet_wf returnsError_failure)
  apply (simp only: split_paired_all prod.case)
  apply (rule hoare_bind [OF step_openDevices])
  apply (simp only: split_paired_all prod.case)
  apply (rule hoare_pure)
  apply (rule hoare_seq [where R = "\<lambda>s. untilLighthouse w c ct (events s) \<and> noiseEndianness s = e0"])
   apply (rule stage1 [OF emits_startCommandLoop]; simp add: quiet_wf)
  apply (rule hoare_bind [OF step_parsePreferredRanges])
  apply (rule hoare_pure)
  apply (erule conjE)
  apply (rule hoare_bind [where R = "\<lambda>_ s. untilLighthouse w c ct (events s) \<and> noiseEndianness s = e0"])
   apply (rule step_newMainHostMap; assumption)
  apply (simp only: split_paired_all prod.case)
  apply (rule hoare_bind [OF step_discoverPort])
   apply assumption
  apply (rule hoare_pure)
  apply (rule hoare_bind [OF step_parseLighthouseHosts])
  apply (simp only: split_paired_all prod.case)
  apply (rule hoare_pure)
  apply (rule hoare_bind [where R = "\<lambda>_ s. untilCipher w c ct (events s) \<and> noiseEndianness s = e0"])
   apply (rule step_newLightHouse; assumption)
  apply (rule hoare_seq [OF step_loadStaticHostMap])
  apply (rule hoare_bind [OF step_newInterfaceConfig])
  apply (simp only: split_paired_all prod.case)
  apply (rule hoare_pure)
  apply (rule hoare_seq [OF step_selectCipher'])
   apply assumption
  apply (rule hoare_bind [OF step_startInterface])
  apply (rule hoare_pure)
  apply (rule step_runInterface)
  apply assumption
  done

subsection \<open>The outcome of a computation\<close>

lemma fst_bind:
  "fst (bind m f s) = (case fst (m s) of Inl out \<Rightarrow> Inl out | Inr x \<Rightarrow> fst (f x (snd (m s))))"
  by (simp add: bind_def split: prod.splits sum.splits)

lemma fst_seq:
  "fst (seq m k s) = (case fst (m s) of Inl out \<Rightarrow> Inl out | Inr x \<Rightarrow> fst (k (snd (m s))))"
  by (simp add: seq_def fst_bind)

lemma fst_prims:
  "fst (ret x s) = Inr x" "fst (stop out s) = Inl out" "fst (emit e s) = Inr ()"
  "fst (setTrustedCAs v s) = Inr ()" "fst (setNoiseEndianness b s) = Inr ()"
  "fst (returnErrorf p err s) = Inl (Returned (Some (p @ err)))"
  "fst (fatal msg s) = Inl (Exited 1)"
  "fst (orReturn p r s) = (case r of Inl err \<Rightarrow> Inl (Returned (Some (p @ err))) | Inr x \<Rightarrow> Inr x)"
  by (simp_all add: M_defs split: sum.splits)

lemmas fst_M = fst_bind fst_seq fst_prims

subsection \<open>Every run of \<open>Main\<close> ends in a stage\<close>

lemma Main_post:
  "\<exists>out. fst (Main w c ct block bv logFile tunFd cc (start e0 cas)) = Inl out \<and>
     endOfRun w c ct e0 out (snd (Main w c ct block bv logFile tunFd cc (start e0 cas)))"
proof -
  obtain r s' where m: "Main w c ct block bv logFile tunFd cc (start e0 cas) = (r, s')"
    by (cases "Main w c ct block bv logFile tunFd cc (start e0 cas)")
  have "events (start e0 cas) = [] \<and> noiseEndianness (start e0 cas) = e0"
    by (simp add: start_def)
  with Main_stages [of e0 w c ct block bv logFile tunFd cc] m
  show ?thesis unfolding hoare_def by (cases r) fastforce+
qed

subsection \<open>The cipher\<close>

lemma selectCipher_eq:
  "selectCipher ''aes'' s = (Inr (), s\<lparr>noiseEndianness := BigEndian\<rparr>)"
  "selectCipher ''chachapoly'' s = (Inr (), s\<lparr>noiseEndianness := LittleEndian\<rparr>)"
  "cipher \<noteq> ''aes'' \<Longrightarrow> cipher \<noteq> ''chachapoly'' \<Longrightarrow>
     selectCipher cipher s = (Inr (), s\<lparr>events := events s @ [Log Error (''Unknown cipher: '' @ cipher)]\<rparr>)"
  by (simp_all add: selectCipher_def M_defs)

text \<open>
  C1. The switch on the cipher sets \<open>noiseEndianness\<close> to big-endian for \<open>aes\<close>, to
  little-endian for \<open>chachapoly\<close>, and leaves it as it was for any other value. For a run
  of \<open>Main\<close> as a whole: \<open>Main\<close> is past the switch exactly when it has gone on to
  \<open>NewInterface\<close> or \<open>startStats\<close>; then \<open>noiseEndianness\<close> is what the configured cipher
  (\<open>aes\<close> when none is configured) selects, and the value from before the call when the
  cipher is neither of the two; in a run that stops before the switch it is unchanged.
\<close>

theorem cipher_selects_endianness:
  "selectCipher ''aes'' s = (Inr (), s\<lparr>noiseEndianness := BigEndian\<rparr>) \<and>
   selectCipher ''chachapoly'' s = (Inr (), s\<lparr>noiseEndianness := LittleEndian\<rparr>) \<and>
   noiseEndianness (snd (selectCipher cipher s)) =
     (if cipher = ''aes'' then BigEndian
      else if cipher = ''chachapoly'' then LittleEndian else noiseEndianness s) \<and>
   noiseEndianness (snd (Main w c ct block bv logFile tunFd cc (start e0 cas))) =
     (if list_ex pastCipherSwitch (events (snd (Main w c ct block bv logFile tunFd cc (start e0 cas))))
      then if GetString c ''cipher'' ''aes'' = ''aes'' then BigEndian
           else if GetString c ''cipher'' ''aes'' = ''chachapoly'' then LittleEndian
           else e0
      else e0)"
proof -
  from Main_post [of w c ct block bv logFile tunFd cc e0 cas]
  have "noiseEndianness (snd (Main w c ct block bv logFile tunFd cc (start e0 cas))) =
     (if list_ex pastCipherSwitch (events (snd (Main w c ct block bv logFile tunFd cc (start e0 cas))))
      then selected c e0 else e0)"
    unfolding endOfRun_def by (auto split: if_splits)
  moreover have "noiseEndianness (snd (selectCipher cipher s)) =
     (if cipher = ''aes'' then BigEndian
      else if cipher = ''chachapoly'' then LittleEndian else noiseEndianness s)"
    by (simp add: selectCipher_def M_defs)
  ultimately show ?thesis
    unfolding selected_def using selectCipher_eq(1,2) by simp
qed

subsection \<open>A config test of a valid configuration\<close>

lemma lighthouseHostsLoop_ok:
  "list_all (\<lambda>host. Contains w tunCidr (ParseIP w host)) hosts \<Longrightarrow>
   fst (lighthouseHostsLoop w tunCidr hosts s) =
     Inr (map (\<lambda>host. ip2int w (ParseIP w host)) hosts)"
  by (induction hosts arbitrary: s) (simp_all add: fst_M Let_def whenever_def)

lemma lighthouseHostsLoop_fatal:
  "\<not> list_all (\<lambda>host. Contains w tunCidr (ParseIP w host)) hosts \<Longrightarrow>
   fst (lighthouseHostsLoop w tunCidr hosts s) = Inl (Exited 1)"
  by (induction hosts arbitrary: s) (simp_all add: fst_M Let_def whenever_def)

lemma addStaticRemote_ok:
  "staticAddrOk w v \<Longrightarrow> fst (addStaticRemote w lh vpnIp v s) = Inr ()"
  unfolding staticAddrOk_def addStaticRemote_def
  by (auto simp: fst_M whenever_def split: list.splits sum.splits prod.splits)

lemma addStaticRemotes_ok:
  "list_all (staticAddrOk w) vals \<Longrightarrow> fst (addStaticRemotes w lh vpnIp vals s) = Inr ()"
  by (induction vals arbitrary: s) (simp_all add: fst_M addStaticRemote_ok)

lemma staticHostMapLoop_ok:
  "list_all (staticEntryOk w tunCidr) kvs \<Longrightarrow> fst (staticHostMapLoop w tunCidr lh kvs s) = Inr ()"
proof (induction kvs arbitrary: s)
  case Nil
  then show ?case by (simp add: fst_M)
next
  case (Cons kv kvs)
  obtain k v where kv: "kv = (k, v)" by (cases kv)
  from Cons.prems kv have e: "staticEntryOk w tunCidr (k, v)"
    and rest: "list_all (staticEntryOk w tunCidr) kvs"
    by simp_all
  from e have ok: "Contains w tunCidr (ParseIP w k)"
      "case v of Sequence vals \<Rightarrow> list_all (staticAddrOk w) vals | Scalar x \<Rightarrow> staticAddrOk w x"
    by (simp_all add: staticEntryOk_def)
  show ?case
    using ok Cons.IH [OF rest] kv
    by (cases v) (simp_all add: fst_M Let_def addStaticRemote_ok addStaticRemotes_ok)
qed

lemma newInterfaceConfig_result:
  "fst (newInterfaceConfig w config tunCidr preferredRanges hostMap lh tun udpServer cs fw s) =
     Inr (NewHandshakeManager tunCidr preferredRanges hostMap lh udpServer
            \<lparr>tryInterval = GetDuration config ''handshakes.try_interval''
                             (DefaultHandshakeTryInterval w),
             retries = GetInt config ''handshakes.retries'' (DefaultHandshakeRetries w),
             waitRotation = GetInt config ''handshakes.wait_rotation''
                              (DefaultHandshakeWaitRotation w)\<rparr>,
          \<lparr>HostMap = hostMap,
           Inside = tun,
           Outside = udpServer,
           certState = cs,
           Cipher = GetString config ''cipher'' ''aes'',
           Firewall = fw,
           ServeDns = GetBool config ''lighthouse.serve_dns'' False,
           HandshakeManager = NewHandshakeManager tunCidr preferredRanges hostMap lh udpServer
            \<lparr>tryInterval = GetDuration config ''handshakes.try_interval''
                             (DefaultHandshakeTryInterval w),
             retries = GetInt config ''handshakes.retries'' (DefaultHandshakeRetries w),
             waitRotation = GetInt config ''handshakes.wait_rotation''
                              (DefaultHandshakeWaitRotation w)\<rparr>,
           lightHouse = lh,
           checkInterval = GetInt config ''timers.connection_alive_interval'' 5,
           pendingDeletionInterval = GetInt config ''timers.pending_deletion_interval'' 10,
           DropLocalBroadcast = GetBool config ''tun.drop_local_broadcast'' False,
           DropMulticast = GetBool config ''tun.drop_multicast'' False,
           UDPBatchSize = GetInt config ''listen.batch'' 64\<rparr>)"
  unfolding newInterfaceConfig_def by (simp add: fst_M Let_def)

lemma config_test_outcome:
  assumes "validConfigTest w c logFile"
  shows "fst (Main w c True block bv logFile tunFd cc s) = Inl (Exited 0)"
proof -
  from assms obtain cs where cs: "NewCertStateFromConfig w c = Inr cs"
    unfolding validConfigTest_def by (auto split: sum.splits)
  from assms cs obtain tunCidr more where ips: "Ips (certificate cs) = tunCidr # more"
    unfolding validConfigTest_def by (auto split: list.splits)
  from assms cs ips have v:
    "logFile = [] \<or> OpenFile w logFile = None"
    "\<not> isl (yamlMarshal w (Settings c))"
    "configLogger w c = None"
    "\<not> isl (loadCAFromConfig w c)"
    "\<not> isl (NewFirewallFromConfig w (certificate cs) c)"
    "\<not> isl (parseRoutes w c tunCidr)"
    "\<not> isl (parseUnsafeRoutes w c tunCidr)"
    "GetBool c ''sshd.enabled'' False \<longrightarrow> configSSH w (NewSSHServer w) c = None"
    "rangesParse w c"
    "list_all (\<lambda>host. Contains w tunCidr (ParseIP w host)) (GetStringSlice c ''lighthouse.hosts'' [])"
    "\<not> isl (GetAllowList c ''lighthouse.remote_allow_list'' False)"
    "\<not> isl (GetAllowList c ''lighthouse.local_allow_list'' True)"
    "list_all (staticEntryOk w tunCidr) (GetMap c ''static_host_map'' [])"
    unfolding validConfigTest_def by simp_all
  have 1: "fst (setupLogger w c True logFile s1) = Inr ()" for s1
    using v(1,2,3) unfolding setupLogger_def
    by (cases "yamlMarshal w (Settings c)") (auto simp: fst_M whenever_def split: option.splits)
  have 2: "fst (loadCerts w c s1) = Inr (cs, projr (NewFirewallFromConfig w (certificate cs) c),
      tunCidr, projr (parseRoutes w c tunCidr), projr (parseUnsafeRoutes w c tunCidr),
      NewSSHServer w)" for s1
    using v(4,5,6,7,8) cs ips unfolding loadCerts_def
    by (cases "loadCAFromConfig w c"; cases "NewFirewallFromConfig w (certificate cs) c";
        cases "parseRoutes w c tunCidr"; cases "parseUnsafeRoutes w c tunCidr")
       (auto simp: fst_M whenever_def Let_def split: option.splits)
  have 3: "fst (openDevices w c True tunFd tunCidr r u s1) =
      Inr (None, GetInt c ''listen.routines'' 1, None)" for r u s1
    unfolding openDevices_def by (simp add: fst_M Let_def)
  have 4: "fst (startCommandLoop cc None s1) = Inr ()" for s1
    unfolding startCommandLoop_def by (simp add: fst_M split: option.splits)
  have 5: "fst (parsePreferredRanges w c s1) = Inr (spec_preferredRanges w c)" for s1
    using v(9) by (simp add: parsePreferredRanges_eq)
  have 6: "fst (newMainHostMap w c True tunCidr prs u None s1) =
      Inr (NewHostMap ''main'' tunCidr prs, NewPunchyFromConfig w c)" for prs u s1
    unfolding newMainHostMap_def by (simp add: fst_M Let_def)
  have 7: "fst (discoverPort w c True None s1) = Inr (GetInt c ''listen.port'' 0)" for s1
    unfolding discoverPort_def by (simp add: fst_M Let_def)
  have 8: "fst (parseLighthouseHosts w c tunCidr s1) =
      Inr (GetBool c ''lighthouse.am_lighthouse'' False,
           map (\<lambda>host. ip2int w (ParseIP w host)) (GetStringSlice c ''lighthouse.hosts'' []))" for s1
    using v(10) unfolding parseLighthouseHosts_def
    by (simp add: fst_M Let_def whenever_def lighthouseHostsLoop_ok)
  have 9: "fst (newLightHouse w c am tunCidr hs port None p s1) =
      Inr (NewLightHouse am (ip2int w (netIP tunCidr)) hs (GetInt c ''lighthouse.interval'' 10)
             port None (Respond p) (Delay p))" for am hs port p s1
    using v(11,12) unfolding newLightHouse_def
    by (cases "GetAllowList c ''lighthouse.remote_allow_list'' False";
        cases "GetAllowList c ''lighthouse.local_allow_list'' True")
       (simp_all add: fst_M Let_def)
  have 10: "fst (loadStaticHostMap w c tunCidr lh s1) = Inr ()" for lh s1
    using v(13) unfolding loadStaticHostMap_def
    by (simp add: fst_M staticHostMapLoop_ok split: option.splits)
  have 12: "fst (selectCipher cipher s1) = Inr ()" for cipher s1
    unfolding selectCipher_def by (simp add: fst_M)
  have 13: "fst (startInterface w c True ic hm lh s1) = Inl (Exited 0)" for ic hm lh s1
    unfolding startInterface_def by (simp add: fst_M split: option.splits)
  show ?thesis
    unfolding Main_def
    by (simp add: fst_bind fst_seq 1 2 3 4 5 6 7 8 9 10 newInterfaceConfig_result 12 13)
qed

subsection \<open>Preferred ranges\<close>

lemma hoareD:
  "hoare P m Q E \<Longrightarrow> P s \<Longrightarrow>
   (case m s of (Inl out, s') \<Rightarrow> E out s' | (Inr x, s') \<Rightarrow> Q x s')"
  by (simp add: hoare_def)

lemma hoare_False: "hoare (\<lambda>s. False) m Q E"
  by (simp add: hoare_def)

lemma hoare_stops:
  assumes "emits S Z m" and "Z \<subseteq> T"
  shows "hoare (\<lambda>s. True) m (\<lambda>_ s. True) (\<lambda>out s. out \<in> T)"
  unfolding hoare_def
proof (intro allI impI)
  fix s :: state
  obtain r s1 where m: "m s = (r, s1)" by (cases "m s")
  show "case m s of (Inl out, s') \<Rightarrow> out \<in> T | (Inr x, s') \<Rightarrow> True"
  proof (cases r)
    case (Inl out)
    then have "out \<in> Z" using assms(1) m unfolding emits_def by (metis fst_conv)
    then show ?thesis using m Inl assms(2) by auto
  next
    case (Inr x)
    then show ?thesis using m by simp
  qed
qed

lemma Main_ranges_error:
  assumes "\<not> rangesParse w c"
    and "\<And>cs. NewCertStateFromConfig w c = Inr cs \<Longrightarrow> Ips (certificate cs) \<noteq> []"
  shows "hoare (\<lambda>s. True) (Main w c ct block bv logFile tunFd cc) (\<lambda>_ s. False)
           (\<lambda>out s. out \<in> Collect returnsError)"
  unfolding Main_def
  apply (rule hoare_seq [where R = "\<lambda>s. True"])
   apply (rule hoare_stops [OF emits_setupLogger]; simp)
  apply (rule hoare_bind [where R = "\<lambda>_ s. True"])
   apply (rule hoare_stops [OF emits_loadCerts_address [OF assms(2)]]; simp)
  apply (simp only: split_paired_all prod.case)
  apply (rule hoare_bind [where R = "\<lambda>_ s. True"])
   apply (rule hoare_stops [OF emits_openDevices]; simp)
  apply (simp only: split_paired_all prod.case)
  apply (rule hoare_seq [where R = "\<lambda>s. True"])
   apply (rule hoare_stops [OF emits_startCommandLoop]; simp)
  apply (rule hoare_bind [where R = "\<lambda>_ s. False"])
   apply (simp add: hoare_def parsePreferredRanges_eq assms(1))
  apply (rule hoare_False)
  done

lemma spec_preferredRanges_count:
  assumes "GetString c ''local_range'' [] \<noteq> []"
  shows "length (filter (\<lambda>r. String w r = String w (projr (ParseCIDR w (GetString c ''local_range'' []))))
            (spec_preferredRanges w c)) =
         max 1 (length (filter (\<lambda>r. String w r = String w (projr (ParseCIDR w (GetString c ''local_range'' []))))
            (map (\<lambda>r. projr (ParseCIDR w r)) (GetStringSlice c ''preferred_ranges'' []))))"
proof -
  let ?lr = "projr (ParseCIDR w (GetString c ''local_range'' []))"
  let ?parsed = "map (\<lambda>r. projr (ParseCIDR w r)) (GetStringSlice c ''preferred_ranges'' [])"
  show ?thesis
  proof (cases "String w ?lr \<in> String w ` set ?parsed")
    case True
    then obtain r where "r \<in> set ?parsed" "String w ?lr = String w r" by blast
    then have "\<exists>x\<in>set ?parsed. String w x = String w ?lr" by metis
    then have "filter (\<lambda>r. String w r = String w ?lr) ?parsed \<noteq> []"
      by (simp add: filter_empty_conv)
    then have "1 \<le> length (filter (\<lambda>r. String w r = String w ?lr) ?parsed)"
      by (cases "filter (\<lambda>r. String w r = String w ?lr) ?parsed") simp_all
    then show ?thesis using True assms unfolding spec_preferredRanges_def Let_def by simp
  next
    case False
    then have "\<forall>x\<in>set ?parsed. String w x \<noteq> String w ?lr" by (metis imageI)
    then have "filter (\<lambda>r. String w r = String w ?lr) ?parsed = []"
      by (simp add: filter_empty_conv)
    then show ?thesis using False assms unfolding spec_preferredRanges_def Let_def by simp
  qed
qed

text \<open>
  C3. When both options parse, lines 168 to 203 yield the parsed entries of
  \<open>preferred_ranges\<close>, followed by the parsed \<open>local_range\<close> if that is set and no entry
  has its string form; otherwise they return an error. In a run of \<open>Main\<close> the host map is
  only ever created with that list, and a parse failure of either option makes \<open>Main\<close>
  return an error (the certificate being one that carries an address, so that line 87
  does not panic first). The merge adds no duplicate: with \<open>local_range\<close> set, the list
  holds its string form once, or as often as \<open>preferred_ranges\<close> already did.
\<close>

theorem preferred_ranges_merged:
  "(rangesParse w c \<longrightarrow> parsePreferredRanges w c s = (Inr (spec_preferredRanges w c), s)) \<and>
   (\<not> rangesParse w c \<longrightarrow> (\<exists>err. parsePreferredRanges w c s = (Inl (Returned (Some err)), s))) \<and>
   (\<forall>hm. EvNewHostMap hm \<in>
           set (events (snd (Main w c ct block bv logFile tunFd cc (start e0 cas)))) \<longrightarrow>
         rangesParse w c \<and> (\<exists>tunCidr. hm = NewHostMap ''main'' tunCidr (spec_preferredRanges w c))) \<and>
   (\<not> rangesParse w c \<and>
    (\<forall>cs. NewCertStateFromConfig w c = Inr cs \<longrightarrow> Ips (certificate cs) \<noteq> []) \<longrightarrow>
    (\<exists>err. fst (Main w c ct block bv logFile tunFd cc (start e0 cas)) = Inl (Returned (Some err)))) \<and>
   (GetString c ''local_range'' [] \<noteq> [] \<longrightarrow>
    length (filter (\<lambda>r. String w r = String w (projr (ParseCIDR w (GetString c ''local_range'' []))))
            (spec_preferredRanges w c)) =
    max 1 (length (filter (\<lambda>r. String w r = String w (projr (ParseCIDR w (GetString c ''local_range'' []))))
            (map (\<lambda>r. projr (ParseCIDR w r)) (GetStringSlice c ''preferred_ranges'' [])))))"
proof (intro conjI allI impI)
  assume "rangesParse w c"
  then show "parsePreferredRanges w c s = (Inr (spec_preferredRanges w c), s)"
    by (simp add: parsePreferredRanges_eq)
next
  assume "\<not> rangesParse w c"
  then show "\<exists>err. parsePreferredRanges w c s = (Inl (Returned (Some err)), s)"
    by (simp add: parsePreferredRanges_eq)
next
  fix hm
  assume hm: "EvNewHostMap hm \<in> set (events (snd (Main w c ct block bv logFile tunFd cc (start e0 cas))))"
  from Main_post [of w c ct block bv logFile tunFd cc e0 cas] hm
  have "wf_event w c ct (EvNewHostMap hm)" unfolding endOfRun_def list_all_iff by blast
  then show "rangesParse w c" and "\<exists>tunCidr. hm = NewHostMap ''main'' tunCidr (spec_preferredRanges w c)"
    by simp_all
next
  assume a: "\<not> rangesParse w c \<and>
    (\<forall>cs. NewCertStateFromConfig w c = Inr cs \<longrightarrow> Ips (certificate cs) \<noteq> [])"
  obtain r s' where m: "Main w c ct block bv logFile tunFd cc (start e0 cas) = (r, s')"
    by (cases "Main w c ct block bv logFile tunFd cc (start e0 cas)")
  from a have "hoare (\<lambda>s. True) (Main w c ct block bv logFile tunFd cc) (\<lambda>_ s. False)
           (\<lambda>out s. out \<in> Collect returnsError)"
    by (intro Main_ranges_error) auto
  then have "case Main w c ct block bv logFile tunFd cc (start e0 cas) of
      (Inl out, s') \<Rightarrow> out \<in> Collect returnsError | (Inr x, s') \<Rightarrow> False"
    by (rule hoareD) simp
  with m obtain out where out: "r = Inl out" "returnsError out"
    by (cases r) auto
  then obtain err where "out = Returned (Some err)" by (cases out) auto
  with out m show "\<exists>err. fst (Main w c ct block bv logFile tunFd cc (start e0 cas)) = Inl (Returned (Some err))"
    by simp
next
  assume "GetString c ''local_range'' [] \<noteq> []"
  then show "length (filter (\<lambda>r. String w r = String w (projr (ParseCIDR w (GetString c ''local_range'' []))))
            (spec_preferredRanges w c)) =
    max 1 (length (filter (\<lambda>r. String w r = String w (projr (ParseCIDR w (GetString c ''local_range'' []))))
            (map (\<lambda>r. projr (ParseCIDR w r)) (GetStringSlice c ''preferred_ranges'' []))))"
    by (rule spec_preferredRanges_count)
qed

text \<open>
  C9. In a config test of a valid configuration (every check of \<open>Main\<close> that applies in a
  config test comes through), \<open>Main\<close> prints the marshalled configuration, the process
  exits with status 0, and no TUN device and no UDP listener is ever opened.
\<close>

theorem config_test_exits_zero:
  assumes "validConfigTest w c logFile"
  shows "fst (Main w c True block bv logFile tunFd cc (start e0 cas)) = Inl (Exited 0) \<and>
         Println (projr (yamlMarshal w (Settings c))) \<in>
           set (events (snd (Main w c True block bv logFile tunFd cc (start e0 cas)))) \<and>
         \<not> list_ex opens (events (snd (Main w c True block bv logFile tunFd cc (start e0 cas))))"
proof -
  let ?s = "snd (Main w c True block bv logFile tunFd cc (start e0 cas))"
  have out: "fst (Main w c True block bv logFile tunFd cc (start e0 cas)) = Inl (Exited 0)"
    using assms by (rule config_test_outcome)
  with Main_post [of w c True block bv logFile tunFd cc e0 cas]
  have post: "endOfRun w c True e0 (Exited 0) ?s" by auto
  then have wf: "list_all (wf_event w c True) (events ?s)" unfolding endOfRun_def by blast
  have "\<not> opens e" if "e \<in> set (events ?s)" for e
  proof -
    from wf that have "wf_event w c True e" unfolding list_all_iff by blast
    then show ?thesis by (cases e) simp_all
  qed
  then have no: "\<not> list_ex opens (events ?s)" unfolding list_ex_iff by blast
  from post have "printed w c True (events ?s)"
    unfolding endOfRun_def by (auto split: if_splits)
  moreover from assms obtain b where "yamlMarshal w (Settings c) = Inr b"
    unfolding validConfigTest_def by (cases "yamlMarshal w (Settings c)") auto
  ultimately have "Println (projr (yamlMarshal w (Settings c))) \<in> set (events ?s)"
    unfolding printed_def by auto
  with out no show ?thesis by blast
qed

subsection \<open>What a startup that comes through returns\<close>

lemma setupLogger_ok:
  assumes "logFile = [] \<or> OpenFile w logFile = None"
    and "ct \<longrightarrow> \<not> isl (yamlMarshal w (Settings c))"
    and "configLogger w c = None"
  shows "fst (setupLogger w c ct logFile s) = Inr ()"
  using assms unfolding setupLogger_def
  by (cases "yamlMarshal w (Settings c)")
     (auto simp: fst_M whenever_def split: option.splits)

lemma loadCerts_result:
  "fst (loadCerts w c s) =
     (case loadCAFromConfig w c of
        Inl err \<Rightarrow> Inl (Returned (Some (''failed to load ca from config: '' @ err)))
      | Inr cas \<Rightarrow>
     (case NewCertStateFromConfig w c of
        Inl err \<Rightarrow> Inl (Returned (Some (''failed to load certificate from config: '' @ err)))
      | Inr cs \<Rightarrow>
     (case NewFirewallFromConfig w (certificate cs) c of
        Inl err \<Rightarrow> Inl (Returned (Some (''error while loading firewall rules: '' @ err)))
      | Inr fw \<Rightarrow>
     (case Ips (certificate cs) of
        [] \<Rightarrow> Inl Panicked
      | tunCidr # _ \<Rightarrow>
     (case parseRoutes w c tunCidr of
        Inl err \<Rightarrow> Inl (Returned (Some (''could not parse tun.routes: '' @ err)))
      | Inr routes \<Rightarrow>
     (case parseUnsafeRoutes w c tunCidr of
        Inl err \<Rightarrow> Inl (Returned (Some (''could not parse tun.unsafe_routes: '' @ err)))
      | Inr unsafeRoutes \<Rightarrow>
     (case (if GetBool c ''sshd.enabled'' False then configSSH w (NewSSHServer w) c else None) of
        Some err \<Rightarrow> Inl (Returned (Some (''error while configuring the sshd: '' @ err)))
      | None \<Rightarrow> Inr (cs, fw, tunCidr, routes, unsafeRoutes, NewSSHServer w))))))))"
  unfolding loadCerts_def
  by (simp add: fst_M whenever_def Let_def split: sum.splits list.splits option.splits)

lemma openDevices_result:
  "fst (openDevices w c ct tunFd tunCidr routes unsafeRoutes s) =
     (if ct then Inr (None, GetInt c ''listen.routines'' 1, None)
      else
     (case (case tunFd of
              Some fd \<Rightarrow> newTunFromFd w fd tunCidr (GetInt c ''tun.mtu'' (DEFAULT_MTU w))
                           routes unsafeRoutes (GetInt c ''tun.tx_queue'' 500)
            | None \<Rightarrow> newTun w (GetString c ''tun.dev'' []) tunCidr
                         (GetInt c ''tun.mtu'' (DEFAULT_MTU w))
                         routes unsafeRoutes (GetInt c ''tun.tx_queue'' 500)) of
        Inl err \<Rightarrow> Inl (Returned (Some (''failed to get a tun/tap device: '' @ err)))
      | Inr tun \<Rightarrow>
     (case theListener w c of
        Inl err \<Rightarrow> Inl (Returned (Some (''failed to open udp listener: '' @ err)))
      | Inr u \<Rightarrow> Inr (Some tun, GetInt c ''listen.routines'' 1, Some u))))"
  unfolding openDevices_def theListener_def
  by (simp add: fst_M Let_def split: sum.splits option.splits)

text \<open>
  The checks of lines 65 to 148, with the logger set up: when loading the CA, the
  certificate, the firewall rules, the routes or the unsafe routes fails, or opening the
  TUN device or the UDP listener fails, \<open>Main\<close> returns one formatted error, the prefix of
  that step followed by the error of the call.
\<close>

lemma startup_errors_returned:
  assumes "logFile = [] \<or> OpenFile w logFile = None"
    and "ct \<longrightarrow> \<not> isl (yamlMarshal w (Settings c))"
    and "configLogger w c = None"
  shows
   "(\<forall>err. loadCAFromConfig w c = Inl err \<longrightarrow>
       fst (Main w c ct block bv logFile tunFd cc s) =
         Inl (Returned (Some (''failed to load ca from config: '' @ err)))) \<and>
    (\<forall>err. \<not> isl (loadCAFromConfig w c) \<and> NewCertStateFromConfig w c = Inl err \<longrightarrow>
       fst (Main w c ct block bv logFile tunFd cc s) =
         Inl (Returned (Some (''failed to load certificate from config: '' @ err)))) \<and>
    (\<forall>cs err. \<not> isl (loadCAFromConfig w c) \<and> NewCertStateFromConfig w c = Inr cs \<and>
       NewFirewallFromConfig w (certificate cs) c = Inl err \<longrightarrow>
       fst (Main w c ct block bv logFile tunFd cc s) =
         Inl (Returned (Some (''error while loading firewall rules: '' @ err)))) \<and>
    (\<forall>cs tunCidr more err. \<not> isl (loadCAFromConfig w c) \<and> NewCertStateFromConfig w c = Inr cs \<and>
       \<not> isl (NewFirewallFromConfig w (certificate cs) c) \<and>
       Ips (certificate cs) = tunCidr # more \<and> parseRoutes w c tunCidr = Inl err \<longrightarrow>
       fst (Main w c ct block bv logFile tunFd cc s) =
         Inl (Returned (Some (''could not parse tun.routes: '' @ err)))) \<and>
    (\<forall>cs tunCidr more err. \<not> isl (loadCAFromConfig w c) \<and> NewCertStateFromConfig w c = Inr cs \<and>
       \<not> isl (NewFirewallFromConfig w (certificate cs) c) \<and>
       Ips (certificate cs) = tunCidr # more \<and> \<not> isl (parseRoutes w c tunCidr) \<and>
       parseUnsafeRoutes w c tunCidr = Inl err \<longrightarrow>
       fst (Main w c ct block bv logFile tunFd cc s) =
         Inl (Returned (Some (''could not parse tun.unsafe_routes: '' @ err)))) \<and>
    (\<forall>cs tunCidr err. identityLoaded w c cs tunCidr \<and> \<not> ct \<and>
       theTun w c tunFd tunCidr = Inl err \<longrightarrow>
       fst (Main w c ct block bv logFile tunFd cc s) =
         Inl (Returned (Some (''failed to get a tun/tap device: '' @ err)))) \<and>
    (\<forall>cs tunCidr err. identityLoaded w c cs tunCidr \<and> \<not> ct \<and>
       \<not> isl (theTun w c tunFd tunCidr) \<and> theListener w c = Inl err \<longrightarrow>
       fst (Main w c ct block bv logFile tunFd cc s) =
         Inl (Returned (Some (''failed to open udp listener: '' @ err))))"
proof (intro conjI allI impI)
  note logger = setupLogger_ok [OF assms]
  have logger': "fst (setupLogger w c False logFile s1) = Inr ()" for s1
    using assms(1,3) by (intro setupLogger_ok) auto
  note ev = Main_def fst_bind fst_seq logger loadCerts_result openDevices_result
  {
    fix err
    assume "loadCAFromConfig w c = Inl err"
    then show "fst (Main w c ct block bv logFile tunFd cc s) =
         Inl (Returned (Some (''failed to load ca from config: '' @ err)))"
      by (simp add: ev)
  next
    fix err
    assume "\<not> isl (loadCAFromConfig w c) \<and> NewCertStateFromConfig w c = Inl err"
    then show "fst (Main w c ct block bv logFile tunFd cc s) =
         Inl (Returned (Some (''failed to load certificate from config: '' @ err)))"
      by (cases "loadCAFromConfig w c") (simp_all add: ev)
  next
    fix cs err
    assume "\<not> isl (loadCAFromConfig w c) \<and> NewCertStateFromConfig w c = Inr cs \<and>
       NewFirewallFromConfig w (certificate cs) c = Inl err"
    then show "fst (Main w c ct block bv logFile tunFd cc s) =
         Inl (Returned (Some (''error while loading firewall rules: '' @ err)))"
      by (cases "loadCAFromConfig w c") (simp_all add: ev)
  next
    fix cs tunCidr more err
    assume "\<not> isl (loadCAFromConfig w c) \<and> NewCertStateFromConfig w c = Inr cs \<and>
       \<not> isl (NewFirewallFromConfig w (certificate cs) c) \<and>
       Ips (certificate cs) = tunCidr # more \<and> parseRoutes w c tunCidr = Inl err"
    then show "fst (Main w c ct block bv logFile tunFd cc s) =
         Inl (Returned (Some (''could not parse tun.routes: '' @ err)))"
      by (cases "loadCAFromConfig w c"; cases "NewFirewallFromConfig w (certificate cs) c")
         (simp_all add: ev)
  next
    fix cs tunCidr more err
    assume "\<not> isl (loadCAFromConfig w c) \<and> NewCertStateFromConfig w c = Inr cs \<and>
       \<not> isl (NewFirewallFromConfig w (certificate cs) c) \<and>
       Ips (certificate cs) = tunCidr # more \<and> \<not> isl (parseRoutes w c tunCidr) \<and>
       parseUnsafeRoutes w c tunCidr = Inl err"
    then show "fst (Main w c ct block bv logFile tunFd cc s) =
         Inl (Returned (Some (''could not parse tun.unsafe_routes: '' @ err)))"
      by (cases "loadCAFromConfig w c"; cases "NewFirewallFromConfig w (certificate cs) c";
          cases "parseRoutes w c tunCidr")
         (simp_all add: ev)
  next
    fix cs tunCidr err
    assume a: "identityLoaded w c cs tunCidr \<and> \<not> ct \<and> theTun w c tunFd tunCidr = Inl err"
    then have "fst (loadCerts w c s1) =
        Inr (cs, projr (NewFirewallFromConfig w (certificate cs) c), tunCidr,
             projr (parseRoutes w c tunCidr), projr (parseUnsafeRoutes w c tunCidr),
             NewSSHServer w)" for s1
      unfolding identityLoaded_def
      by (cases "loadCAFromConfig w c"; cases "NewFirewallFromConfig w (certificate cs) c";
          cases "parseRoutes w c tunCidr"; cases "parseUnsafeRoutes w c tunCidr")
         (auto simp: loadCerts_result)
    with a show "fst (Main w c ct block bv logFile tunFd cc s) =
         Inl (Returned (Some (''failed to get a tun/tap device: '' @ err)))"
      unfolding theTun_def
      by (simp add: Main_def fst_bind fst_seq logger' openDevices_result)
  next
    fix cs tunCidr err
    assume a: "identityLoaded w c cs tunCidr \<and> \<not> ct \<and>
       \<not> isl (theTun w c tunFd tunCidr) \<and> theListener w c = Inl err"
    then have "fst (loadCerts w c s1) =
        Inr (cs, projr (NewFirewallFromConfig w (certificate cs) c), tunCidr,
             projr (parseRoutes w c tunCidr), projr (parseUnsafeRoutes w c tunCidr),
             NewSSHServer w)" for s1
      unfolding identityLoaded_def
      by (cases "loadCAFromConfig w c"; cases "NewFirewallFromConfig w (certificate cs) c";
          cases "parseRoutes w c tunCidr"; cases "parseUnsafeRoutes w c tunCidr")
         (auto simp: loadCerts_result)
    with a show "fst (Main w c ct block bv logFile tunFd cc s) =
         Inl (Returned (Some (''failed to open udp listener: '' @ err)))"
      unfolding theTun_def
      by (cases "case tunFd of
              Some fd \<Rightarrow> newTunFromFd w fd tunCidr (GetInt c ''tun.mtu'' (DEFAULT_MTU w))
                     (projr (parseRoutes w c tunCidr)) (projr (parseUnsafeRoutes w c tunCidr))
                     (GetInt c ''tun.tx_queue'' 500)
            | None \<Rightarrow> newTun w (GetString c ''tun.dev'' []) tunCidr (GetInt c ''tun.mtu'' (DEFAULT_MTU w))
                   (projr (parseRoutes w c tunCidr)) (projr (parseUnsafeRoutes w c tunCidr))
                   (GetInt c ''tun.tx_queue'' 500)")
         (simp_all add: Main_def fst_bind fst_seq logger' openDevices_result)
  }
qed

lemma appends_emits: "emits S Z m \<Longrightarrow> appends m"
  unfolding emits_def appends_def by blast

lemma appends_bind:
  assumes "appends m" and "\<And>x. appends (f x)"
  shows "appends (bind m f)"
  unfolding appends_def
proof
  fix s :: state
  obtain r s1 where m: "m s = (r, s1)" by (cases "m s")
  from assms(1) m obtain es where es: "events s1 = events s @ es"
    unfolding appends_def by (metis snd_conv)
  show "\<exists>es. events (snd (bind m f s)) = events s @ es"
  proof (cases r)
    case (Inl out)
    then show ?thesis using m es by (simp add: bind_def)
  next
    case (Inr x)
    from assms(2) [of x] obtain es' where "events (snd (f x s1)) = events s1 @ es'"
      unfolding appends_def by blast
    then show ?thesis using m Inr es by (simp add: bind_def)
  qed
qed

lemma appends_seq: "appends m \<Longrightarrow> appends k \<Longrightarrow> appends (seq m k)"
  unfolding seq_def by (rule appends_bind)

lemma appends_case_prod: "(\<And>a b. appends (f a b)) \<Longrightarrow> appends (case x of (a, b) \<Rightarrow> f a b)"
  by (cases x) simp

lemma appends_selectCipher: "appends (selectCipher cipher)"
  unfolding appends_def selectCipher_def by (simp add: M_defs)

lemma in_bind_known:
  "fst (m s) = Inr x \<Longrightarrow> e \<in> set (events (snd (f x (snd (m s))))) \<Longrightarrow>
   e \<in> set (events (snd (bind m f s)))"
  by (cases "m s") (simp add: bind_def)

lemma in_seq_known:
  "fst (m s) = Inr x \<Longrightarrow> e \<in> set (events (snd (k (snd (m s))))) \<Longrightarrow>
   e \<in> set (events (snd (seq m k s)))"
  unfolding seq_def by (rule in_bind_known)

lemma in_bind_here:
  assumes "e \<in> set (events (snd (m s)))" and "\<And>x. appends (f x)"
  shows "e \<in> set (events (snd (bind m f s)))"
proof -
  obtain r s1 where m: "m s = (r, s1)" by (cases "m s")
  show ?thesis
  proof (cases r)
    case (Inl out)
    then show ?thesis using m assms(1) by (simp add: bind_def)
  next
    case (Inr x)
    from assms(2) [of x] obtain es where "events (snd (f x s1)) = events s1 @ es"
      unfolding appends_def by blast
    then show ?thesis using m Inr assms(1) by (simp add: bind_def)
  qed
qed

lemma in_seq_here:
  "e \<in> set (events (snd (m s))) \<Longrightarrow> appends k \<Longrightarrow> e \<in> set (events (snd (seq m k s)))"
  unfolding seq_def by (rule in_bind_here)

lemmas appends_sections =
  appends_emits [OF emits_setupLogger] appends_emits [OF emits_loadCerts]
  appends_emits [OF emits_openDevices] appends_emits [OF emits_startCommandLoop]
  appends_emits [OF emits_parsePreferredRanges] appends_emits [OF emits_newMainHostMap]
  appends_emits [OF emits_discoverPort] appends_emits [OF emits_parseLighthouseHosts]
  appends_emits [OF emits_newLightHouse] appends_emits [OF emits_loadStaticHostMap]
  appends_emits [OF emits_newInterfaceConfig] appends_selectCipher
  appends_emits [OF emits_startInterface] appends_emits [OF emits_runInterface]

lemmas appends_intros = appends_bind appends_seq appends_case_prod appends_sections

text \<open>What the sections return when startup comes through as far as the lighthouse.\<close>

lemma reaches_cert:
  assumes "reachesLighthouse w c logFile tunFd"
  shows "NewCertStateFromConfig w c = Inr (theCert w c)"
    and "\<exists>more. Ips (certificate (theCert w c)) = theCidr w c # more"
  using assms unfolding reachesLighthouse_def theCert_def theCidr_def
  by (auto split: sum.splits list.splits)

lemma reaches_facts:
  assumes "reachesLighthouse w c logFile tunFd"
  shows "logFile = [] \<or> OpenFile w logFile = None"
    "configLogger w c = None"
    "\<not> isl (loadCAFromConfig w c)"
    "\<not> isl (NewFirewallFromConfig w (certificate (theCert w c)) c)"
    "\<not> isl (parseRoutes w c (theCidr w c))"
    "\<not> isl (parseUnsafeRoutes w c (theCidr w c))"
    "GetBool c ''sshd.enabled'' False \<longrightarrow> configSSH w (NewSSHServer w) c = None"
    "\<not> isl (theTun w c tunFd (theCidr w c))"
    "\<not> isl (theListener w c)"
    "GetInt c ''listen.port'' 0 = 0 \<longrightarrow> \<not> isl (LocalAddr w (projr (theListener w c)))"
    "rangesParse w c"
    "list_all (\<lambda>host. Contains w (theCidr w c) (ParseIP w host))
       (GetStringSlice c ''lighthouse.hosts'' [])"
  using assms unfolding reachesLighthouse_def theCert_def theCidr_def
  by (auto split: sum.splits list.splits)

lemma value_setupLogger:
  assumes "reachesLighthouse w c logFile tunFd"
  shows "fst (setupLogger w c False logFile s) = Inr ()"
  using reaches_facts(1,2) [OF assms] by (intro setupLogger_ok) auto

lemma value_loadCerts:
  assumes "reachesLighthouse w c logFile tunFd"
  shows "fst (loadCerts w c s) =
     Inr (theCert w c, projr (NewFirewallFromConfig w (certificate (theCert w c)) c),
          theCidr w c, projr (parseRoutes w c (theCidr w c)),
          projr (parseUnsafeRoutes w c (theCidr w c)), NewSSHServer w)"
  using reaches_facts(3,4,5,6,7) [OF assms] reaches_cert [OF assms]
  by (cases "loadCAFromConfig w c";
      cases "NewFirewallFromConfig w (certificate (theCert w c)) c";
      cases "parseRoutes w c (theCidr w c)"; cases "parseUnsafeRoutes w c (theCidr w c)")
     (auto simp: loadCerts_result)

lemma value_openDevices:
  assumes "reachesLighthouse w c logFile tunFd"
  shows "fst (openDevices w c False tunFd (theCidr w c) (projr (parseRoutes w c (theCidr w c)))
            (projr (parseUnsafeRoutes w c (theCidr w c))) s) =
     Inr (Some (projr (theTun w c tunFd (theCidr w c))), GetInt c ''listen.routines'' 1,
          Some (projr (theListener w c)))"
  using reaches_facts(8,9) [OF assms]
  by (cases "theTun w c tunFd (theCidr w c)"; cases "theListener w c")
     (auto simp: openDevices_result theTun_def split: option.splits)

lemma value_startCommandLoop: "fst (startCommandLoop cc u s) = Inr ()"
  unfolding startCommandLoop_def by (simp add: fst_M split: option.splits)

lemma value_parsePreferredRanges:
  assumes "reachesLighthouse w c logFile tunFd"
  shows "fst (parsePreferredRanges w c s) = Inr (spec_preferredRanges w c)"
  using reaches_facts(11) [OF assms] by (simp add: parsePreferredRanges_eq)

lemma value_newMainHostMap:
  "fst (newMainHostMap w c ct tunCidr prs ur u s) =
     Inr (NewHostMap ''main'' tunCidr prs, NewPunchyFromConfig w c)"
  unfolding newMainHostMap_def by (simp add: fst_M Let_def whenever_def)

lemma value_discoverPort:
  assumes "reachesLighthouse w c logFile tunFd"
  shows "fst (discoverPort w c False (Some (projr (theListener w c))) s) = Inr (thePort w c)"
  using reaches_facts(10) [OF assms]
  unfolding discoverPort_def thePort_def
  by (cases "LocalAddr w (projr (theListener w c))") (auto simp: fst_M Let_def)

lemma value_parseLighthouseHosts:
  assumes "reachesLighthouse w c logFile tunFd"
  shows "fst (parseLighthouseHosts w c (theCidr w c) s) =
     Inr (GetBool c ''lighthouse.am_lighthouse'' False,
          map (\<lambda>host. ip2int w (ParseIP w host)) (GetStringSlice c ''lighthouse.hosts'' []))"
  using reaches_facts(12) [OF assms] unfolding parseLighthouseHosts_def
  by (simp add: fst_M Let_def whenever_def lighthouseHostsLoop_ok)

lemma valid_reaches: "validStartup w c logFile tunFd \<Longrightarrow> reachesLighthouse w c logFile tunFd"
  by (simp add: validStartup_def)

lemma value_newLightHouse:
  assumes "\<not> isl (GetAllowList c ''lighthouse.remote_allow_list'' False)"
    and "\<not> isl (GetAllowList c ''lighthouse.local_allow_list'' True)"
  shows "fst (newLightHouse w c am tunCidr hs port u p s) =
     Inr (NewLightHouse am (ip2int w (netIP tunCidr)) hs (GetInt c ''lighthouse.interval'' 10)
            port u (Respond p) (Delay p))"
  using assms unfolding newLightHouse_def
  by (cases "GetAllowList c ''lighthouse.remote_allow_list'' False";
      cases "GetAllowList c ''lighthouse.local_allow_list'' True")
     (simp_all add: fst_M Let_def)

lemma value_loadStaticHostMap:
  assumes "list_all (staticEntryOk w tunCidr) (GetMap c ''static_host_map'' [])"
  shows "fst (loadStaticHostMap w c tunCidr lh s) = Inr ()"
  using assms unfolding loadStaticHostMap_def
  by (simp add: fst_M staticHostMapLoop_ok split: option.splits)

lemma value_selectCipher: "fst (selectCipher cipher s) = Inr ()"
  unfolding selectCipher_def by (simp add: fst_M)

lemma value_startInterface:
  assumes "\<not> isl (NewInterface w ic)"
  shows "fst (startInterface w c False ic hm lh s) = Inr (Some (projr (NewInterface w ic)))"
  using assms unfolding startInterface_def
  by (cases "NewInterface w ic") (simp_all add: fst_M split: option.splits)

lemma value_newInterfaceConfig:
  "fst (newInterfaceConfig w c (theCidr w c) (spec_preferredRanges w c)
          (NewHostMap ''main'' (theCidr w c) (spec_preferredRanges w c)) (theLightHouse w c)
          (Some (projr (theTun w c tunFd (theCidr w c)))) (Some (projr (theListener w c)))
          (theCert w c) (projr (NewFirewallFromConfig w (certificate (theCert w c)) c)) s) =
     Inr (theHandshakeManager w c, theInterfaceConfig w c tunFd)"
  by (simp add: newInterfaceConfig_result theHandshakeManager_def theInterfaceConfig_def
      theHostMap_def)


lemma event_parseLighthouseHosts:
  assumes "GetBool c ''lighthouse.am_lighthouse'' False"
    and "GetStringSlice c ''lighthouse.hosts'' [] \<noteq> []"
  shows "Log Warn
      ''lighthouse.am_lighthouse enabled on node but upstream lighthouses exist in config''
    \<in> set (events (snd (parseLighthouseHosts w c tunCidr s)))"
proof -
  let ?warn = "Log Warn
      ''lighthouse.am_lighthouse enabled on node but upstream lighthouses exist in config''"
  have 1: "?warn \<in> set (events (snd (emit ?warn s)))" by (simp add: emit_def)
  have 2: "appends (bind (lighthouseHostsLoop w tunCidr (GetStringSlice c ''lighthouse.hosts'' []))
       (\<lambda>lighthouseHosts. ret (GetBool c ''lighthouse.am_lighthouse'' False, lighthouseHosts)))"
    by (intro appends_bind appends_emits [OF emits_lighthouseHostsLoop] appends_emits [OF emits_ret])
  from in_seq_here [where m = "emit ?warn" and s = s, OF 1 2] assms show ?thesis
    unfolding parseLighthouseHosts_def Let_def by simp
qed

lemma event_newLightHouse:
  "EvNewLightHouse (NewLightHouse am (ip2int w (netIP tunCidr)) hs
       (GetInt c ''lighthouse.interval'' 10) port u (Respond p) (Delay p))
     \<in> set (events (snd (newLightHouse w c am tunCidr hs port u p s)))"
  unfolding newLightHouse_def Let_def
  by (auto simp: M_defs split: sum.splits)

lemma event_newInterfaceConfig:
  "EvNewHandshakeManager (theHandshakeManager w c)
     \<in> set (events (snd (newInterfaceConfig w c (theCidr w c) (spec_preferredRanges w c)
          (NewHostMap ''main'' (theCidr w c) (spec_preferredRanges w c)) (theLightHouse w c)
          tun (Some (projr (theListener w c))) cs fw s)))"
  unfolding newInterfaceConfig_def Let_def theHandshakeManager_def theHostMap_def
  by (simp add: M_defs)

lemma event_startInterface:
  "EvNewInterface ic \<in> set (events (snd (startInterface w c False ic hm lh s)))"
  unfolding startInterface_def
  by (auto simp: M_defs split: sum.splits option.splits)

lemma appends_shutdownBlock: "appends (shutdownBlock hosts received)"
  by (rule appends_emits [OF emits_shutdownBlock])

lemma runInterface_snd:
  "snd (runInterface w c block bv cc (Some ifce) ssh hostMap hm lh q am dns s) =
     (if block
      then snd (shutdownBlock (Hosts w ifce) (selectReceives w cc)
             (s\<lparr>events := events s @
                [Go (EmitStats ifce (GetDuration c ''stats.interval'' (10 * 1000000000))),
                 AttachCommands ssh hostMap hm lh ifce,
                 InterfaceRun ifce (GetInt c ''tun.routines'' 1) q bv] @
                (if am \<and> dns then [Log Debug ''Starting dns server'', Go (DnsMain hostMap)]
                 else [])\<rparr>))
      else s\<lparr>events := events s @
                [Go (EmitStats ifce (GetDuration c ''stats.interval'' (10 * 1000000000))),
                 AttachCommands ssh hostMap hm lh ifce,
                 InterfaceRun ifce (GetInt c ''tun.routines'' 1) q bv] @
                (if am \<and> dns then [Log Debug ''Starting dns server'', Go (DnsMain hostMap)]
                 else []) @ [Go (ShutdownBlock ifce)]\<rparr>)"
  unfolding runInterface_def
  by (cases "shutdownBlock (Hosts w ifce) (selectReceives w cc)
             (s\<lparr>events := events s @
                [Go (EmitStats ifce (GetDuration c ''stats.interval'' (10 * 1000000000))),
                 AttachCommands ssh hostMap hm lh ifce,
                 InterfaceRun ifce (GetInt c ''tun.routines'' 1) q bv] @
                (if am \<and> dns then [Log Debug ''Starting dns server'', Go (DnsMain hostMap)]
                 else [])\<rparr>)")
     (auto simp: M_defs whenever_def split: sum.splits)

lemma shutdownBlock_fst:
  "fst (shutdownBlock hosts rcv s) =
     (case rcv of
        None \<Rightarrow> Inl Blocked
      | Some r \<Rightarrow> if list_all (\<lambda>(k, h). ConnectionState h \<noteq> None) hosts then Inr ()
                  else Inl Panicked)"
proof (cases rcv)
  case None
  then show ?thesis by (simp add: shutdownBlock_None)
next
  case (Some r)
  have ct: "fst (closeTunnels hosts s1) =
      (if list_all (\<lambda>(k, h). ConnectionState h \<noteq> None) hosts then Inr () else Inl Panicked)" for s1
    by (induction hosts arbitrary: s1)
       (auto simp: fst_M whenever_def split: option.splits)
  show ?thesis
    using Some by (simp add: shutdownBlock_def fst_M ct Let_def split: option.splits)
qed

lemma runInterface_fst:
  "fst (runInterface w c block bv cc (Some ifce) ssh hostMap hm lh q am dns s) =
     (if block
      then (case selectReceives w cc of
              None \<Rightarrow> Inl Blocked
            | Some r \<Rightarrow> if list_all (\<lambda>(k, h). ConnectionState h \<noteq> None) (Hosts w ifce)
                        then Inl (Returned None) else Inl Panicked)
      else Inl (Returned None))"
  unfolding runInterface_def
  by (simp add: fst_M whenever_def shutdownBlock_fst split: option.splits)

lemma value_newMainHostMap':
  "fst (newMainHostMap w c ct (theCidr w c) (spec_preferredRanges w c) ur u s) =
     Inr (theHostMap w c, NewPunchyFromConfig w c)"
  by (simp add: value_newMainHostMap theHostMap_def)

lemma value_newLightHouse':
  assumes "validStartup w c logFile tunFd"
  shows "fst (newLightHouse w c (GetBool c ''lighthouse.am_lighthouse'' False) (theCidr w c)
            (map (\<lambda>host. ip2int w (ParseIP w host)) (GetStringSlice c ''lighthouse.hosts'' []))
            (thePort w c) (Some (projr (theListener w c))) (NewPunchyFromConfig w c) s) =
     Inr (theLightHouse w c)"
  using assms by (simp add: validStartup_def value_newLightHouse theLightHouse_def)

lemma value_loadStaticHostMap':
  assumes "validStartup w c logFile tunFd"
  shows "fst (loadStaticHostMap w c (theCidr w c) lh s) = Inr ()"
  using assms by (simp add: validStartup_def value_loadStaticHostMap)

lemma value_newInterfaceConfig':
  "fst (newInterfaceConfig w c (theCidr w c) (spec_preferredRanges w c) (theHostMap w c)
          (theLightHouse w c) (Some (projr (theTun w c tunFd (theCidr w c))))
          (Some (projr (theListener w c))) (theCert w c)
          (projr (NewFirewallFromConfig w (certificate (theCert w c)) c)) s) =
     Inr (theHandshakeManager w c, theInterfaceConfig w c tunFd)"
  using value_newInterfaceConfig [of w c tunFd s] by (simp add: theHostMap_def)

lemma value_startInterface':
  assumes "validStartup w c logFile tunFd"
  shows "fst (startInterface w c False (theInterfaceConfig w c tunFd) hm lh s) =
     Inr (Some (theInterface w c tunFd))"
  using assms by (simp add: validStartup_def value_startInterface theInterface_def)

lemma event_newLightHouse':
  "EvNewLightHouse (theLightHouse w c)
     \<in> set (events (snd (newLightHouse w c (GetBool c ''lighthouse.am_lighthouse'' False)
          (theCidr w c)
          (map (\<lambda>host. ip2int w (ParseIP w host)) (GetStringSlice c ''lighthouse.hosts'' []))
          (thePort w c) (Some (projr (theListener w c))) (NewPunchyFromConfig w c) s)))"
  unfolding theLightHouse_def by (rule event_newLightHouse)


lemma Main_warn_event:
  assumes r: "reachesLighthouse w c logFile tunFd"
    and "GetBool c ''lighthouse.am_lighthouse'' False"
    and "GetStringSlice c ''lighthouse.hosts'' [] \<noteq> []"
  shows "Log Warn
      ''lighthouse.am_lighthouse enabled on node but upstream lighthouses exist in config''
     \<in> set (events (snd (Main w c False block bv logFile tunFd cc s)))"
  unfolding Main_def
  apply (rule in_seq_known, rule value_setupLogger [OF r])
  apply (rule in_bind_known, rule value_loadCerts [OF r])
  apply (simp only: prod.case)
  apply (rule in_bind_known, rule value_openDevices [OF r])
  apply (simp only: prod.case)
  apply (rule in_seq_known, rule value_startCommandLoop)
  apply (rule in_bind_known, rule value_parsePreferredRanges [OF r])
  apply (rule in_bind_known, rule value_newMainHostMap')
  apply (simp only: prod.case)
  apply (rule in_bind_known, rule value_discoverPort [OF r])
  apply (rule in_bind_here, rule event_parseLighthouseHosts [OF assms(2,3)])
  apply (intro appends_intros)
  done

lemma Main_lighthouse_event:
  assumes r: "reachesLighthouse w c logFile tunFd"
  shows "EvNewLightHouse (theLightHouse w c)
     \<in> set (events (snd (Main w c False block bv logFile tunFd cc s)))"
  unfolding Main_def
  apply (rule in_seq_known, rule value_setupLogger [OF r])
  apply (rule in_bind_known, rule value_loadCerts [OF r])
  apply (simp only: prod.case)
  apply (rule in_bind_known, rule value_openDevices [OF r])
  apply (simp only: prod.case)
  apply (rule in_seq_known, rule value_startCommandLoop)
  apply (rule in_bind_known, rule value_parsePreferredRanges [OF r])
  apply (rule in_bind_known, rule value_newMainHostMap')
  apply (simp only: prod.case)
  apply (rule in_bind_known, rule value_discoverPort [OF r])
  apply (rule in_bind_known, rule value_parseLighthouseHosts [OF r])
  apply (simp only: prod.case)
  apply (rule in_bind_here, rule event_newLightHouse')
  apply (intro appends_intros)
  done

text \<open>Events of a run whose startup comes through.\<close>

lemma Main_interface_event:
  assumes v: "validStartup w c logFile tunFd"
  shows "EvNewInterface (theInterfaceConfig w c tunFd)
     \<in> set (events (snd (Main w c False block bv logFile tunFd cc s)))"
proof -
  note r = valid_reaches [OF v]
  show ?thesis
  unfolding Main_def
  apply (rule in_seq_known, rule value_setupLogger [OF r])
  apply (rule in_bind_known, rule value_loadCerts [OF r])
  apply (simp only: prod.case)
  apply (rule in_bind_known, rule value_openDevices [OF r])
  apply (simp only: prod.case)
  apply (rule in_seq_known, rule value_startCommandLoop)
  apply (rule in_bind_known, rule value_parsePreferredRanges [OF r])
  apply (rule in_bind_known, rule value_newMainHostMap')
  apply (simp only: prod.case)
  apply (rule in_bind_known, rule value_discoverPort [OF r])
  apply (rule in_bind_known, rule value_parseLighthouseHosts [OF r])
  apply (simp only: prod.case)
  apply (rule in_bind_known, rule value_newLightHouse' [OF v])
  apply (rule in_seq_known, rule value_loadStaticHostMap' [OF v])
  apply (rule in_bind_known, rule value_newInterfaceConfig')
  apply (simp only: prod.case)
  apply (rule in_seq_known, rule value_selectCipher)
  apply (rule in_bind_here, rule event_startInterface)
  apply (intro appends_intros)
  done
qed

lemma Main_run_event:
  assumes v: "validStartup w c logFile tunFd"
    and e: "\<And>s'. e \<in> set (events (snd (runInterface w c block bv cc
        (Some (theInterface w c tunFd)) (NewSSHServer w) (theHostMap w c)
        (theHandshakeManager w c) (theLightHouse w c) (GetInt c ''listen.routines'' 1)
        (GetBool c ''lighthouse.am_lighthouse'' False)
        (ServeDns (theInterfaceConfig w c tunFd)) s')))"
  shows "e \<in> set (events (snd (Main w c False block bv logFile tunFd cc s)))"
proof -
  note r = valid_reaches [OF v]
  show ?thesis
  unfolding Main_def
  apply (rule in_seq_known, rule value_setupLogger [OF r])
  apply (rule in_bind_known, rule value_loadCerts [OF r])
  apply (simp only: prod.case)
  apply (rule in_bind_known, rule value_openDevices [OF r])
  apply (simp only: prod.case)
  apply (rule in_seq_known, rule value_startCommandLoop)
  apply (rule in_bind_known, rule value_parsePreferredRanges [OF r])
  apply (rule in_bind_known, rule value_newMainHostMap')
  apply (simp only: prod.case)
  apply (rule in_bind_known, rule value_discoverPort [OF r])
  apply (rule in_bind_known, rule value_parseLighthouseHosts [OF r])
  apply (simp only: prod.case)
  apply (rule in_bind_known, rule value_newLightHouse' [OF v])
  apply (rule in_seq_known, rule value_loadStaticHostMap' [OF v])
  apply (rule in_bind_known, rule value_newInterfaceConfig')
  apply (simp only: prod.case)
  apply (rule in_seq_known, rule value_selectCipher)
  apply (rule in_bind_known, rule value_startInterface' [OF v])
  apply (rule e)
  done
qed

lemma Main_valid_outcome:
  assumes v: "validStartup w c logFile tunFd"
  shows "fst (Main w c False block bv logFile tunFd cc s) =
     (if block
      then (case selectReceives w cc of
              None \<Rightarrow> Inl Blocked
            | Some r \<Rightarrow>
                if list_all (\<lambda>(k, h). ConnectionState h \<noteq> None) (Hosts w (theInterface w c tunFd))
                then Inl (Returned None) else Inl Panicked)
      else Inl (Returned None))"
proof -
  note r = valid_reaches [OF v]
  show ?thesis
    unfolding Main_def
    by (simp add: fst_bind fst_seq value_setupLogger [OF r] value_loadCerts [OF r]
        value_openDevices [OF r] value_startCommandLoop value_parsePreferredRanges [OF r]
        value_newMainHostMap' value_discoverPort [OF r] value_parseLighthouseHosts [OF r]
        value_newLightHouse' [OF v] value_loadStaticHostMap' [OF v] value_newInterfaceConfig'
        value_selectCipher value_startInterface' [OF v] runInterface_fst)
qed

subsection \<open>The port and the lighthouse\<close>

text \<open>
  C6. With \<open>listen.port\<close> 0 (or unset) and outside a config test. In every run of \<open>Main\<close>,
  a lighthouse that \<open>Main\<close> creates gets the port of the local address of the listener
  that \<open>Main\<close> opened, and that is not 0 when the listener reports a port that is not 0.
  And \<open>Main\<close> does create the lighthouse with that port, and with that listener, when
  startup comes through as far as line 252: the hypothesis is about what the calls before
  that line return, and says nothing of the lighthouse.
\<close>

theorem listen_port_discovered:
  assumes "GetInt c ''listen.port'' 0 = 0"
  shows "(\<forall>lh. EvNewLightHouse lh
            \<in> set (events (snd (Main w c False block bv logFile tunFd cc (start order cas)))) \<longrightarrow>
          (\<exists>u a. NewListener w (GetString c ''listen.host'' ''0.0.0.0'') 0
                    (GetInt c ''listen.routines'' 1 > 1) = Inr u \<and>
                  LocalAddr w u = Inr a \<and> lhPort lh = uint (addrPort a) \<and>
                  (addrPort a \<noteq> 0 \<longrightarrow> lhPort lh \<noteq> 0))) \<and>
         (reachesLighthouse w c logFile tunFd \<longrightarrow>
          (\<exists>u a. NewListener w (GetString c ''listen.host'' ''0.0.0.0'') 0
                    (GetInt c ''listen.routines'' 1 > 1) = Inr u \<and>
                  LocalAddr w u = Inr a \<and>
                  EvNewLightHouse
                    (NewLightHouse (GetBool c ''lighthouse.am_lighthouse'' False)
                       (ip2int w (netIP (theCidr w c)))
                       (map (\<lambda>host. ip2int w (ParseIP w host))
                          (GetStringSlice c ''lighthouse.hosts'' []))
                       (GetInt c ''lighthouse.interval'' 10) (uint (addrPort a)) (Some u)
                       (Respond (NewPunchyFromConfig w c)) (Delay (NewPunchyFromConfig w c)))
                    \<in> set (events (snd (Main w c False block bv logFile tunFd cc (start order cas)))) \<and>
                  (addrPort a \<noteq> 0 \<longrightarrow> uint (addrPort a) \<noteq> 0)))"
proof (intro conjI allI impI)
  fix lh
  assume lh: "EvNewLightHouse lh
            \<in> set (events (snd (Main w c False block bv logFile tunFd cc (start order cas))))"
  from Main_post [of w c False block bv logFile tunFd cc order cas]
  have "list_all (wf_event w c False)
      (events (snd (Main w c False block bv logFile tunFd cc (start order cas))))"
    unfolding endOfRun_def by blast
  with lh have "wf_event w c False (EvNewLightHouse lh)"
    unfolding list_all_iff by blast
  then have "portFact w c False (lhPort lh)" by simp
  with assms obtain u a where ua: "theListener w c = Inr u" "LocalAddr w u = Inr a"
      "lhPort lh = uint (addrPort a)"
    unfolding portFact_def by auto
  have "addrPort a \<noteq> 0 \<longrightarrow> lhPort lh \<noteq> 0"
    using ua(3) by (simp add: uint_0_iff)
  with ua assms show "\<exists>u a. NewListener w (GetString c ''listen.host'' ''0.0.0.0'') 0
                    (GetInt c ''listen.routines'' 1 > 1) = Inr u \<and>
                  LocalAddr w u = Inr a \<and> lhPort lh = uint (addrPort a) \<and>
                  (addrPort a \<noteq> 0 \<longrightarrow> lhPort lh \<noteq> 0)"
    unfolding theListener_def by auto
next
  assume r: "reachesLighthouse w c logFile tunFd"
  from reaches_facts(9) [OF r] obtain u where u: "theListener w c = Inr u"
    by (cases "theListener w c") auto
  from reaches_facts(10) [OF r] assms u obtain a where a: "LocalAddr w u = Inr a"
    by (cases "LocalAddr w u") auto
  from assms u a have p: "thePort w c = uint (addrPort a)" by (simp add: thePort_def)
  from Main_lighthouse_event [OF r, of block bv cc "start order cas"]
  have "EvNewLightHouse
          (NewLightHouse (GetBool c ''lighthouse.am_lighthouse'' False)
             (ip2int w (netIP (theCidr w c)))
             (map (\<lambda>host. ip2int w (ParseIP w host)) (GetStringSlice c ''lighthouse.hosts'' []))
             (GetInt c ''lighthouse.interval'' 10) (uint (addrPort a)) (Some u)
             (Respond (NewPunchyFromConfig w c)) (Delay (NewPunchyFromConfig w c)))
          \<in> set (events (snd (Main w c False block bv logFile tunFd cc (start order cas))))"
    by (simp add: theLightHouse_def p u)
  moreover have "addrPort a \<noteq> 0 \<longrightarrow> uint (addrPort a) \<noteq> 0" by (simp add: uint_0_iff)
  ultimately show "\<exists>u a. NewListener w (GetString c ''listen.host'' ''0.0.0.0'') 0
                    (GetInt c ''listen.routines'' 1 > 1) = Inr u \<and>
                  LocalAddr w u = Inr a \<and>
                  EvNewLightHouse
                    (NewLightHouse (GetBool c ''lighthouse.am_lighthouse'' False)
                       (ip2int w (netIP (theCidr w c)))
                       (map (\<lambda>host. ip2int w (ParseIP w host))
                          (GetStringSlice c ''lighthouse.hosts'' []))
                       (GetInt c ''lighthouse.interval'' 10) (uint (addrPort a)) (Some u)
                       (Respond (NewPunchyFromConfig w c)) (Delay (NewPunchyFromConfig w c)))
                    \<in> set (events (snd (Main w c False block bv logFile tunFd cc (start order cas)))) \<and>
                  (addrPort a \<noteq> 0 \<longrightarrow> uint (addrPort a) \<noteq> 0)"
    using u a assms unfolding theListener_def by auto
qed

text \<open>
  C10. With \<open>lighthouse.am_lighthouse\<close> set and \<open>lighthouse.hosts\<close> not empty. The block
  that reads the hosts goes on as it does otherwise: when every host lies in the subnet
  it returns the parsed hosts. In every run of \<open>Main\<close>, a lighthouse that \<open>Main\<close> creates is
  created as a lighthouse with exactly the parsed upstream hosts, after the warning. When
  startup comes through as far as line 252, \<open>Main\<close> logs the warning and creates that
  lighthouse; when startup comes through altogether, \<open>Main\<close> creates the interface with
  that lighthouse and runs it, and returns \<open>nil\<close> when it is not to block; and in a config
  test of a valid configuration \<open>Main\<close> logs the warning and the process exits with status 0.
\<close>

theorem lighthouse_with_upstream_hosts:
  assumes "GetBool c ''lighthouse.am_lighthouse'' False"
    and "GetStringSlice c ''lighthouse.hosts'' [] \<noteq> []"
  shows "(list_all (\<lambda>host. Contains w tunCidr (ParseIP w host))
            (GetStringSlice c ''lighthouse.hosts'' []) \<longrightarrow>
          fst (parseLighthouseHosts w c tunCidr s) =
            Inr (True, map (\<lambda>host. ip2int w (ParseIP w host))
                         (GetStringSlice c ''lighthouse.hosts'' []))) \<and>
         (\<forall>lh. EvNewLightHouse lh \<in>
                 set (events (snd (Main w c ct block bv logFile tunFd cc (start order cas)))) \<longrightarrow>
               lhAmLighthouse lh \<and>
               lhHosts lh = map (\<lambda>host. ip2int w (ParseIP w host))
                              (GetStringSlice c ''lighthouse.hosts'' []) \<and>
               Log Warn
                ''lighthouse.am_lighthouse enabled on node but upstream lighthouses exist in config''
               \<in> set (events (snd (Main w c ct block bv logFile tunFd cc (start order cas))))) \<and>
         (reachesLighthouse w c logFile tunFd \<longrightarrow>
            Log Warn
              ''lighthouse.am_lighthouse enabled on node but upstream lighthouses exist in config''
              \<in> set (events (snd (Main w c False block bv logFile tunFd cc (start order cas)))) \<and>
            (\<exists>lh. EvNewLightHouse lh
                \<in> set (events (snd (Main w c False block bv logFile tunFd cc (start order cas)))) \<and>
              lhAmLighthouse lh \<and>
              lhHosts lh = map (\<lambda>host. ip2int w (ParseIP w host))
                             (GetStringSlice c ''lighthouse.hosts'' []))) \<and>
         (validStartup w c logFile tunFd \<longrightarrow>
            (\<exists>ic. EvNewInterface ic
                \<in> set (events (snd (Main w c False block bv logFile tunFd cc (start order cas)))) \<and>
              lhAmLighthouse (lightHouse ic) \<and>
              lhHosts (lightHouse ic) = map (\<lambda>host. ip2int w (ParseIP w host))
                                          (GetStringSlice c ''lighthouse.hosts'' [])) \<and>
            (\<exists>ifce. InterfaceRun ifce (GetInt c ''tun.routines'' 1)
                       (GetInt c ''listen.routines'' 1) bv
                \<in> set (events (snd (Main w c False block bv logFile tunFd cc (start order cas))))) \<and>
            fst (Main w c False False bv logFile tunFd cc (start order cas)) = Inl (Returned None)) \<and>
         (validConfigTest w c logFile \<longrightarrow>
            fst (Main w c True block bv logFile tunFd cc (start order cas)) = Inl (Exited 0) \<and>
            Log Warn
              ''lighthouse.am_lighthouse enabled on node but upstream lighthouses exist in config''
              \<in> set (events (snd (Main w c True block bv logFile tunFd cc (start order cas)))))"
proof (intro conjI allI impI)
  assume ok: "list_all (\<lambda>host. Contains w tunCidr (ParseIP w host))
            (GetStringSlice c ''lighthouse.hosts'' [])"
  show "fst (parseLighthouseHosts w c tunCidr s) =
            Inr (True, map (\<lambda>host. ip2int w (ParseIP w host))
                         (GetStringSlice c ''lighthouse.hosts'' []))"
    using assms ok by (simp add: parseLighthouseHosts_def Let_def fst_M lighthouseHostsLoop_ok)
next
  fix lh
  let ?es = "events (snd (Main w c ct block bv logFile tunFd cc (start order cas)))"
  assume lh: "EvNewLightHouse lh \<in> set ?es"
  from Main_post [of w c ct block bv logFile tunFd cc order cas]
  obtain out where post: "endOfRun w c ct order out
      (snd (Main w c ct block bv logFile tunFd cc (start order cas)))"
    by blast
  from lh have ex: "list_ex isNewLightHouse ?es" unfolding list_ex_iff by force
  from post lh have "wf_event w c ct (EvNewLightHouse lh)"
    unfolding endOfRun_def list_all_iff by blast
  then have h: "hostsFact w c (lhAmLighthouse lh) (lhHosts lh)" by simp
  from post ex have "warned c ?es" unfolding endOfRun_def by (auto split: if_splits)
  with assms h
  show "lhAmLighthouse lh"
    and "lhHosts lh = map (\<lambda>host. ip2int w (ParseIP w host)) (GetStringSlice c ''lighthouse.hosts'' [])"
    and "Log Warn
          ''lighthouse.am_lighthouse enabled on node but upstream lighthouses exist in config''
         \<in> set ?es"
    unfolding hostsFact_def warned_def by auto
next
  assume r: "reachesLighthouse w c logFile tunFd"
  show "Log Warn
      ''lighthouse.am_lighthouse enabled on node but upstream lighthouses exist in config''
      \<in> set (events (snd (Main w c False block bv logFile tunFd cc (start order cas))))"
    by (rule Main_warn_event [OF r assms])
  from Main_lighthouse_event [OF r, of block bv cc "start order cas"] assms(1)
  show "\<exists>lh. EvNewLightHouse lh
                \<in> set (events (snd (Main w c False block bv logFile tunFd cc (start order cas)))) \<and>
              lhAmLighthouse lh \<and>
              lhHosts lh = map (\<lambda>host. ip2int w (ParseIP w host))
                             (GetStringSlice c ''lighthouse.hosts'' [])"
    by (intro exI [of _ "theLightHouse w c"]) (simp add: theLightHouse_def)
next
  assume v: "validStartup w c logFile tunFd"
  from Main_interface_event [OF v, of block bv cc "start order cas"] assms(1)
  show "\<exists>ic. EvNewInterface ic
                \<in> set (events (snd (Main w c False block bv logFile tunFd cc (start order cas)))) \<and>
              lhAmLighthouse (lightHouse ic) \<and>
              lhHosts (lightHouse ic) = map (\<lambda>host. ip2int w (ParseIP w host))
                                          (GetStringSlice c ''lighthouse.hosts'' [])"
    by (intro exI [of _ "theInterfaceConfig w c tunFd"])
       (simp add: theInterfaceConfig_def theLightHouse_def)
  have "InterfaceRun (theInterface w c tunFd) (GetInt c ''tun.routines'' 1)
          (GetInt c ''listen.routines'' 1) bv
      \<in> set (events (snd (Main w c False block bv logFile tunFd cc (start order cas))))"
  proof (rule Main_run_event [OF v])
    fix s'
    obtain es where "events (snd (runInterface w c block bv cc (Some (theInterface w c tunFd))
        (NewSSHServer w) (theHostMap w c) (theHandshakeManager w c) (theLightHouse w c)
        (GetInt c ''listen.routines'' 1) (GetBool c ''lighthouse.am_lighthouse'' False)
        (ServeDns (theInterfaceConfig w c tunFd)) s')) =
        events s' @
          [Go (EmitStats (theInterface w c tunFd) (GetDuration c ''stats.interval'' (10 * 1000000000))),
           AttachCommands (NewSSHServer w) (theHostMap w c) (theHandshakeManager w c)
             (theLightHouse w c) (theInterface w c tunFd),
           InterfaceRun (theInterface w c tunFd) (GetInt c ''tun.routines'' 1)
             (GetInt c ''listen.routines'' 1) bv] @ es"
    proof (cases block)
      case True
      let ?s1 = "s'\<lparr>events := events s' @
          [Go (EmitStats (theInterface w c tunFd) (GetDuration c ''stats.interval'' (10 * 1000000000))),
           AttachCommands (NewSSHServer w) (theHostMap w c) (theHandshakeManager w c)
             (theLightHouse w c) (theInterface w c tunFd),
           InterfaceRun (theInterface w c tunFd) (GetInt c ''tun.routines'' 1)
             (GetInt c ''listen.routines'' 1) bv] @
          (if GetBool c ''lighthouse.am_lighthouse'' False \<and> ServeDns (theInterfaceConfig w c tunFd)
           then [Log Debug ''Starting dns server'', Go (DnsMain (theHostMap w c))] else [])\<rparr>"
      from appends_shutdownBlock [of "Hosts w (theInterface w c tunFd)" "selectReceives w cc"]
      obtain es' where "events (snd (shutdownBlock (Hosts w (theInterface w c tunFd))
          (selectReceives w cc) ?s1)) = events ?s1 @ es'"
        unfolding appends_def by blast
      with True that show ?thesis by (simp add: runInterface_snd)
    next
      case False
      with that show ?thesis by (simp add: runInterface_snd)
    qed
    then show "InterfaceRun (theInterface w c tunFd) (GetInt c ''tun.routines'' 1)
          (GetInt c ''listen.routines'' 1) bv
        \<in> set (events (snd (runInterface w c block bv cc (Some (theInterface w c tunFd))
        (NewSSHServer w) (theHostMap w c) (theHandshakeManager w c) (theLightHouse w c)
        (GetInt c ''listen.routines'' 1) (GetBool c ''lighthouse.am_lighthouse'' False)
        (ServeDns (theInterfaceConfig w c tunFd)) s')))"
      by simp
  qed
  then show "\<exists>ifce. InterfaceRun ifce (GetInt c ''tun.routines'' 1)
                       (GetInt c ''listen.routines'' 1) bv
                \<in> set (events (snd (Main w c False block bv logFile tunFd cc (start order cas))))"
    by blast
  show "fst (Main w c False False bv logFile tunFd cc (start order cas)) = Inl (Returned None)"
    by (simp add: Main_valid_outcome [OF v])
next
  assume v: "validConfigTest w c logFile"
  then show out: "fst (Main w c True block bv logFile tunFd cc (start order cas)) = Inl (Exited 0)"
    by (rule config_test_outcome)
  with Main_post [of w c True block bv logFile tunFd cc order cas]
  have "endOfRun w c True order (Exited 0)
      (snd (Main w c True block bv logFile tunFd cc (start order cas)))"
    by auto
  then have "warned c (events (snd (Main w c True block bv logFile tunFd cc (start order cas))))"
    unfolding endOfRun_def by (auto split: if_splits)
  with assms show "Log Warn
      ''lighthouse.am_lighthouse enabled on node but upstream lighthouses exist in config''
      \<in> set (events (snd (Main w c True block bv logFile tunFd cc (start order cas))))"
    unfolding warned_def by simp
qed

subsection \<open>The events of a run of \<open>Main\<close>\<close>










subsection \<open>The goroutines\<close>


















subsection \<open>Runs of the example node\<close>

lemmas section_defs = Main_def setupLogger_def loadCerts_def openDevices_def startCommandLoop_def
  parsePreferredRanges_def newMainHostMap_def discoverPort_def parseLighthouseHosts_def
  newLightHouse_def loadStaticHostMap_def addStaticRemote_def newInterfaceConfig_def
  selectCipher_def startInterface_def runInterface_def shutdownBlock_def

lemmas example_defs = example_world_def example_config_def example_hosts_def
  example_lightHouse_def start_def

text \<open>
  C2. What the code does where the claim fails: the example node is configured with the
  cipher \<open>foo\<close>. \<open>Main\<close> logs \<open>Unknown cipher: foo\<close> at error level and goes on: it
  builds the interface with that cipher, runs it, and returns \<open>nil\<close>.
\<close>

theorem unknown_cipher_still_runs:
  "fst (Main example_world (example_config ''foo'' ''203.0.113.1:4242'' []) False False ''v1'' []
          None None (start BigEndian None)) = Inl (Returned None) \<and>
   set [Log Error ''Unknown cipher: foo'',
        InterfaceRun (Interface 0) 1 1 ''v1'',
        Go (ShutdownBlock (Interface 0))]
     \<subseteq> set (events (snd (Main example_world (example_config ''foo'' ''203.0.113.1:4242'' [])
          False False ''v1'' [] None None (start BigEndian None)))) \<and>
   map Cipher (concat (map (\<lambda>e. case e of EvNewInterface ic \<Rightarrow> [ic] | _ \<Rightarrow> [])
     (events (snd (Main example_world (example_config ''foo'' ''203.0.113.1:4242'' [])
          False False ''v1'' [] None None (start BigEndian None)))))) = [''foo'']"
  by (simp add: section_defs M_defs example_defs Let_def)

text \<open>
  C7. What the code does where the claim fails: the static host map of the example node
  has the entry \<open>203.0.113.1:abc\<close>. \<open>strconv.Atoi\<close> fails on \<open>abc\<close> and returns 0; the code
  logs the failure and still adds the remote, with port 0.
\<close>

theorem static_host_bad_port_added:
  "addStaticRemote example_world example_lightHouse [10, 0, 0, 1] ''203.0.113.1:abc''
     (start BigEndian None) =
     (Inr (), \<lparr>noiseEndianness = BigEndian, trustedCAs = None,
        events = [Log Error ''Static host address could not be parsed'',
                  AddRemote example_lightHouse 167772161 (NewUDPAddr 3405803777 0) True]\<rparr>) \<and>
   AddRemote example_lightHouse 167772161 (NewUDPAddr 3405803777 0) True
     \<in> set (events (snd (Main example_world (example_config ''aes'' ''203.0.113.1:abc'' [])
          False False ''v1'' [] None None (start BigEndian None))))"
  by (simp add: section_defs M_defs example_defs Let_def)


lemma example_valid:
  "validStartup example_world (example_config ''aes'' ''203.0.113.1:4242'' []) [] None"
  by (simp add: validStartup_def reachesLighthouse_def rangesParse_def staticEntryOk_def
      staticAddrOk_def theTun_def theListener_def theCidr_def theCert_def
      example_world_def example_config_def)

lemma example_reaches:
  "reachesLighthouse example_world (example_config ''aes'' ''203.0.113.1:4242'' []) [] None"
  using example_valid by (rule valid_reaches)

text \<open>
  C4. What the code does where the claim fails: a host of the main host map has no
  connection state (\<open>h.ConnectionState\<close> is \<open>nil\<close>), so it is not ready. Line 421 reads
  \<open>ready\<close> through the \<open>nil\<close> pointer and panics, with the host map locked: the hosts that
  come after it in the loop, ready or not, get no \<open>closeTunnel\<close>, the map is not unlocked,
  the shutdown path does not complete and the callback of the command is not answered.
  First for such a host at the head of the loop, whatever follows it and whatever was
  received; then for three hosts, the second without a connection state, on an \<open>exit\<close>
  command; then in a run of \<open>Main\<close> on the example node that blocks in \<open>shutdownBlock\<close> and
  receives a signal: \<open>Main\<close> panics, and of the shutdown path there is the lock and the
  \<open>closeTunnel\<close> for the first host only.
\<close>

theorem shutdownBlock_nil_state_panics:
  "shutdownBlock ((k, h\<lparr>ConnectionState := None\<rparr>) # rest) (Some rcv) s =
     (Inl Panicked, s\<lparr>events := events s @
        [SignalNotify ''SIGTERM'', SignalNotify ''SIGINT'',
         Log Info ''Caught signal, shutting down'', HostMapLock]\<rparr>) \<and>
   shutdownBlock example_hosts_nil
     (Some (FromKillChan \<lparr>Command = ''exit'', Callback = Some 7\<rparr>)) (start BigEndian None) =
   (Inl Panicked, \<lparr>noiseEndianness = BigEndian, trustedCAs = None, events =
      [SignalNotify ''SIGTERM'', SignalNotify ''SIGINT'',
       Log Info ''Caught signal, shutting down'', HostMapLock,
       SendCloseTunnel \<lparr>hostId = 1, remote = None, ConnectionState = Some \<lparr>ready = True\<rparr>\<rparr>,
       Log Debug ''Sending close tunnel message'']\<rparr>) \<and>
   fst (Main (example_world\<lparr>signal := Some ''terminated'', Hosts := \<lambda>ifce. example_hosts_nil\<rparr>)
          (example_config ''aes'' ''203.0.113.1:4242'' []) False True ''v1'' [] None None
          (start BigEndian None)) = Inl Panicked \<and>
   set [HostMapLock,
        SendCloseTunnel \<lparr>hostId = 1, remote = None, ConnectionState = Some \<lparr>ready = True\<rparr>\<rparr>]
     \<subseteq> set (events (snd (Main
          (example_world\<lparr>signal := Some ''terminated'', Hosts := \<lambda>ifce. example_hosts_nil\<rparr>)
          (example_config ''aes'' ''203.0.113.1:4242'' []) False True ''v1'' [] None None
          (start BigEndian None)))) \<and>
   SendCloseTunnel \<lparr>hostId = 3, remote = Some (NewUDPAddr 9 4242),
       ConnectionState = Some \<lparr>ready = True\<rparr>\<rparr>
     \<notin> set (events (snd (Main
          (example_world\<lparr>signal := Some ''terminated'', Hosts := \<lambda>ifce. example_hosts_nil\<rparr>)
          (example_config ''aes'' ''203.0.113.1:4242'' []) False True ''v1'' [] None None
          (start BigEndian None)))) \<and>
   HostMapUnlock
     \<notin> set (events (snd (Main
          (example_world\<lparr>signal := Some ''terminated'', Hosts := \<lambda>ifce. example_hosts_nil\<rparr>)
          (example_config ''aes'' ''203.0.113.1:4242'' []) False True ''v1'' [] None None
          (start BigEndian None))))"
  by (simp add: section_defs M_defs example_defs example_hosts_nil_def selectReceives_def Let_def)

text \<open>
  C8. What the code does where the claim fails: the example node has an invalid
  \<open>lighthouse.remote_allow_list\<close>, or an invalid \<open>lighthouse.local_allow_list\<close>, or a
  lighthouse host that lies outside its subnet, and nothing else is wrong. \<open>Main\<close> does not
  return an error to its caller: the last thing it does is to log at fatal level, and
  logrus ends the process with status 1. On the same node a failure to open the UDP
  listener returns a formatted error, as the other checks of \<open>Main\<close> do.
\<close>

theorem startup_failure_exits_process:
  "fst (Main example_world
          ((example_config ''aes'' ''203.0.113.1:4242'' [])
             \<lparr>GetAllowList := \<lambda>k inside. if k = ''lighthouse.remote_allow_list''
                then Inl ''invalid allow list'' else Inr (AllowList [])\<rparr>)
          False False ''v1'' [] None None (start BigEndian None)) = Inl (Exited 1) \<and>
   last (events (snd (Main example_world
          ((example_config ''aes'' ''203.0.113.1:4242'' [])
             \<lparr>GetAllowList := \<lambda>k inside. if k = ''lighthouse.remote_allow_list''
                then Inl ''invalid allow list'' else Inr (AllowList [])\<rparr>)
          False False ''v1'' [] None None (start BigEndian None)))) =
     Log Fatal ''Invalid lighthouse.remote_allow_list'' \<and>
   fst (Main example_world
          ((example_config ''aes'' ''203.0.113.1:4242'' [])
             \<lparr>GetAllowList := \<lambda>k inside. if k = ''lighthouse.local_allow_list''
                then Inl ''invalid allow list'' else Inr (AllowList [])\<rparr>)
          False False ''v1'' [] None None (start BigEndian None)) = Inl (Exited 1) \<and>
   last (events (snd (Main example_world
          ((example_config ''aes'' ''203.0.113.1:4242'' [])
             \<lparr>GetAllowList := \<lambda>k inside. if k = ''lighthouse.local_allow_list''
                then Inl ''invalid allow list'' else Inr (AllowList [])\<rparr>)
          False False ''v1'' [] None None (start BigEndian None)))) =
     Log Fatal ''Invalid lighthouse.local_allow_list'' \<and>
   fst (Main example_world
          ((example_config ''aes'' ''203.0.113.1:4242'' [])
             \<lparr>GetStringSlice := \<lambda>k d. if k = ''lighthouse.hosts'' then [''10.9.0.1''] else d\<rparr>)
          False False ''v1'' [] None None (start BigEndian None)) = Inl (Exited 1) \<and>
   last (events (snd (Main example_world
          ((example_config ''aes'' ''203.0.113.1:4242'' [])
             \<lparr>GetStringSlice := \<lambda>k d. if k = ''lighthouse.hosts'' then [''10.9.0.1''] else d\<rparr>)
          False False ''v1'' [] None None (start BigEndian None)))) =
     Log Fatal ''lighthouse host is not in our subnet, invalid'' \<and>
   fst (Main (example_world\<lparr>NewListener := \<lambda>host port multi. Inl ''address in use''\<rparr>)
          (example_config ''aes'' ''203.0.113.1:4242'' []) False False ''v1'' [] None None
          (start BigEndian None)) =
     Inl (Returned (Some ''failed to open udp listener: address in use''))"
  by (simp add: section_defs M_defs example_defs Let_def)


theorem cipher_selects_endianness_witness:
  "noiseEndianness (snd (Main example_world (example_config ''chachapoly'' ''203.0.113.1:4242'' [])
      False False ''v1'' [] None None (start BigEndian None))) = LittleEndian"
proof -
  have "list_ex pastCipherSwitch (events (snd (Main example_world
      (example_config ''chachapoly'' ''203.0.113.1:4242'' [])
      False False ''v1'' [] None None (start BigEndian None))))"
    by (simp add: section_defs M_defs example_defs Let_def)
  moreover have "GetString (example_config ''chachapoly'' ''203.0.113.1:4242'' []) ''cipher'' ''aes''
      = ''chachapoly''"
    by (simp add: example_config_def)
  ultimately show ?thesis
    using cipher_selects_endianness [of "start BigEndian None" undefined example_world
        "example_config ''chachapoly'' ''203.0.113.1:4242'' []" False False "''v1''" "[]"
        None None BigEndian None]
    by simp
qed

theorem config_test_exits_zero_witness:
  "validConfigTest example_world (example_config ''aes'' ''203.0.113.1:4242'' ''10.1.0.0/16'') ''log'' \<and>
   fst (Main example_world (example_config ''aes'' ''203.0.113.1:4242'' ''10.1.0.0/16'') True True
      ''v1'' ''log'' None None (start BigEndian None)) = Inl (Exited 0) \<and>
   Println ''cipher: aes'' \<in> set (events (snd (Main example_world
      (example_config ''aes'' ''203.0.113.1:4242'' ''10.1.0.0/16'') True True
      ''v1'' ''log'' None None (start BigEndian None))))"
proof -
  have v: "validConfigTest example_world
      (example_config ''aes'' ''203.0.113.1:4242'' ''10.1.0.0/16'') ''log''"
    by (simp add: validConfigTest_def rangesParse_def staticEntryOk_def staticAddrOk_def
        example_world_def example_config_def)
  have y: "projr (yamlMarshal example_world
      (Settings (example_config ''aes'' ''203.0.113.1:4242'' ''10.1.0.0/16''))) = ''cipher: aes''"
    by (simp add: example_world_def example_config_def)
  from config_test_exits_zero [OF v, of True "''v1''" None None BigEndian None] v y
  show ?thesis by simp
qed

theorem preferred_ranges_merged_witness:
  "parsePreferredRanges example_world (example_config ''aes'' ''203.0.113.1:4242'' ''10.1.0.0/16'')
     (start BigEndian None) =
     (Inr [IPNet [192, 168, 0, 0] [255, 255, 0, 0], IPNet [10, 1, 0, 0] [255, 255, 0, 0]],
      start BigEndian None) \<and>
   parsePreferredRanges example_world (example_config ''aes'' ''203.0.113.1:4242'' ''192.168.0.0/16'')
     (start BigEndian None) =
     (Inr [IPNet [192, 168, 0, 0] [255, 255, 0, 0]], start BigEndian None) \<and>
   (\<exists>err. fst (Main example_world (example_config ''aes'' ''203.0.113.1:4242'' ''10.1.0.0'')
      False False ''v1'' [] None None (start BigEndian None)) = Inl (Returned (Some err)))"
proof -
  let ?c = "\<lambda>lr. example_config ''aes'' ''203.0.113.1:4242'' lr"
  have 1: "rangesParse example_world (?c ''10.1.0.0/16'')"
    and 2: "rangesParse example_world (?c ''192.168.0.0/16'')"
    and 3: "\<not> rangesParse example_world (?c ''10.1.0.0'')"
    by (simp_all add: rangesParse_def example_config_def example_world_def)
  have 4: "\<forall>cs. NewCertStateFromConfig example_world (?c ''10.1.0.0'') = Inr cs \<longrightarrow>
      Ips (certificate cs) \<noteq> []"
    by (auto simp: example_world_def)
  have 5: "spec_preferredRanges example_world (?c ''10.1.0.0/16'') =
      [IPNet [192, 168, 0, 0] [255, 255, 0, 0], IPNet [10, 1, 0, 0] [255, 255, 0, 0]]"
    and 6: "spec_preferredRanges example_world (?c ''192.168.0.0/16'') =
      [IPNet [192, 168, 0, 0] [255, 255, 0, 0]]"
    by (simp_all add: spec_preferredRanges_def example_config_def example_world_def)
  from preferred_ranges_merged [of example_world "?c ''10.1.0.0/16''" "start BigEndian None"]
    preferred_ranges_merged [of example_world "?c ''192.168.0.0/16''" "start BigEndian None"]
    preferred_ranges_merged [of example_world "?c ''10.1.0.0''" _ False False "''v1''" "[]"
      None None BigEndian None]
    1 2 3 4 5 6
  show ?thesis by simp
qed


theorem listen_port_discovered_witness:
  "GetInt (example_config ''aes'' ''203.0.113.1:4242'' []) ''listen.port'' 0 = 0 \<and>
   reachesLighthouse example_world (example_config ''aes'' ''203.0.113.1:4242'' []) [] None \<and>
   LocalAddr example_world (UdpConn 0) = Inr (NewUDPAddr 0 51820) \<and>
   EvNewLightHouse
     (NewLightHouse True 167772162 [167772161] 10 51820 (Some (UdpConn 0)) False 1000000000)
     \<in> set (events (snd (Main example_world (example_config ''aes'' ''203.0.113.1:4242'' [])
          False False ''v1'' [] None None (start BigEndian None)))) \<and>
   map lhPort (concat (map (\<lambda>e. case e of EvNewLightHouse lh \<Rightarrow> [lh] | _ \<Rightarrow> [])
     (events (snd (Main example_world (example_config ''aes'' ''203.0.113.1:4242'' [])
          False False ''v1'' [] None None (start BigEndian None)))))) = [51820]"
proof -
  let ?c = "example_config ''aes'' ''203.0.113.1:4242'' []"
  have 1: "GetInt ?c ''listen.port'' 0 = 0" by (simp add: example_config_def)
  note T = listen_port_discovered [OF 1, where w = example_world and logFile = "[]" and
      tunFd = None and block = False and bv = "''v1''" and cc = None and order = BigEndian and
      cas = None]
  from T example_reaches obtain u a where
    ua: "NewListener example_world (GetString ?c ''listen.host'' ''0.0.0.0'') 0
           (GetInt ?c ''listen.routines'' 1 > 1) = Inr u"
      "LocalAddr example_world u = Inr a"
    and ev: "EvNewLightHouse
           (NewLightHouse (GetBool ?c ''lighthouse.am_lighthouse'' False)
              (ip2int example_world (netIP (theCidr example_world ?c)))
              (map (\<lambda>host. ip2int example_world (ParseIP example_world host))
                 (GetStringSlice ?c ''lighthouse.hosts'' []))
              (GetInt ?c ''lighthouse.interval'' 10) (uint (addrPort a)) (Some u)
              (Respond (NewPunchyFromConfig example_world ?c))
              (Delay (NewPunchyFromConfig example_world ?c)))
           \<in> set (events (snd (Main example_world ?c False False ''v1'' [] None None
                (start BigEndian None))))"
    by blast
  from ua have u: "u = UdpConn 0" and a: "a = NewUDPAddr 0 51820"
    by (simp_all add: example_world_def)
  from ev have 2: "EvNewLightHouse
     (NewLightHouse True 167772162 [167772161] 10 51820 (Some (UdpConn 0)) False 1000000000)
     \<in> set (events (snd (Main example_world ?c False False ''v1'' [] None None
          (start BigEndian None))))"
    unfolding u a by (simp add: theCidr_def theCert_def example_world_def example_config_def)
  have 3: "map lhPort (concat (map (\<lambda>e. case e of EvNewLightHouse lh \<Rightarrow> [lh] | _ \<Rightarrow> [])
     (events (snd (Main example_world ?c False False ''v1'' [] None None
        (start BigEndian None)))))) = [51820]"
    by (simp add: section_defs M_defs example_defs Let_def)
  have 4: "LocalAddr example_world (UdpConn 0) = Inr (NewUDPAddr 0 51820)"
    by (simp add: example_world_def)
  from 1 example_reaches 2 3 4 show ?thesis by blast
qed

theorem lighthouse_with_upstream_hosts_witness:
  "validStartup example_world (example_config ''aes'' ''203.0.113.1:4242'' []) [] None \<and>
   validConfigTest example_world (example_config ''aes'' ''203.0.113.1:4242'' []) [] \<and>
   fst (Main example_world (example_config ''aes'' ''203.0.113.1:4242'' []) False False ''v1'' []
          None None (start BigEndian None)) = Inl (Returned None) \<and>
   fst (Main example_world (example_config ''aes'' ''203.0.113.1:4242'' []) True False ''v1'' []
          None None (start BigEndian None)) = Inl (Exited 0) \<and>
   Log Warn ''lighthouse.am_lighthouse enabled on node but upstream lighthouses exist in config''
     \<in> set (events (snd (Main example_world (example_config ''aes'' ''203.0.113.1:4242'' [])
          False False ''v1'' [] None None (start BigEndian None)))) \<and>
   Log Warn ''lighthouse.am_lighthouse enabled on node but upstream lighthouses exist in config''
     \<in> set (events (snd (Main example_world (example_config ''aes'' ''203.0.113.1:4242'' [])
          True False ''v1'' [] None None (start BigEndian None)))) \<and>
   (\<exists>lh. EvNewLightHouse lh
        \<in> set (events (snd (Main example_world (example_config ''aes'' ''203.0.113.1:4242'' [])
             False False ''v1'' [] None None (start BigEndian None)))) \<and>
      lhAmLighthouse lh \<and> lhHosts lh = [167772161]) \<and>
   (\<exists>ic. EvNewInterface ic
        \<in> set (events (snd (Main example_world (example_config ''aes'' ''203.0.113.1:4242'' [])
             False False ''v1'' [] None None (start BigEndian None)))) \<and>
      lhAmLighthouse (lightHouse ic) \<and> lhHosts (lightHouse ic) = [167772161])"
proof -
  let ?c = "example_config ''aes'' ''203.0.113.1:4242'' []"
  have 1: "GetBool ?c ''lighthouse.am_lighthouse'' False"
    and 2: "GetStringSlice ?c ''lighthouse.hosts'' [] \<noteq> []"
    by (simp_all add: example_config_def)
  have ct: "validConfigTest example_world ?c []"
    by (simp add: validConfigTest_def rangesParse_def staticEntryOk_def staticAddrOk_def
        example_world_def example_config_def)
  have hs: "map (\<lambda>host. ip2int example_world (ParseIP example_world host))
      (GetStringSlice ?c ''lighthouse.hosts'' []) = [167772161]"
    by (simp add: example_world_def example_config_def)
  note T = lighthouse_with_upstream_hosts [OF 1 2, where w = example_world and logFile = "[]"
      and tunFd = None and block = False and bv = "''v1''" and cc = None and order = BigEndian
      and cas = None]
  note C = T [THEN conjunct2, THEN conjunct2, THEN conjunct1, THEN mp, OF example_reaches]
  note D = T [THEN conjunct2, THEN conjunct2, THEN conjunct2, THEN conjunct1, THEN mp,
      OF example_valid]
  note E = T [THEN conjunct2, THEN conjunct2, THEN conjunct2, THEN conjunct2, THEN mp, OF ct]
  from C D E example_valid ct show ?thesis unfolding hs by blast
qed

end
